(* ===== verification/Go_Prelude.thy ===== *)
theory Go_Prelude
  imports Main "HOL-Library.AList" "HOL-Library.Signed_Division"
begin

text \<open>
  What every component shares: Go's time values and durations, 64-bit wrap-around, error
  values with \<open>errors.Is\<close>, results that are either an error or a value, and Go maps whose
  entries are counted or ranged over (association lists with distinct keys).

  A \<open>time.Time\<close> is the number of nanoseconds since Go's zero time (January 1 of year 1,
  UTC), so \<open>IsZero\<close> is equality with 0, \<open>Before\<close> is \<open><\<close>, \<open>Add\<close> is \<open>+\<close> and
  \<open>Truncate d\<close>, which Go defines relative to the zero time, subtracts the remainder.
  A \<open>time.Duration\<close> is a number of nanoseconds; operations that can leave its 64 bits
  say what happens there (\<open>time_sub\<close> saturates, \<open>wrap64\<close> wraps around).
\<close>

named_theorems go_defs \<open>unfolding of the small definitions of the Go library\<close>
named_theorems result_iff \<open>inversion of a chain of guards and early returns that ends in a value\<close>

section \<open>Time, durations and 64-bit integers\<close>

type_synonym bytes = string
type_synonym time = int
type_synonym duration = int

abbreviation millisecond :: duration where "millisecond \<equiv> 1000000"
abbreviation second :: duration where "second \<equiv> 1000000000"
abbreviation minute :: duration where "minute \<equiv> 60000000000"
abbreviation hour :: duration where "hour \<equiv> 3600000000000"

definition max_int64 :: int where
  "max_int64 = 9223372036854775807"

definition min_int64 :: int where
  "min_int64 = -9223372036854775808"

definition in_int64 :: "int \<Rightarrow> bool" where
  "in_int64 x \<longleftrightarrow> min_int64 \<le> x \<and> x \<le> max_int64"

definition wrap64 :: "int \<Rightarrow> int" where
  "wrap64 x = (x + 2 ^ 63) mod 2 ^ 64 - 2 ^ 63"

definition is_zero_time :: "time \<Rightarrow> bool" where
  "is_zero_time t \<longleftrightarrow> t = 0"

definition time_sub :: "time \<Rightarrow> time \<Rightarrow> duration" where
  "time_sub t u =
     (if t - u > max_int64 then max_int64 else if t - u < min_int64 then min_int64 else t - u)"

definition time_truncate :: "time \<Rightarrow> duration \<Rightarrow> time" where
  "time_truncate t d = (if d \<le> 0 then t else t - t mod d)"

definition milliseconds :: "duration \<Rightarrow> int" where
  "milliseconds d = d sdiv millisecond"

declare is_zero_time_def [go_defs] time_sub_def [go_defs] time_truncate_def [go_defs]

lemma wrap64_id: "in_int64 x \<Longrightarrow> wrap64 x = x"
  by (simp add: wrap64_def in_int64_def min_int64_def max_int64_def)

lemma wrap64_in_int64: "in_int64 (wrap64 x)"
  unfolding wrap64_def in_int64_def min_int64_def max_int64_def
  using pos_mod_bound [of "2 ^ 64" "x + 2 ^ 63"] pos_mod_sign [of "2 ^ 64" "x + 2 ^ 63"]
  by (simp del: pos_mod_bound pos_mod_sign)

lemma time_sub_exact: "in_int64 (t - u) \<Longrightarrow> time_sub t u = t - u"
  by (simp add: time_sub_def in_int64_def)

lemma time_sub_pos: "u < t \<Longrightarrow> 0 < time_sub t u"
  by (simp add: time_sub_def max_int64_def min_int64_def)

lemma time_truncate_le: "0 < d \<Longrightarrow> time_truncate t d \<le> t"
  by (simp add: time_truncate_def)

lemma time_truncate_gt: "0 < d \<Longrightarrow> t < time_truncate t d + d"
  using pos_mod_bound [of d t] by (simp add: time_truncate_def)

lemma time_truncate_dvd: "0 < d \<Longrightarrow> d dvd time_truncate t d"
  by (simp add: time_truncate_def dvd_minus_mod)

lemma time_truncate_eq_iff: "0 < d \<Longrightarrow> time_truncate t d = t \<longleftrightarrow> d dvd t"
  by (auto simp: time_truncate_def dvd_eq_mod_eq_0)

lemma nonneg_sdiv: "0 \<le> a \<Longrightarrow> 0 < b \<Longrightarrow> (a :: int) sdiv b = a div b"
  by (simp add: signed_divide_int_def sgn_if zero_less_mult_iff)

lemma milliseconds_pos: "millisecond \<le> d \<Longrightarrow> 0 < milliseconds d"
  by (simp add: milliseconds_def nonneg_sdiv pos_imp_zdiv_pos_iff)

lemma milliseconds_nonneg: "0 \<le> d \<Longrightarrow> 0 \<le> milliseconds d"
  by (simp add: milliseconds_def nonneg_sdiv pos_imp_zdiv_nonneg_iff)

section \<open>Errors and results\<close>

text \<open>
  A package-level error variable is a \<open>Sentinel\<close>, identified by its Go name; the error of a
  \<open>fmt.Errorf\<close> call carries its format and its string arguments, and with a \<open>%w\<close> verb the
  error it wraps. An \<open>httpx.HTTPError\<close> carries its status and message. \<open>errors.Is\<close>
  follows the wrapped errors.
\<close>

datatype goerr =
    Sentinel string
  | Errorf string "string list"
  | Wrapf string "string list" goerr
  | HTTPError int string

fun errors_is :: "goerr \<Rightarrow> goerr \<Rightarrow> bool" where
  "errors_is (Wrapf f as e) target \<longleftrightarrow> Wrapf f as e = target \<or> errors_is e target"
| "errors_is e target \<longleftrightarrow> e = target"

type_synonym 'a result = "goerr + 'a"

lemma errors_is_refl [simp]: "errors_is e e"
  by (cases e) auto

fun is_ok :: "'a result \<Rightarrow> bool" where
  "is_ok (Inl e) \<longleftrightarrow> False"
| "is_ok (Inr x) \<longleftrightarrow> True"

lemma is_ok_iff: "is_ok r \<longleftrightarrow> (\<exists>x. r = Inr x)"
  by (cases r) auto

text \<open>The early returns of a function that returned a value, one at a time and without case splits.\<close>

lemma guard_Inr [result_iff]: "(if b then Inl e else k) = Inr c \<longleftrightarrow> \<not> b \<and> k = Inr c"
  by simp

lemma case_Inr [result_iff]:
  "(case r of Inl e \<Rightarrow> Inl e | Inr v \<Rightarrow> f v) = Inr c \<longleftrightarrow> (\<exists>v. r = Inr v \<and> f v = Inr c)"
  by (cases r) auto

lemma case_wrap_Inr [result_iff]:
  "(case r of Inl e \<Rightarrow> Inl (w e) | Inr v \<Rightarrow> f v) = Inr c \<longleftrightarrow> (\<exists>v. r = Inr v \<and> f v = Inr c)"
  by (cases r) auto

lemma Let_Inr [result_iff]: "(let x = v in f x) = Inr c \<longleftrightarrow> f v = Inr c"
  by simp

section \<open>Go maps with counted or ranged-over entries\<close>

text \<open>
  A Go map whose length or whose iteration the code uses is an association list with distinct
  keys: lookup is \<open>map_of\<close>, assignment \<open>AList.update\<close>, \<open>delete\<close> is \<open>AList.delete\<close>,
  \<open>len\<close> the length. The list's order is the order in which a \<open>range\<close> visits the entries.
\<close>

type_synonym ('k, 'v) gomap = "('k \<times> 'v) list"

abbreviation map_wf :: "('k, 'v) gomap \<Rightarrow> bool" where
  "map_wf m \<equiv> distinct (map fst m)"

lemma map_wf_update: "map_wf m \<Longrightarrow> map_wf (AList.update k v m)"
  by (rule distinct_update)

lemma map_wf_delete: "map_wf m \<Longrightarrow> map_wf (AList.delete k m)"
  by (rule distinct_delete)

lemma map_wf_filter: "map_wf m \<Longrightarrow> map_wf (filter p m)"
  by (rule distinct_map_filter)

lemma map_of_filter_wf:
  "map_wf m \<Longrightarrow>
   map_of (filter (\<lambda>(k, v). p k v) m) k =
     (case map_of m k of None \<Rightarrow> None | Some v \<Rightarrow> if p k v then Some v else None)"
proof (induction m)
  case Nil
  then show ?case by simp
next
  case (Cons kv m)
  have "fst kv \<notin> dom (map_of m)"
    using Cons.prems by (simp add: dom_map_of_conv_image_fst)
  then have "map_of m (fst kv) = None" by (simp add: domIff)
  with Cons show ?case by (cases kv) (auto split: option.splits)
qed

lemma map_of_update_key: "map_of (AList.update k v m) k' = (if k' = k then Some v else map_of m k')"
  by (simp add: update_conv')

lemma map_of_delete_key: "map_of (AList.delete k m) k' = (if k' = k then None else map_of m k')"
  by (simp add: delete_conv')

lemma length_update_le: "length (AList.update k v m) \<le> Suc (length m)"
  by (induction m) auto

lemma length_update_eq: "map_of m k \<noteq> None \<Longrightarrow> length (AList.update k v m) = length m"
  by (induction m) auto

lemma length_delete_le': "length (AList.delete k m) \<le> length m"
  by (simp add: AList.delete_eq)

lemma length_update_new: "map_of m k = None \<Longrightarrow> length (AList.update k v m) = Suc (length m)"
  by (induction m) (auto split: if_splits)

lemmas gomap_wf [intro] = map_wf_update map_wf_delete map_wf_filter
lemmas gomap_lookup = map_of_update_key map_of_delete_key

end
