(* ===== verification/Go_Regexp.thy ===== *)
theory Go_Regexp
  imports Go_Prelude
begin

text \<open>
  The regular expressions that the program compiles with \<open>regexp.MustCompile\<close>: byte classes,
  concatenation, alternation and repetition, all anchored at both ends. \<open>MatchString\<close> is
  the derivative matcher \<open>rmatch\<close>; \<open>rmatch_lang\<close> shows that it decides membership in the
  language of the expression.
\<close>

section \<open>Expressions, their languages and the matcher\<close>

datatype rexp =
    Never
  | Eps
  | Cls "(char \<times> char) list"
  | Seq rexp rexp
  | Alt rexp rexp
  | Star rexp

fun in_cls :: "(char \<times> char) list \<Rightarrow> char \<Rightarrow> bool" where
  "in_cls [] c \<longleftrightarrow> False"
| "in_cls ((lo, hi) # rs) c \<longleftrightarrow>
     (of_char lo \<le> (of_char c :: nat) \<and> of_char c \<le> (of_char hi :: nat)) \<or> in_cls rs c"

inductive_set star :: "string set \<Rightarrow> string set" for L where
  star_nil: "[] \<in> star L"
| star_app: "u \<in> L \<Longrightarrow> v \<in> star L \<Longrightarrow> u @ v \<in> star L"

fun lang :: "rexp \<Rightarrow> string set" where
  "lang Never = {}"
| "lang Eps = {[]}"
| "lang (Cls rs) = {[c] | c. in_cls rs c}"
| "lang (Seq r s) = {u @ v | u v. u \<in> lang r \<and> v \<in> lang s}"
| "lang (Alt r s) = lang r \<union> lang s"
| "lang (Star r) = star (lang r)"

fun nullable :: "rexp \<Rightarrow> bool" where
  "nullable Never \<longleftrightarrow> False"
| "nullable Eps \<longleftrightarrow> True"
| "nullable (Cls rs) \<longleftrightarrow> False"
| "nullable (Seq r s) \<longleftrightarrow> nullable r \<and> nullable s"
| "nullable (Alt r s) \<longleftrightarrow> nullable r \<or> nullable s"
| "nullable (Star r) \<longleftrightarrow> True"

fun deriv :: "char \<Rightarrow> rexp \<Rightarrow> rexp" where
  "deriv c Never = Never"
| "deriv c Eps = Never"
| "deriv c (Cls rs) = (if in_cls rs c then Eps else Never)"
| "deriv c (Seq r s) =
     (if nullable r then Alt (Seq (deriv c r) s) (deriv c s) else Seq (deriv c r) s)"
| "deriv c (Alt r s) = Alt (deriv c r) (deriv c s)"
| "deriv c (Star r) = Seq (deriv c r) (Star r)"

fun rmatch :: "rexp \<Rightarrow> string \<Rightarrow> bool" where
  "rmatch r [] \<longleftrightarrow> nullable r"
| "rmatch r (c # s) \<longleftrightarrow> rmatch (deriv c r) s"

fun lit :: "string \<Rightarrow> rexp" where
  "lit [] = Eps"
| "lit (c # s) = Seq (Cls [(c, c)]) (lit s)"

fun seqs :: "rexp list \<Rightarrow> rexp" where
  "seqs [] = Eps"
| "seqs [r] = r"
| "seqs (r # rs) = Seq r (seqs rs)"

section \<open>The matcher decides the language\<close>

lemma nullable_lang: "nullable r \<longleftrightarrow> [] \<in> lang r"
  by (induction r) (auto intro: star_nil)

lemma star_Cons_split:
  "c # s \<in> star L \<Longrightarrow> \<exists>u v. c # u \<in> L \<and> v \<in> star L \<and> s = u @ v"
proof (induction "c # s" rule: star.induct)
  case (star_app u v)
  then show ?case by (cases u) auto
qed

lemma deriv_lang: "s \<in> lang (deriv c r) \<longleftrightarrow> c # s \<in> lang r"
proof (induction r arbitrary: s)
  case (Seq r1 r2)
  have "c # s \<in> lang (Seq r1 r2) \<longleftrightarrow>
        (\<exists>u v. s = u @ v \<and> c # u \<in> lang r1 \<and> v \<in> lang r2) \<or> ([] \<in> lang r1 \<and> c # s \<in> lang r2)"
    by (auto simp: Cons_eq_append_conv)
  with Seq show ?case by (auto simp: nullable_lang)
next
  case (Star r)
  have "s \<in> lang (deriv c (Star r)) \<longleftrightarrow> (\<exists>u v. s = u @ v \<and> c # u \<in> lang r \<and> v \<in> star (lang r))"
    using Star by auto
  also have "\<dots> \<longleftrightarrow> c # s \<in> star (lang r)"
  proof
    show "c # s \<in> star (lang r)" if "\<exists>u v. s = u @ v \<and> c # u \<in> lang r \<and> v \<in> star (lang r)"
      using that star_app [of "c # u" "lang r" v for u v] by auto
  qed (blast dest: star_Cons_split)
  finally show ?case by simp
qed auto

lemma rmatch_lang: "rmatch r s \<longleftrightarrow> s \<in> lang r"
  by (induction s arbitrary: r) (auto simp: nullable_lang deriv_lang)

lemma lang_lit [simp]: "lang (lit s) = {s}"
proof (induction s)
  case (Cons c s)
  have "in_cls [(c, c)] c' \<longleftrightarrow> c' = c" for c'
    by (auto dest: antisym)
  with Cons show ?case by simp
qed simp

lemma lang_seqs_Cons [simp]: "rs \<noteq> [] \<Longrightarrow> lang (seqs (r # rs)) = lang (Seq r (seqs rs))"
  by (cases rs) auto

lemma star_cls: "s \<in> star (lang (Cls rs)) \<longleftrightarrow> list_all (in_cls rs) s"
proof
  show "list_all (in_cls rs) s" if "s \<in> star (lang (Cls rs))"
    using that by induction auto
  show "s \<in> star (lang (Cls rs))" if "list_all (in_cls rs) s"
    using that
  proof (induction s)
    case (Cons c s)
    then have "[c] @ s \<in> star (lang (Cls rs))" by (intro star_app) auto
    then show ?case by simp
  qed (rule star_nil)
qed

lemma lang_Seq_Cls:
  "s \<in> lang (Seq (Cls rs) r) \<longleftrightarrow> (\<exists>c t. s = c # t \<and> in_cls rs c \<and> t \<in> lang r)"
  by (auto intro: exI [of _ "[c]" for c])

lemma lang_Star_Cls: "s \<in> lang (Star (Cls rs)) \<longleftrightarrow> list_all (in_cls rs) s"
  by (simp only: lang.simps(6) star_cls)

lemma lang_Seq_Star_Cls:
  "s \<in> lang (Seq (Star (Cls rs)) r) \<longleftrightarrow> (\<exists>p t. s = p @ t \<and> list_all (in_cls rs) p \<and> t \<in> lang r)"
  by (simp only: lang.simps(4) lang_Star_Cls mem_Collect_eq)

lemma lang_Seq_lit: "s \<in> lang (Seq (lit l) r) \<longleftrightarrow> (\<exists>t. s = l @ t \<and> t \<in> lang r)"
  by simp

section \<open>The classes and patterns the packages share\<close>

abbreviation cls_lower :: "(char \<times> char) list" where
  "cls_lower \<equiv> [(CHR ''a'', CHR ''z'')]"
abbreviation cls_digit :: "(char \<times> char) list" where
  "cls_digit \<equiv> [(CHR ''0'', CHR ''9'')]"
abbreviation cls_digit19 :: "(char \<times> char) list" where
  "cls_digit19 \<equiv> [(CHR ''1'', CHR ''9'')]"
abbreviation cls_name :: "(char \<times> char) list" where
  "cls_name \<equiv> [(CHR ''a'', CHR ''z''), (CHR ''0'', CHR ''9''), (CHR ''.'', CHR ''.''),
     (CHR ''_'', CHR ''_''), (CHR ''-'', CHR ''-'')]"

text \<open>\<^verbatim>\<open>^[a-z][a-z0-9._-]*$\<close>\<close>
definition queue_rexp :: rexp where
  "queue_rexp = seqs [Cls cls_lower, Star (Cls cls_name)]"

text \<open>\<^verbatim>\<open>^[a-z][a-z0-9._-]*\.v[1-9][0-9]*$\<close>\<close>
definition versioned_name_rexp :: rexp where
  "versioned_name_rexp =
     seqs [Cls cls_lower, Star (Cls cls_name), lit ''.v'', Cls cls_digit19, Star (Cls cls_digit)]"

lemma queue_rexp_iff:
  "rmatch queue_rexp s \<longleftrightarrow> (\<exists>a p. s = a # p \<and> in_cls cls_lower a \<and> list_all (in_cls cls_name) p)"
  unfolding queue_rexp_def rmatch_lang seqs.simps lang_Seq_Cls lang_Star_Cls ..

lemma versioned_name_rexp_iff:
  "rmatch versioned_name_rexp s \<longleftrightarrow>
     (\<exists>a p d ds. s = a # p @ ''.v'' @ d # ds \<and> in_cls cls_lower a \<and> list_all (in_cls cls_name) p
        \<and> in_cls cls_digit19 d \<and> list_all (in_cls cls_digit) ds)"
  unfolding versioned_name_rexp_def rmatch_lang seqs.simps lang_Seq_Cls lang_Seq_Star_Cls
    lang_Seq_lit lang_Star_Cls
  by blast

lemma in_cls_digit_name: "in_cls cls_digit c \<Longrightarrow> in_cls cls_name c"
  by auto

lemma in_cls_lower_name: "in_cls cls_lower c \<Longrightarrow> in_cls cls_name c"
  by auto

lemma in_cls_digit19_name: "in_cls cls_digit19 c \<Longrightarrow> in_cls cls_name c"
  by auto

lemma versioned_name_is_queue: "rmatch versioned_name_rexp s \<Longrightarrow> rmatch queue_rexp s"
proof -
  assume "rmatch versioned_name_rexp s"
  then obtain a p d ds where s: "s = a # p @ ''.v'' @ d # ds" and a: "in_cls cls_lower a"
    and p: "list_all (in_cls cls_name) p" and d: "in_cls cls_digit19 d"
    and ds: "list_all (in_cls cls_digit) ds"
    unfolding versioned_name_rexp_iff by blast
  have "list_all (in_cls cls_name) (p @ ''.v'' @ d # ds)"
    using p in_cls_digit19_name [OF d] list.pred_mono_strong [OF ds in_cls_digit_name]
    by (simp only: list_all_append list.pred_inject) simp
  with s a show ?thesis unfolding queue_rexp_iff by blast
qed

end
