(* ===== verification/Go_Strings.thy ===== *)
theory Go_Strings
  imports Go_Prelude "HOL-Library.Char_ord" "HOL-Library.List_Lexorder" "HOL-Library.Sublist"
begin

text \<open>
  The parts of Go's \<open>strings\<close>, \<open>strconv\<close>, \<open>unicode/utf8\<close>, \<open>encoding/hex\<close> and
  \<open>encoding/base64\<close> that the program calls. A Go string is its sequence of bytes, a
  \<open>char list\<close>; \<open>len\<close> is the number of bytes and comparison is lexicographic on bytes.
\<close>

section \<open>White space: TrimSpace and Fields\<close>

text \<open>
  The UTF-8 encodings of the code points of \<open>unicode.IsSpace\<close>. No encoding is a prefix of
  another, and none starts with a continuation byte, so scanning bytes finds the same spaces
  as decoding code points, also in strings that are not valid UTF-8.
\<close>

definition space_runes :: "string list" where
  "space_runes =
     map (\<lambda>n. [char_of n]) [9, 10, 11, 12, 13, 32 :: nat]
     @ map (map char_of)
         [[0xC2, 0x85], [0xC2, 0xA0], [0xE1, 0x9A, 0x80 :: nat],
          [0xE2, 0x80, 0x80], [0xE2, 0x80, 0x81], [0xE2, 0x80, 0x82], [0xE2, 0x80, 0x83],
          [0xE2, 0x80, 0x84], [0xE2, 0x80, 0x85], [0xE2, 0x80, 0x86], [0xE2, 0x80, 0x87],
          [0xE2, 0x80, 0x88], [0xE2, 0x80, 0x89], [0xE2, 0x80, 0x8A], [0xE2, 0x80, 0xA8],
          [0xE2, 0x80, 0xA9], [0xE2, 0x80, 0xAF], [0xE2, 0x81, 0x9F], [0xE3, 0x80, 0x80]]"

fun starts_with :: "string \<Rightarrow> string \<Rightarrow> bool" where
  "starts_with [] s \<longleftrightarrow> True"
| "starts_with (p # ps) [] \<longleftrightarrow> False"
| "starts_with (p # ps) (c # s) \<longleftrightarrow> p = c \<and> starts_with ps s"

definition lead_len :: "string list \<Rightarrow> string \<Rightarrow> nat" where
  "lead_len ps s = (case find (\<lambda>p. starts_with p s) ps of None \<Rightarrow> 0 | Some p \<Rightarrow> length p)"

function trim_lead :: "string list \<Rightarrow> string \<Rightarrow> string" where
  "trim_lead ps s =
     (if s = [] \<or> lead_len ps s = 0 then s else trim_lead ps (drop (lead_len ps s) s))"
  by pat_completeness auto
termination
  by (relation "measure (\<lambda>(ps, s). length s)") auto

declare trim_lead.simps [simp del]

definition TrimSpace :: "string \<Rightarrow> string" where
  "TrimSpace s = rev (trim_lead (map rev space_runes) (rev (trim_lead space_runes s)))"

function fields_from :: "string \<Rightarrow> string \<Rightarrow> string list" where
  "fields_from w [] = (if w = [] then [] else [rev w])"
| "fields_from w (c # s) =
     (let n = lead_len space_runes (c # s) in
      if n = 0 then fields_from (c # w) s
      else (if w = [] then [] else [rev w]) @ fields_from [] (drop (n - 1) s))"
  by pat_completeness auto
termination
  by (relation "measure (\<lambda>(w, s). length s)") auto

definition Fields :: "string \<Rightarrow> string list" where
  "Fields s = fields_from [] s"

lemma starts_with_prefix: "starts_with p s \<longleftrightarrow> prefix p s"
  by (induction p s rule: starts_with.induct) auto

lemma trim_lead_suffix: "suffix (trim_lead ps s) s"
proof (induction ps s rule: trim_lead.induct)
  case (1 ps s)
  show ?case
  proof (cases "s = [] \<or> lead_len ps s = 0")
    case True
    then show ?thesis by (subst trim_lead.simps) simp
  next
    case False
    then have "suffix (trim_lead ps (drop (lead_len ps s) s)) s"
      by (rule suffix_order.trans [OF "1.IH" suffix_drop])
    with False show ?thesis by (subst trim_lead.simps) simp
  qed
qed

text \<open>On ASCII strings the white space is one byte.\<close>

definition ascii_spaces :: string where
  "ascii_spaces = map char_of [9, 10, 11, 12, 13, 32 :: nat]"

lemma space_runes_split:
  obtains wide where "space_runes = map (\<lambda>c. [c]) ascii_spaces @ wide"
    "list_all (\<lambda>p. p \<noteq> [] \<and> 128 \<le> (of_char (hd p) :: nat) \<and> 128 \<le> (of_char (last p) :: nat)) wide"
  by (rule that) (simp only: space_runes_def ascii_spaces_def map_map o_def, simp)

lemma find_single: "c \<in> set cs \<Longrightarrow> find (\<lambda>p. starts_with p (c # s)) (map (\<lambda>c. [c]) cs @ ps) = Some [c]"
  by (induction cs) auto

lemma lead_len_none:
  assumes "\<And>p. p \<in> set ps \<Longrightarrow> p \<noteq> [] \<and> hd p \<noteq> c"
  shows "lead_len ps (c # s) = 0"
proof -
  have "\<not> starts_with p (c # s)" if "p \<in> set ps" for p
    using assms [OF that] by (cases p) auto
  then have "find (\<lambda>p. starts_with p (c # s)) ps = None" by (auto simp: find_None_iff)
  then show ?thesis by (simp add: lead_len_def)
qed

lemma lead_len_ascii:
  assumes "(of_char c :: nat) < 128"
  shows "lead_len space_runes (c # s) = (if c \<in> set ascii_spaces then 1 else 0)"
    and "lead_len (map rev space_runes) (c # s) = (if c \<in> set ascii_spaces then 1 else 0)"
proof -
  obtain wide where runes: "space_runes = map (\<lambda>c. [c]) ascii_spaces @ wide"
    and wide: "list_all (\<lambda>p. p \<noteq> [] \<and> 128 \<le> (of_char (hd p) :: nat) \<and> 128 \<le> (of_char (last p) :: nat)) wide"
    by (rule space_runes_split)
  have rev_runes: "map rev space_runes = map (\<lambda>c. [c]) ascii_spaces @ map rev wide" by (simp add: runes)
  have ends: "p \<noteq> [] \<and> hd p \<noteq> c \<and> last p \<noteq> c" if "p \<in> set space_runes" "c \<notin> set ascii_spaces" for p
    using that wide assms by (auto simp: runes list_all_iff)
  show "lead_len space_runes (c # s) = (if c \<in> set ascii_spaces then 1 else 0)"
    using ends lead_len_none [of space_runes c s] by (auto simp: lead_len_def runes find_single)
  show "lead_len (map rev space_runes) (c # s) = (if c \<in> set ascii_spaces then 1 else 0)"
  proof (cases "c \<in> set ascii_spaces")
    case True
    then show ?thesis by (simp add: lead_len_def rev_runes find_single del: map_append)
  next
    case False
    have "lead_len (map rev space_runes) (c # s) = 0"
    proof (rule lead_len_none)
      fix p assume "p \<in> set (map rev space_runes)"
      then obtain q where "p = rev q" "q \<in> set space_runes" by auto
      then show "p \<noteq> [] \<and> hd p \<noteq> c" using ends [of q] False by (simp add: hd_rev)
    qed
    with False show ?thesis by simp
  qed
qed

lemma ascii_spaces_chars: "ascii_spaces = [CHR 0x09, CHR 0x0A, CHR 0x0B, CHR 0x0C, CHR 0x0D, CHR 0x20]"
  by code_simp

lemma length_TrimSpace: "length (TrimSpace s) \<le> length s"
  using suffix_length_le [OF trim_lead_suffix, of "map rev space_runes" "rev (trim_lead space_runes s)"]
    suffix_length_le [OF trim_lead_suffix, of space_runes s]
  by (simp add: TrimSpace_def)

lemma trim_lead_id: "lead_len ps s = 0 \<Longrightarrow> trim_lead ps s = s"
  by (subst trim_lead.simps) simp

section \<open>Numbers\<close>

fun decimal :: "nat \<Rightarrow> string" where
  "decimal n = (if n < 10 then [char_of (48 + n)] else decimal (n div 10) @ [char_of (48 + n mod 10)])"

declare decimal.simps [simp del]

definition Itoa :: "int \<Rightarrow> string" where
  "Itoa i = (if i < 0 then CHR ''-'' # decimal (nat (- i)) else decimal (nat i))"

definition is_digit :: "char \<Rightarrow> bool" where
  "is_digit c \<longleftrightarrow> 48 \<le> (of_char c :: nat) \<and> of_char c \<le> (57 :: nat)"

definition digits_val :: "string \<Rightarrow> nat option" where
  "digits_val s =
     (if s \<noteq> [] \<and> list_all is_digit s then Some (foldl (\<lambda>n c. 10 * n + (of_char c - 48)) 0 s)
      else None)"

text \<open>\<open>strconv.Atoi\<close>: an optional sign, then decimal digits, within 64 bits.\<close>

definition Atoi :: "string \<Rightarrow> int option" where
  "Atoi s =
     (let neg = (case s of [] \<Rightarrow> False | c # _ \<Rightarrow> c = CHR ''-'');
          body = (case s of [] \<Rightarrow> [] | c # r \<Rightarrow> if c = CHR ''-'' \<or> c = CHR ''+'' then r else s)
      in case digits_val body of
           None \<Rightarrow> None
         | Some n \<Rightarrow>
             let v = (if neg then - int n else int n) in if in_int64 v then Some v else None)"

lemma of_char_digit: "d < 10 \<Longrightarrow> (of_char (char_of (48 + d) :: char) :: nat) = 48 + d"
  by simp

lemma decimal_digits: "list_all is_digit (decimal n)"
proof (induction n rule: decimal.induct)
  case (1 n)
  have "is_digit (char_of (48 + d))" if "d < 10" for d :: nat
    using that by (simp add: is_digit_def)
  with "1" show ?case by (subst decimal.simps) auto
qed

lemma decimal_nonempty: "decimal n \<noteq> []"
  by (subst decimal.simps) simp

lemma decimal_val: "foldl (\<lambda>n c. 10 * n + (of_char c - 48)) 0 (decimal n) = n"
proof (induction n rule: decimal.induct)
  case (1 n)
  show ?case
  proof (cases "n < 10")
    case True
    then show ?thesis by (subst decimal.simps) (simp add: of_char_digit)
  next
    case False
    have "foldl (\<lambda>n c. 10 * n + (of_char c - 48)) 0 (decimal n) =
        10 * foldl (\<lambda>n c. 10 * n + (of_char c - 48)) 0 (decimal (n div 10)) + n mod 10"
      using False by (subst decimal.simps) (simp add: of_char_digit)
    with "1.IH" [OF False] show ?thesis by simp
  qed
qed

lemma digits_val_decimal: "digits_val (decimal n) = Some n"
  by (simp add: digits_val_def decimal_digits decimal_nonempty decimal_val)

lemma decimal_hd_digit: "\<exists>c r. decimal n = c # r \<and> is_digit c"
  using decimal_digits [of n] decimal_nonempty [of n] by (cases "decimal n") auto

lemma Atoi_Itoa:
  assumes "in_int64 i"
  shows "Atoi (Itoa i) = Some i"
proof (cases "i < 0")
  case True
  with assms show ?thesis by (simp add: Itoa_def Atoi_def digits_val_decimal Let_def)
next
  case False
  obtain c r where d: "decimal (nat i) = c # r" and "is_digit c" using decimal_hd_digit by blast
  then have "c \<noteq> CHR ''-''" "c \<noteq> CHR ''+''" by (auto simp: is_digit_def)
  with d False assms digits_val_decimal [of "nat i"] show ?thesis
    by (simp add: Itoa_def Atoi_def Let_def)
qed

lemma Itoa_inject: "in_int64 i \<Longrightarrow> in_int64 j \<Longrightarrow> Itoa i = Itoa j \<longleftrightarrow> i = j"
  using Atoi_Itoa by (metis option.inject)

section \<open>Split and Join\<close>

fun split_on :: "char \<Rightarrow> string \<Rightarrow> string list" where
  "split_on c [] = [[]]"
| "split_on c (x # xs) =
     (if x = c then [] # split_on c xs
      else (case split_on c xs of [] \<Rightarrow> [[x]] | w # ws \<Rightarrow> (x # w) # ws))"

fun join_with :: "string \<Rightarrow> string list \<Rightarrow> string" where
  "join_with sep [] = []"
| "join_with sep [w] = w"
| "join_with sep (w # ws) = w @ sep @ join_with sep ws"

lemma split_on_nonempty: "split_on c s \<noteq> []"
  by (cases s) (auto split: list.splits)

lemma join_split: "join_with [c] (split_on c s) = s"
proof (induction s)
  case (Cons x s)
  obtain w ws where "split_on c s = w # ws" using split_on_nonempty by (meson neq_Nil_conv)
  with Cons show ?case by (cases ws) auto
qed simp

lemma split_on_no_sep: "w \<in> set (split_on c s) \<Longrightarrow> c \<notin> set w"
proof (induction s arbitrary: w)
  case (Cons x s)
  then show ?case by (cases "split_on c s") (auto split: if_splits)
qed simp

lemma split_on_append: "c \<notin> set w \<Longrightarrow> split_on c (w @ c # s) = w # split_on c s"
  by (induction w) auto

lemma split_on_plain: "c \<notin> set w \<Longrightarrow> split_on c w = [w]"
  by (induction w) auto

lemma split_join: "ws \<noteq> [] \<Longrightarrow> \<forall>w \<in> set ws. c \<notin> set w \<Longrightarrow> split_on c (join_with [c] ws) = ws"
  by (induction "[c]" ws rule: join_with.induct) (auto simp: split_on_plain split_on_append)

section \<open>UTF-8\<close>

text \<open>
  The length of the well-formed UTF-8 sequence at the start of a byte string, as
  \<open>utf8.DecodeRune\<close> accepts it (no surrogates, no over-long forms, nothing above
  U+10FFFF), \<open>None\<close> where decoding reports an encoding error.
\<close>

definition cont_byte :: "char \<Rightarrow> bool" where
  "cont_byte c \<longleftrightarrow> 0x80 \<le> (of_char c :: nat) \<and> of_char c \<le> (0xBF :: nat)"

fun rune_len :: "string \<Rightarrow> nat option" where
  "rune_len [] = None"
| "rune_len (a # s) =
     (let n = (of_char a :: nat);
          b = (case s of x # _ \<Rightarrow> of_char x | [] \<Rightarrow> (0 :: nat));
          c2 = (case s of _ # y # _ \<Rightarrow> cont_byte y | _ \<Rightarrow> False);
          c3 = (case s of _ # _ # z # _ \<Rightarrow> cont_byte z | _ \<Rightarrow> False)
      in if n < 0x80 then Some 1
         else if 0xC2 \<le> n \<and> n \<le> 0xDF then (if 0x80 \<le> b \<and> b \<le> 0xBF then Some 2 else None)
         else if n = 0xE0 then (if 0xA0 \<le> b \<and> b \<le> 0xBF \<and> c2 then Some 3 else None)
         else if n = 0xED then (if 0x80 \<le> b \<and> b \<le> 0x9F \<and> c2 then Some 3 else None)
         else if 0xE1 \<le> n \<and> n \<le> 0xEF then (if 0x80 \<le> b \<and> b \<le> 0xBF \<and> c2 then Some 3 else None)
         else if n = 0xF0 then (if 0x90 \<le> b \<and> b \<le> 0xBF \<and> c2 \<and> c3 then Some 4 else None)
         else if 0xF1 \<le> n \<and> n \<le> 0xF3 then (if 0x80 \<le> b \<and> b \<le> 0xBF \<and> c2 \<and> c3 then Some 4 else None)
         else if n = 0xF4 then (if 0x80 \<le> b \<and> b \<le> 0x8F \<and> c2 \<and> c3 then Some 4 else None)
         else None)"

lemma list4_cases [case_names nil one two three four]:
  obtains "s = []" | a where "s = [a]" | a b where "s = [a, b]" | a b c where "s = [a, b, c]"
  | a b c d r where "s = a # b # c # d # r"
proof (cases s)
  case (Cons a s1)
  then show ?thesis using that
  proof (cases s1)
    case (Cons b s2)
    with \<open>s = a # s1\<close> show ?thesis using that
    proof (cases s2)
      case (Cons c s3)
      with \<open>s = a # s1\<close> \<open>s1 = b # s2\<close> show ?thesis using that by (cases s3) auto
    qed auto
  qed auto
qed auto

lemma rune_len_bounds: "rune_len s = Some n \<Longrightarrow> 1 \<le> n \<and> n \<le> 4 \<and> n \<le> length s"
  by (cases s rule: list4_cases) (simp_all add: Let_def split: if_splits)

function ValidString :: "string \<Rightarrow> bool" where
  "ValidString s =
     (if s = [] then True
      else case rune_len s of None \<Rightarrow> False | Some n \<Rightarrow> ValidString (drop n s))"
  by pat_completeness auto
termination
  by (relation "measure length") (auto dest: rune_len_bounds)

declare ValidString.simps [simp del]

lemma ValidString_Nil [simp]: "ValidString []"
  by (subst ValidString.simps) simp

lemma ValidString_step:
  "s \<noteq> [] \<Longrightarrow> ValidString s \<longleftrightarrow> (\<exists>n. rune_len s = Some n \<and> ValidString (drop n s))"
  by (subst ValidString.simps) (simp split: option.splits)

lemma rune_len_take:
  assumes "rune_len s = Some n"
  shows "rune_len (take n s) = Some n" and "rune_len (take n s @ t) = Some n"
proof -
  have "rune_len (take n s @ t) = Some n" for t
    using assms
    by (cases s rule: list4_cases) (auto simp: Let_def split: if_splits)
  from this [of "[]"] this [of t]
  show "rune_len (take n s) = Some n" "rune_len (take n s @ t) = Some n" by simp_all
qed

lemma ValidString_append: "ValidString u \<Longrightarrow> ValidString v \<Longrightarrow> ValidString (u @ v)"
proof (induction u rule: ValidString.induct)
  case (1 u)
  show ?case
  proof (cases "u = []")
    case True
    with "1.prems" show ?thesis by simp
  next
    case False
    with "1.prems" obtain n where n: "rune_len u = Some n" "ValidString (drop n u)"
      by (auto simp: ValidString_step)
    have "n \<le> length u" using n rune_len_bounds by blast
    then have "rune_len (u @ v) = Some n" "drop n (u @ v) = drop n u @ v"
      using rune_len_take(2) [OF n(1), of "drop n u @ v"] by (simp_all flip: append_assoc)
    with "1.IH" [OF False n(1) n(2) "1.prems"(2)] False show ?thesis
      by (simp add: ValidString_step)
  qed
qed

lemma ValidString_rune: "rune_len s = Some n \<Longrightarrow> ValidString (take n s)"
  using rune_len_take(1) [of s n] by (subst ValidString.simps) simp

text \<open>A valid string has a rune boundary within the last three bytes before every position.\<close>

lemma ValidString_boundary:
  "ValidString s \<Longrightarrow> k \<le> length s \<Longrightarrow> \<exists>j \<le> k. k < j + 4 \<and> ValidString (take j s)"
proof (induction s arbitrary: k rule: ValidString.induct)
  case (1 s)
  show ?case
  proof (cases "s = []")
    case True
    with "1.prems" show ?thesis by auto
  next
    case False
    with "1.prems" obtain n where n: "rune_len s = Some n" "ValidString (drop n s)"
      by (auto simp: ValidString_step)
    have b: "1 \<le> n" "n \<le> 4" "n \<le> length s" using rune_len_bounds [OF n(1)] by auto
    show ?thesis
    proof (cases "k < n")
      case True
      with b show ?thesis by (intro exI [of _ 0]) auto
    next
      case False
      with "1.prems" have "k - n \<le> length (drop n s)" by simp
      from "1.IH" [OF \<open>s \<noteq> []\<close> n(1) n(2) this]
      obtain j where j: "j \<le> k - n" "k - n < j + 4" "ValidString (take j (drop n s))" by blast
      have "take (n + j) s = take n s @ take j (drop n s)" by (simp add: take_add)
      with j(3) ValidString_rune [OF n(1)] have "ValidString (take (n + j) s)"
        by (simp add: ValidString_append)
      with j False show ?thesis by (intro exI [of _ "n + j"]) auto
    qed
  qed
qed

section \<open>Hexadecimal\<close>

definition hex_digit :: "nat \<Rightarrow> char" where
  "hex_digit n = (if n < 10 then char_of (48 + n) else char_of (87 + n))"

fun hex_encode :: "bytes \<Rightarrow> string" where
  "hex_encode [] = []"
| "hex_encode (b # bs) =
     hex_digit (of_char b div 16) # hex_digit (of_char b mod 16) # hex_encode bs"

definition is_hex :: "char \<Rightarrow> bool" where
  "is_hex c \<longleftrightarrow> (let n = (of_char c :: nat) in
     (48 \<le> n \<and> n \<le> 57) \<or> (97 \<le> n \<and> n \<le> 102) \<or> (65 \<le> n \<and> n \<le> 70))"

definition hex_ok :: "string \<Rightarrow> bool" where
  "hex_ok s \<longleftrightarrow> even (length s) \<and> list_all is_hex s"

lemma is_hex_hex_digit: "n < 16 \<Longrightarrow> is_hex (hex_digit n)"
  by (auto simp: is_hex_def hex_digit_def Let_def)

lemma length_hex_encode: "length (hex_encode b) = 2 * length b"
  by (induction b) auto

lemma of_char_nat_less: "(of_char c :: nat) < 256"
  by (rule nat_of_char_less_256)

lemma hex_encode_ok: "hex_ok (hex_encode b)"
proof -
  have "list_all is_hex (hex_encode b)"
  proof (induction b)
    case (Cons c b)
    have "(of_char c :: nat) div 16 < 16" using of_char_nat_less [of c] by linarith
    with Cons show ?case by (simp add: is_hex_hex_digit)
  qed simp
  then show ?thesis by (simp add: hex_ok_def length_hex_encode)
qed

lemma hex_digit_not_dot: "n < 16 \<Longrightarrow> hex_digit n \<noteq> CHR ''.''"
  using is_hex_hex_digit [of n] by (auto simp: is_hex_def Let_def)

lemma hex_digit_inject: "m < 16 \<Longrightarrow> n < 16 \<Longrightarrow> hex_digit m = hex_digit n \<longleftrightarrow> m = n"
proof
  assume "m < 16" "n < 16" "hex_digit m = hex_digit n"
  then have "(of_char (hex_digit m) :: nat) = of_char (hex_digit n)" by simp
  with \<open>m < 16\<close> \<open>n < 16\<close> show "m = n" by (auto simp: hex_digit_def split: if_splits)
qed simp

lemma hex_encode_inject: "hex_encode a = hex_encode b \<longleftrightarrow> a = b"
proof
  show "hex_encode a = hex_encode b \<Longrightarrow> a = b"
  proof (induction a arbitrary: b)
    case Nil
    then show ?case by (cases b) auto
  next
    case (Cons x a)
    then obtain y b' where b: "b = y # b'" by (cases b) auto
    have lt: "(of_char x :: nat) div 16 < 16" "(of_char y :: nat) div 16 < 16"
      using of_char_nat_less [of x] of_char_nat_less [of y] by linarith+
    from Cons.prems b have "(of_char x :: nat) div 16 = of_char y div 16"
      and "(of_char x :: nat) mod 16 = of_char y mod 16" and "hex_encode a = hex_encode b'"
      using lt by (auto simp: hex_digit_inject)
    then have "(of_char x :: nat) = of_char y" by (metis div_mult_mod_eq)
    with Cons.IH [OF \<open>hex_encode a = hex_encode b'\<close>] b show ?case
      by (simp add: of_char_eq_iff)
  qed
qed simp

section \<open>Unpadded URL-safe base64\<close>

text \<open>
  \<open>base64.RawURLEncoding\<close>. Decoding skips carriage returns and line feeds, refuses every
  other character outside the alphabet and a remainder of one character, and ignores the unused
  low bits of the last character, as Go's non-strict decoder does.
\<close>

definition b64_char :: "nat \<Rightarrow> char" where
  "b64_char n =
     (if n < 26 then char_of (65 + n) else if n < 52 then char_of (71 + n)
      else if n < 62 then char_of (n - 4) else if n = 62 then CHR ''-'' else CHR ''_'')"

definition b64_val :: "char \<Rightarrow> nat option" where
  "b64_val c =
     (let n = (of_char c :: nat) in
      if 65 \<le> n \<and> n \<le> 90 then Some (n - 65) else if 97 \<le> n \<and> n \<le> 122 then Some (n - 71)
      else if 48 \<le> n \<and> n \<le> 57 then Some (n + 4) else if n = 45 then Some 62
      else if n = 95 then Some 63 else None)"

fun b64_enc :: "nat list \<Rightarrow> nat list" where
  "b64_enc [] = []"
| "b64_enc [a] = [a div 4, a mod 4 * 16]"
| "b64_enc [a, b] = [a div 4, a mod 4 * 16 + b div 16, b mod 16 * 4]"
| "b64_enc (a # b # c # r) =
     a div 4 # (a mod 4 * 16 + b div 16) # (b mod 16 * 4 + c div 64) # c mod 64 # b64_enc r"

fun b64_dec :: "nat list \<Rightarrow> nat list option" where
  "b64_dec [] = Some []"
| "b64_dec [w] = None"
| "b64_dec [w, x] = Some [w * 4 + x div 16]"
| "b64_dec [w, x, y] = Some [w * 4 + x div 16, x mod 16 * 16 + y div 4]"
| "b64_dec (w # x # y # z # r) =
     map_option (\<lambda>t. (w * 4 + x div 16) # (x mod 16 * 16 + y div 4) # (y mod 4 * 64 + z) # t) (b64_dec r)"

definition base64_encode :: "bytes \<Rightarrow> string" where
  "base64_encode b = map b64_char (b64_enc (map of_char b))"

definition base64_decode :: "string \<Rightarrow> bytes option" where
  "base64_decode s =
     (let t = filter (\<lambda>c. c \<noteq> CHR 0x0A \<and> c \<noteq> CHR 0x0D) s; vs = map b64_val t
      in if list_all (\<lambda>v. v \<noteq> None) vs then map_option (map char_of) (b64_dec (map the vs)) else None)"

lemma b64_val_char:
  assumes "n < 64"
  shows "b64_val (b64_char n) = Some n"
proof -
  consider "n < 26" | "26 \<le> n \<and> n < 52" | "52 \<le> n \<and> n < 62" | "n = 62" | "n = 63"
    using assms by linarith
  then show ?thesis
  proof cases
    case 3
    then have "(n - 4) mod 256 = n - 4" by (intro mod_less) linarith
    moreover obtain m where "n = m + 52" "m < 10" using 3 by (intro that [of "n - 52"]) auto
    ultimately show ?thesis by (simp add: b64_val_def b64_char_def Let_def)
  qed (simp_all add: b64_val_def b64_char_def Let_def)
qed

lemma b64_char_no_newline: "n < 64 \<Longrightarrow> b64_char n \<noteq> CHR 0x0A \<and> b64_char n \<noteq> CHR 0x0D"
  using b64_val_char [of n] by (auto simp: b64_val_def)

lemma b64_enc_range: "\<forall>x \<in> set bs. x < 256 \<Longrightarrow> \<forall>x \<in> set (b64_enc bs). x < 64"
  by (induction bs rule: b64_enc.induct) auto

lemma b64_group:
  fixes a b c :: nat
  assumes "b < 256" and "c < 256"
  shows "a div 4 * 4 + (a mod 4 * 16 + b div 16) div 16 = a"
    and "(a mod 4 * 16 + b div 16) mod 16 * 16 + (b mod 16 * 4 + c div 64) div 4 = b"
    and "(b mod 16 * 4 + c div 64) mod 4 * 64 + c mod 64 = c"
proof -
  have lt: "b div 16 < 16" "c div 64 < 4" using assms by linarith+
  have "(a mod 4 * 16 + b div 16) div 16 = a mod 4" "(a mod 4 * 16 + b div 16) mod 16 = b div 16"
    "(b mod 16 * 4 + c div 64) div 4 = b mod 16" "(b mod 16 * 4 + c div 64) mod 4 = c div 64"
    using lt by simp_all
  then show "a div 4 * 4 + (a mod 4 * 16 + b div 16) div 16 = a"
    and "(a mod 4 * 16 + b div 16) mod 16 * 16 + (b mod 16 * 4 + c div 64) div 4 = b"
    and "(b mod 16 * 4 + c div 64) mod 4 * 64 + c mod 64 = c" by simp_all
qed

lemma b64_dec_enc: "\<forall>x \<in> set bs. x < 256 \<Longrightarrow> b64_dec (b64_enc bs) = Some bs"
proof (induction bs rule: b64_enc.induct)
  case (3 a b)
  then have "b < 256" "0 < (256 :: nat)" by simp_all
  from b64_group(1,2) [OF this, of a] show ?case by (simp only: b64_enc.simps b64_dec.simps) simp
next
  case (4 a b c r)
  then have "b < 256" "c < 256" by simp_all
  from b64_group(1,2) [OF this, of a] b64_group(3) [OF this] 4 show ?case
    by (simp only: b64_enc.simps b64_dec.simps) simp
qed simp_all

lemma base64_roundtrip: "base64_decode (base64_encode b) = Some b"
proof -
  let ?e = "b64_enc (map of_char b) :: nat list"
  have lt: "\<forall>x \<in> set ?e. x < 64" by (intro b64_enc_range) auto
  have "filter (\<lambda>c. c \<noteq> CHR 0x0A \<and> c \<noteq> CHR 0x0D) (map b64_char ?e) = map b64_char ?e"
    using lt b64_char_no_newline by (intro filter_True) auto
  moreover have "map b64_val (map b64_char ?e) = map Some ?e"
    using lt by (simp add: b64_val_char)
  moreover have "b64_dec ?e = Some (map of_char b)" by (intro b64_dec_enc) auto
  ultimately show ?thesis
    by (simp only: base64_decode_def base64_encode_def Let_def) (simp add: list_all_iff comp_def)
qed

section \<open>Cut\<close>

text \<open>\<open>strings.Cut\<close> at a one-byte separator: the parts around its first occurrence.\<close>

fun cut :: "char \<Rightarrow> string \<Rightarrow> (string \<times> string) option" where
  "cut c [] = None"
| "cut c (x # xs) =
     (if x = c then Some ([], xs) else map_option (\<lambda>(a, b). (x # a, b)) (cut c xs))"

lemma cut_Some: "cut c s = Some (a, b) \<longleftrightarrow> s = a @ c # b \<and> c \<notin> set a"
proof (induction s arbitrary: a)
  case (Cons x s)
  show ?case
  proof (cases "x = c")
    case True
    then show ?thesis by (cases a) auto
  next
    case False
    with Cons.IH show ?thesis by (cases a) auto
  qed
qed simp

section \<open>Durations as text\<close>

text \<open>The fraction of \<open>v / 10 ^ prec\<close> without trailing zeros, and its integral part.\<close>

definition fmtFrac :: "int \<Rightarrow> nat \<Rightarrow> string \<times> int" where
  "fmtFrac v prec =
     (let digits = tl (Itoa (10 ^ prec + v mod 10 ^ prec));
          kept = rev (dropWhile (\<lambda>c. c = CHR ''0'') (rev digits))
      in (if kept = [] then [] else CHR ''.'' # kept, v div 10 ^ prec))"

definition Duration_String :: "duration \<Rightarrow> string" where
  "Duration_String d =
     (let u = \<bar>d\<bar>; sign = (if d < 0 then ''-'' else []) in
      if u = 0 then ''0s''
      else if u < 1000 then sign @ Itoa u @ ''ns''
      else if u < 1000000
      then (case fmtFrac u 3 of (frac, v) \<Rightarrow> sign @ Itoa v @ frac @ [char_of (0xC2 :: nat), char_of (0xB5 :: nat)] @ ''s'')
      else if u < 1000000000 then (case fmtFrac u 6 of (frac, v) \<Rightarrow> sign @ Itoa v @ frac @ ''ms'')
      else case fmtFrac u 9 of
        (frac, secs) \<Rightarrow>
          let seconds = Itoa (secs mod 60) @ frac @ ''s''; minutes = secs div 60 in
          if minutes = 0 then sign @ seconds
          else let rest = Itoa (minutes mod 60) @ ''m'' @ seconds; hours = minutes div 60 in
          if hours = 0 then sign @ rest else sign @ Itoa hours @ ''h'' @ rest)"

end
