(* ===== verification/Go_Json.thy ===== *)
theory Go_Json
  imports Go_Strings
begin

text \<open>
  The part of Go's \<open>encoding/json\<close> the job stores use: \<open>json.Valid\<close>, as the byte-at-a-time scanner
  with its stack of open containers that the standard library runs (nesting is limited to 10000),
  and \<open>json.Unmarshal\<close> into a slice of 64-bit integers.
\<close>

datatype jframe = ObjectKey | ObjectValue | ArrayValue

datatype jstate =
    BeginValue | BeginValueOrEmpty | BeginStringOrEmpty | BeginString | EndValue | EndTop
  | InString | InStringEsc | InStringEscU nat | Neg | Num0 | Num1 | Dot | Dot0 | Exp | ExpSign | Exp0
  | Lit string

definition json_space :: "char \<Rightarrow> bool" where
  "json_space c \<longleftrightarrow> (of_char c :: nat) \<in> {32, 9, 10, 13}"

definition json_max_depth :: nat where
  "json_max_depth = 10000"

definition json_push :: "jframe \<Rightarrow> jstate \<Rightarrow> jframe list \<Rightarrow> (jstate \<times> jframe list) option" where
  "json_push f st stk = (if Suc (length stk) \<le> json_max_depth then Some (st, f # stk) else None)"

definition json_pop :: "jframe list \<Rightarrow> (jstate \<times> jframe list) option" where
  "json_pop stk = Some (if tl stk = [] then EndTop else EndValue, tl stk)"

definition json_end_value :: "jframe list \<Rightarrow> char \<Rightarrow> (jstate \<times> jframe list) option" where
  "json_end_value stk c =
     (case stk of
        [] \<Rightarrow> if json_space c then Some (EndTop, []) else None
      | f # rest \<Rightarrow>
          if json_space c then Some (EndValue, stk)
          else (case f of
                  ObjectKey \<Rightarrow> if c = CHR '':'' then Some (BeginValue, ObjectValue # rest) else None
                | ObjectValue \<Rightarrow> if c = CHR '','' then Some (BeginString, ObjectKey # rest)
                                 else if c = CHR ''}'' then json_pop stk else None
                | ArrayValue \<Rightarrow> if c = CHR '','' then Some (BeginValue, stk)
                                else if c = CHR '']'' then json_pop stk else None))"

definition json_begin_value :: "jframe list \<Rightarrow> char \<Rightarrow> (jstate \<times> jframe list) option" where
  "json_begin_value stk c =
     (if json_space c then Some (BeginValue, stk)
      else if c = CHR ''{'' then json_push ObjectKey BeginStringOrEmpty stk
      else if c = CHR ''['' then json_push ArrayValue BeginValueOrEmpty stk
      else if c = CHR 0x22 then Some (InString, stk)
      else if c = CHR ''-'' then Some (Neg, stk)
      else if c = CHR ''0'' then Some (Num0, stk)
      else if c = CHR ''t'' then Some (Lit ''rue'', stk)
      else if c = CHR ''f'' then Some (Lit ''alse'', stk)
      else if c = CHR ''n'' then Some (Lit ''ull'', stk)
      else if is_digit c then Some (Num1, stk) else None)"

definition json_begin_string :: "jframe list \<Rightarrow> char \<Rightarrow> (jstate \<times> jframe list) option" where
  "json_begin_string stk c =
     (if json_space c then Some (BeginString, stk)
      else if c = CHR 0x22 then Some (InString, stk) else None)"

definition json_num0 :: "jframe list \<Rightarrow> char \<Rightarrow> (jstate \<times> jframe list) option" where
  "json_num0 stk c =
     (if c = CHR ''.'' then Some (Dot, stk)
      else if c = CHR ''e'' \<or> c = CHR ''E'' then Some (Exp, stk) else json_end_value stk c)"

fun json_step :: "jstate \<Rightarrow> jframe list \<Rightarrow> char \<Rightarrow> (jstate \<times> jframe list) option" where
  "json_step BeginValue stk c = json_begin_value stk c"
| "json_step BeginValueOrEmpty stk c =
     (if json_space c then Some (BeginValueOrEmpty, stk)
      else if c = CHR '']'' then json_end_value stk c else json_begin_value stk c)"
| "json_step BeginStringOrEmpty stk c =
     (if json_space c then Some (BeginStringOrEmpty, stk)
      else if c = CHR ''}'' then json_end_value (ObjectValue # tl stk) c else json_begin_string stk c)"
| "json_step BeginString stk c = json_begin_string stk c"
| "json_step EndValue stk c = json_end_value stk c"
| "json_step EndTop stk c = (if json_space c then Some (EndTop, stk) else None)"
| "json_step InString stk c =
     (if c = CHR 0x22 then Some (EndValue, stk)
      else if c = CHR 0x5C then Some (InStringEsc, stk)
      else if (of_char c :: nat) < 32 then None else Some (InString, stk))"
| "json_step InStringEsc stk c =
     (if c \<in> set ''bfnrt/'' \<or> c = CHR 0x5C \<or> c = CHR 0x22 then Some (InString, stk)
      else if c = CHR ''u'' then Some (InStringEscU 3, stk) else None)"
| "json_step (InStringEscU n) stk c =
     (if is_hex c then Some (if n = 0 then InString else InStringEscU (n - 1), stk) else None)"
| "json_step Neg stk c =
     (if c = CHR ''0'' then Some (Num0, stk) else if is_digit c then Some (Num1, stk) else None)"
| "json_step Num1 stk c = (if is_digit c then Some (Num1, stk) else json_num0 stk c)"
| "json_step Num0 stk c = json_num0 stk c"
| "json_step Dot stk c = (if is_digit c then Some (Dot0, stk) else None)"
| "json_step Dot0 stk c =
     (if is_digit c then Some (Dot0, stk)
      else if c = CHR ''e'' \<or> c = CHR ''E'' then Some (Exp, stk) else json_end_value stk c)"
| "json_step Exp stk c =
     (if c = CHR ''+'' \<or> c = CHR ''-'' then Some (ExpSign, stk)
      else if is_digit c then Some (Exp0, stk) else None)"
| "json_step ExpSign stk c = (if is_digit c then Some (Exp0, stk) else None)"
| "json_step Exp0 stk c = (if is_digit c then Some (Exp0, stk) else json_end_value stk c)"
| "json_step (Lit w) stk c =
     (case w of
        x # r \<Rightarrow> if c = x then Some (if r = [] then EndValue else Lit r, stk) else None
      | [] \<Rightarrow> None)"

fun json_scan :: "jstate \<Rightarrow> jframe list \<Rightarrow> bytes \<Rightarrow> (jstate \<times> jframe list) option" where
  "json_scan st stk [] = Some (st, stk)"
| "json_scan st stk (c # s) =
     (case json_step st stk c of None \<Rightarrow> None | Some (st', stk') \<Rightarrow> json_scan st' stk' s)"

text \<open>At the end of the input the scanner is fed one space and must be past the top-level value.\<close>

definition json_valid :: "bytes \<Rightarrow> bool" where
  "json_valid s \<longleftrightarrow>
     (case json_scan BeginValue [] (s @ '' '') of Some (EndTop, stk) \<Rightarrow> True | _ \<Rightarrow> False)"

fun json_int64 :: "string \<Rightarrow> int option" where
  "json_int64 w = (if w = ''null'' then Some 0 else Atoi w)"

fun all_some :: "'a option list \<Rightarrow> 'a list option" where
  "all_some [] = Some []"
| "all_some (None # xs) = None"
| "all_some (Some x # xs) = map_option (Cons x) (all_some xs)"

text \<open>\<open>Unmarshal\<close> first checks the syntax. In a valid document that decodes into a slice of integers
  white space only separates tokens, and the elements are the parts between the commas; an element
  that contains anything else than an integer or \<open>null\<close> is a type error.\<close>

definition unmarshal_int64s :: "string \<Rightarrow> int list result" where
  "unmarshal_int64s s =
     (if \<not> json_valid s then Inl (Sentinel ''json.SyntaxError'')
      else let t = filter (\<lambda>c. \<not> json_space c) s in
      if t = ''null'' \<or> t = ''[]'' then Inr []
      else if hd t \<noteq> CHR ''['' then Inl (Sentinel ''json.UnmarshalTypeError'')
      else (case all_some (map json_int64 (split_on CHR '','' (butlast (tl t)))) of
              None \<Rightarrow> Inl (Sentinel ''json.UnmarshalTypeError'')
            | Some vs \<Rightarrow> Inr vs))"

text \<open>The text PostgreSQL's \<open>array_to_json\<close> gives for a one-dimensional array of integers.\<close>

definition int_array_text :: "int list \<Rightarrow> string" where
  "int_array_text vs = ''['' @ join_with '','' (map Itoa vs) @ '']''"

section \<open>Integer arrays are decoded back\<close>

lemma json_scan_append:
  "json_scan st stk (s @ t) =
     (case json_scan st stk s of None \<Rightarrow> None | Some (st', stk') \<Rightarrow> json_scan st' stk' t)"
  by (induction st stk s rule: json_scan.induct) (auto split: option.splits prod.splits)

lemma digit_not_special:
  "is_digit c \<Longrightarrow> \<not> json_space c \<and> c \<noteq> CHR '','' \<and> c \<noteq> CHR ''['' \<and> c \<noteq> CHR '']'' \<and> c \<noteq> CHR ''-''
     \<and> c \<noteq> CHR ''n'' \<and> c \<noteq> CHR ''{'' \<and> c \<noteq> CHR 0x22 \<and> c \<noteq> CHR ''t'' \<and> c \<noteq> CHR ''f''"
  by (auto simp: is_digit_def json_space_def)

lemma scan_digits: "list_all is_digit ds \<Longrightarrow> json_scan Num1 stk ds = Some (Num1, stk)"
  by (induction ds) auto

lemma decimal_lead: "n \<noteq> 0 \<Longrightarrow> hd (decimal n) \<noteq> CHR ''0''"
proof (induction n rule: decimal.induct)
  case (1 n)
  show ?case
  proof (cases "n < 10")
    case True
    then have "(of_char (char_of (48 + n) :: char) :: nat) \<noteq> of_char CHR ''0''"
      using 1(2) by (simp add: of_char_digit)
    then have "char_of (48 + n) \<noteq> CHR ''0''" by metis
    then show ?thesis using True by (subst decimal.simps) simp
  next
    case False
    with 1 show ?thesis by (subst decimal.simps) (simp add: decimal_nonempty hd_append)
  qed
qed

lemma scan_decimal:
  "st \<in> {BeginValue, BeginValueOrEmpty, Neg} \<Longrightarrow>
   \<exists>st'. json_scan st stk (decimal n) = Some (st', stk) \<and> st' \<in> {Num0, Num1}"
proof (cases "n = 0")
  case True
  have "decimal 0 = ''0''" by (subst decimal.simps) (simp, code_simp)
  then show "st \<in> {BeginValue, BeginValueOrEmpty, Neg} \<Longrightarrow> ?thesis"
    using True by (auto simp: json_begin_value_def json_space_def)
next
  case False
  obtain c r where cr: "decimal n = c # r" "is_digit c" using decimal_hd_digit by blast
  have r: "list_all is_digit r" using decimal_digits [of n] cr by simp
  have c: "c \<noteq> CHR ''0''" using decimal_lead [OF False] cr by simp
  have "json_step st stk c = Some (Num1, stk)" if "st \<in> {BeginValue, BeginValueOrEmpty, Neg}"
    using that digit_not_special [OF cr(2)] cr(2) c by (auto simp: json_begin_value_def)
  then show "st \<in> {BeginValue, BeginValueOrEmpty, Neg} \<Longrightarrow> ?thesis"
    using cr scan_digits [OF r] by simp
qed

lemma scan_Itoa:
  assumes "st \<in> {BeginValue, BeginValueOrEmpty}"
  shows "\<exists>st'. json_scan st stk (Itoa i) = Some (st', stk) \<and> st' \<in> {Num0, Num1}"
proof (cases "i < 0")
  case True
  have "json_step st stk CHR ''-'' = Some (Neg, stk)"
    using assms by (auto simp: json_begin_value_def json_space_def)
  with True scan_decimal [of Neg stk "nat (- i)"] show ?thesis by (simp add: Itoa_def)
next
  case False
  with assms scan_decimal [of st stk "nat i"] show ?thesis by (auto simp: Itoa_def)
qed

lemma scan_elements:
  "vs \<noteq> [] \<Longrightarrow> st \<in> {BeginValue, BeginValueOrEmpty} \<Longrightarrow>
   \<exists>st'. json_scan st [ArrayValue] (join_with '','' (map Itoa vs)) = Some (st', [ArrayValue])
     \<and> st' \<in> {Num0, Num1}"
proof (induction vs arbitrary: st)
  case (Cons v vs)
  obtain st1 where st1: "json_scan st [ArrayValue] (Itoa v) = Some (st1, [ArrayValue])" "st1 \<in> {Num0, Num1}"
    using scan_Itoa [OF Cons.prems(2)] by blast
  have comma: "json_step st1 [ArrayValue] CHR '','' = Some (BeginValue, [ArrayValue])"
    using st1(2) by (auto simp: is_digit_def json_num0_def json_end_value_def json_space_def)
  show ?case
  proof (cases vs)
    case Nil
    with st1 show ?thesis by simp
  next
    case (Cons w ws)
    then have "join_with '','' (map Itoa (v # vs)) = Itoa v @ '','' @ join_with '','' (map Itoa vs)" by simp
    with Cons.IH [of BeginValue] Cons st1 comma show ?thesis by (simp add: json_scan_append)
  qed
qed simp

lemma int_array_valid: "json_valid (int_array_text vs)"
proof -
  have open': "json_step BeginValue [] CHR ''['' = Some (BeginValueOrEmpty, [ArrayValue])"
    by (simp add: json_begin_value_def json_space_def json_push_def json_max_depth_def)
  have close: "json_scan st [ArrayValue] ''] '' = Some (EndTop, [])" if "st \<in> {Num0, Num1, BeginValueOrEmpty}" for st
    using that by (auto simp: is_digit_def json_num0_def json_end_value_def json_space_def json_pop_def)
  show ?thesis
  proof (cases "vs = []")
    case True
    with open' close [of BeginValueOrEmpty] show ?thesis by (simp add: json_valid_def int_array_text_def)
  next
    case False
    obtain st where st: "json_scan BeginValueOrEmpty [ArrayValue] (join_with '','' (map Itoa vs))
        = Some (st, [ArrayValue])" "st \<in> {Num0, Num1}"
      using scan_elements [OF False, of BeginValueOrEmpty] by blast
    have "json_scan BeginValue [] (int_array_text vs @ '' '') = json_scan st [ArrayValue] ''] ''"
      using open' st(1) by (simp add: int_array_text_def json_scan_append)
    with close [of st] st(2) show ?thesis by (auto simp: json_valid_def)
  qed
qed

lemma Itoa_chars: "c \<in> set (Itoa i) \<Longrightarrow> \<not> json_space c \<and> c \<noteq> CHR '','' \<and> c \<noteq> CHR ''n''"
  using decimal_digits digit_not_special
  by (auto simp: Itoa_def list_all_iff json_space_def split: if_splits)

lemma all_some_map: "(\<And>x. x \<in> set xs \<Longrightarrow> f x = Some (g x)) \<Longrightarrow> all_some (map f xs) = Some (map g xs)"
  by (induction xs) auto

lemma Itoa_nonempty: "Itoa i \<noteq> []"
  by (simp add: Itoa_def decimal_nonempty)

lemma join_with_nonempty: "w \<noteq> [] \<Longrightarrow> join_with sep (w # ws) \<noteq> []"
  by (cases ws) auto

lemma join_with_chars: "set (join_with sep ws) \<subseteq> set sep \<union> (\<Union>w \<in> set ws. set w)"
  by (induction sep ws rule: join_with.induct) auto

text \<open>Decoding the text of an array of 64-bit integers gives the array back.\<close>

lemma unmarshal_int_array:
  assumes "list_all in_int64 vs"
  shows "unmarshal_int64s (int_array_text vs) = Inr vs"
proof -
  let ?body = "join_with '','' (map Itoa vs)"
  have "c \<in> set ?body \<Longrightarrow> \<not> json_space c" for c
    using join_with_chars [of "'',''" "map Itoa vs"] Itoa_chars by (auto simp: json_space_def)
  then have filt: "filter (\<lambda>c. \<not> json_space c) (int_array_text vs) = int_array_text vs"
    by (auto simp: int_array_text_def json_space_def filter_id_conv)
  show ?thesis
  proof (cases "vs = []")
    case True
    with filt int_array_valid [of vs] show ?thesis by (simp add: unmarshal_int64s_def int_array_text_def)
  next
    case False
    have body: "?body \<noteq> []" using False Itoa_nonempty by (cases vs) (simp_all add: join_with_nonempty)
    have split: "split_on CHR '','' ?body = map Itoa vs"
      using False Itoa_chars by (intro split_join) auto
    have ints: "json_int64 (Itoa i) = Some i" if "i \<in> set vs" for i
    proof -
      have "Itoa i \<noteq> ''null''" using Itoa_chars [of "CHR ''n''" i] by auto
      then show ?thesis using Atoi_Itoa [of i] assms that by (auto simp: list_all_iff)
    qed
    have "all_some (map json_int64 (map Itoa vs)) = Some vs"
      using all_some_map [of vs "\<lambda>i. json_int64 (Itoa i)" "\<lambda>i. i"] ints by (simp add: comp_def)
    then show ?thesis
      using body filt int_array_valid [of vs] split
      by (auto simp: unmarshal_int64s_def int_array_text_def Let_def)
  qed
qed

end
