(* ===== verification/Cache.thy ===== *)
theory Cache
  imports Go_Prelude
begin

text \<open>
  The package \<open>cache\<close> (\<^verbatim>\<open>src/cache/cache.go\<close>): the in-process store \<open>Memory\<close> with its two
  critical sections in \<open>Get\<close>, and the JSON helpers written against the \<open>Store\<close> interface.
  The injected clock \<open>now\<close> is a field holding its current reading. The concurrent
  behaviour is the step relation \<open>cache_step\<close>, whose steps are the critical sections; it
  refines a map from keys to the last value written and its deadline.
\<close>

section \<open>The memory store\<close>

record cache_entry =
  cache_value :: bytes
  cache_expiresAt :: time

record cache_memory =
  cache_entries :: "(string, cache_entry) gomap"
  cache_now :: time

definition ErrMiss :: goerr where
  "ErrMiss = Sentinel ''cache.ErrMiss''"

definition NewMemory :: "time \<Rightarrow> cache_memory" where
  "NewMemory t = \<lparr>cache_entries = [], cache_now = t\<rparr>"

definition cache_expired :: "time \<Rightarrow> cache_entry \<Rightarrow> bool" where
  "cache_expired t e \<longleftrightarrow> \<not> is_zero_time (cache_expiresAt e) \<and> \<not> t < cache_expiresAt e"

text \<open>
  \<open>Get\<close> reads the entry under the read lock, then checks its deadline; an expired entry is
  removed in a second critical section, which looks the entry up and checks it again.
\<close>

definition Memory_Get_read :: "cache_memory \<Rightarrow> string \<Rightarrow> cache_entry option" where
  "Memory_Get_read m key = map_of (cache_entries m) key"

definition Memory_Get_evict :: "cache_memory \<Rightarrow> string \<Rightarrow> cache_memory" where
  "Memory_Get_evict m key =
     (case map_of (cache_entries m) key of
        Some current \<Rightarrow>
          if cache_expired (cache_now m) current
          then m\<lparr>cache_entries := AList.delete key (cache_entries m)\<rparr> else m
      | None \<Rightarrow> m)"

definition Memory_Get :: "cache_memory \<Rightarrow> string \<Rightarrow> bytes result \<times> cache_memory" where
  "Memory_Get m key =
     (case Memory_Get_read m key of
        None \<Rightarrow> (Inl ErrMiss, m)
      | Some entry \<Rightarrow>
          if cache_expired (cache_now m) entry then (Inl ErrMiss, Memory_Get_evict m key)
          else (Inr (cache_value entry), m))"

definition Memory_Put_item :: "time \<Rightarrow> bytes \<Rightarrow> duration \<Rightarrow> cache_entry" where
  "Memory_Put_item t val lifetime =
     \<lparr>cache_value = val, cache_expiresAt = (if lifetime > 0 then t + lifetime else 0)\<rparr>"

definition Memory_Put ::
    "cache_memory \<Rightarrow> string \<Rightarrow> bytes \<Rightarrow> duration \<Rightarrow> unit result \<times> cache_memory" where
  "Memory_Put m key val lifetime =
     (Inr (), m\<lparr>cache_entries :=
        AList.update key (Memory_Put_item (cache_now m) val lifetime) (cache_entries m)\<rparr>)"

definition Memory_Forget :: "cache_memory \<Rightarrow> string \<Rightarrow> unit result \<times> cache_memory" where
  "Memory_Forget m key = (Inr (), m\<lparr>cache_entries := AList.delete key (cache_entries m)\<rparr>)"

definition Memory_Flush :: "cache_memory \<Rightarrow> unit result \<times> cache_memory" where
  "Memory_Flush m = (Inr (), m\<lparr>cache_entries := []\<rparr>)"

text \<open>\<open>Prune\<close> reads the clock once, at \<open>t\<close>, and then ranges over the map under the lock.\<close>

fun prune_loop :: "time \<Rightarrow> (string, cache_entry) gomap \<Rightarrow> nat \<times> (string, cache_entry) gomap" where
  "prune_loop t [] = (0, [])"
| "prune_loop t ((key, entry) # rest) =
     (let (removed, kept) = prune_loop t rest
      in if cache_expired t entry then (Suc removed, kept) else (removed, (key, entry) # kept))"

definition Memory_Prune_at :: "time \<Rightarrow> cache_memory \<Rightarrow> nat \<times> cache_memory" where
  "Memory_Prune_at t m =
     (let (removed, kept) = prune_loop t (cache_entries m) in (removed, m\<lparr>cache_entries := kept\<rparr>))"

definition Memory_Prune :: "cache_memory \<Rightarrow> nat \<times> cache_memory" where
  "Memory_Prune m = Memory_Prune_at (cache_now m) m"

section \<open>JSON helpers over the Store interface\<close>

text \<open>
  The helpers see a store only through its methods, here \<open>get\<close> and \<open>put\<close> on a state
  \<open>'s\<close>. Encoding and decoding of the type parameter are \<open>enc\<close> and \<open>dec\<close>.
\<close>

definition GetJSON ::
    "('s \<Rightarrow> string \<Rightarrow> bytes result \<times> 's) \<Rightarrow> (bytes \<Rightarrow> 'a result) \<Rightarrow> 's \<Rightarrow> string \<Rightarrow> 'a result \<times> 's" where
  "GetJSON get dec s key =
     (case get s key of
        (Inl err, s') \<Rightarrow> (Inl err, s')
      | (Inr encoded, s') \<Rightarrow>
          (case dec encoded of
             Inl err \<Rightarrow> (Inl (Wrapf ''decode cached %q: %w'' [key] err), s')
           | Inr val \<Rightarrow> (Inr val, s')))"

definition PutJSON ::
    "('s \<Rightarrow> string \<Rightarrow> bytes \<Rightarrow> duration \<Rightarrow> unit result \<times> 's) \<Rightarrow> ('a \<Rightarrow> bytes result) \<Rightarrow>
     's \<Rightarrow> string \<Rightarrow> 'a \<Rightarrow> duration \<Rightarrow> unit result \<times> 's" where
  "PutJSON put enc s key val lifetime =
     (case enc val of
        Inl err \<Rightarrow> (Inl (Wrapf ''encode cached %q: %w'' [key] err), s)
      | Inr encoded \<Rightarrow> put s key encoded lifetime)"

definition RememberJSON ::
    "('s \<Rightarrow> string \<Rightarrow> bytes result \<times> 's) \<Rightarrow>
     ('s \<Rightarrow> string \<Rightarrow> bytes \<Rightarrow> duration \<Rightarrow> unit result \<times> 's) \<Rightarrow>
     (bytes \<Rightarrow> 'a result) \<Rightarrow> ('a \<Rightarrow> bytes result) \<Rightarrow> ('s \<Rightarrow> 'a result \<times> 's) \<Rightarrow>
     's \<Rightarrow> string \<Rightarrow> duration \<Rightarrow> 'a result \<times> 's" where
  "RememberJSON get put dec enc load s key lifetime =
     (case GetJSON get dec s key of
        (Inr val, s1) \<Rightarrow> (Inr val, s1)
      | (Inl err, s1) \<Rightarrow>
          if \<not> errors_is err ErrMiss then (Inl err, s1)
          else (case load s1 of
                  (Inl err2, s2) \<Rightarrow> (Inl err2, s2)
                | (Inr val, s2) \<Rightarrow>
                    (case PutJSON put enc s2 key val lifetime of
                       (Inl err3, s3) \<Rightarrow> (Inl err3, s3)
                     | (Inr _, s3) \<Rightarrow> (Inr val, s3))))"

section \<open>The store's content\<close>

definition cache_wf :: "cache_memory \<Rightarrow> bool" where
  "cache_wf m \<longleftrightarrow> map_wf (cache_entries m)"

definition live_entry :: "time \<Rightarrow> cache_entry \<Rightarrow> bytes option" where
  "live_entry t e = (if cache_expired t e then None else Some (cache_value e))"

definition cache_live :: "cache_memory \<Rightarrow> time \<Rightarrow> string \<Rightarrow> bytes option" where
  "cache_live m t key = Option.bind (map_of (cache_entries m) key) (live_entry t)"

lemmas cache_defs =
  Memory_Get_def Memory_Get_read_def Memory_Get_evict_def Memory_Put_def Memory_Put_item_def
  Memory_Forget_def Memory_Flush_def Memory_Prune_def Memory_Prune_at_def

lemma cache_expired_mono: "cache_expired t e \<Longrightarrow> t \<le> t' \<Longrightarrow> cache_expired t' e"
  by (auto simp: cache_expired_def)

lemma prune_loop_filter:
  "prune_loop t xs =
     (length (filter (\<lambda>(k, e). cache_expired t e) xs), filter (\<lambda>(k, e). \<not> cache_expired t e) xs)"
  by (induction xs) auto

lemma cache_wf_ops:
  assumes "cache_wf m"
  shows "cache_wf (snd (Memory_Get m k))" and "cache_wf (Memory_Get_evict m k)"
    and "cache_wf (snd (Memory_Put m k v l))" and "cache_wf (snd (Memory_Forget m k))"
    and "cache_wf (snd (Memory_Flush m))" and "cache_wf (snd (Memory_Prune_at t m))"
  using assms
  by (auto simp: cache_wf_def cache_defs prune_loop_filter split: option.splits)

lemma cache_live_Get_evict:
  assumes "cache_now m \<le> t"
  shows "cache_live (Memory_Get_evict m k) t = cache_live m t"
  using assms
  by (auto simp: fun_eq_iff cache_live_def Memory_Get_evict_def gomap_lookup live_entry_def
      dest: cache_expired_mono split: option.splits)

lemma cache_live_Prune_at:
  assumes "cache_wf m" and "t0 \<le> t"
  shows "cache_live (snd (Memory_Prune_at t0 m)) t = cache_live m t"
  using assms
  by (auto simp: fun_eq_iff cache_live_def Memory_Prune_at_def prune_loop_filter
      map_of_filter_wf cache_wf_def live_entry_def dest: cache_expired_mono split: option.splits)

lemma cache_live_Forget: "cache_live (snd (Memory_Forget m k)) t = (cache_live m t)(k := None)"
  by (auto simp: fun_eq_iff cache_live_def Memory_Forget_def gomap_lookup)

lemma cache_live_Flush: "cache_live (snd (Memory_Flush m)) t = Map.empty"
  by (auto simp: fun_eq_iff cache_live_def Memory_Flush_def)

lemma Memory_Get_result:
  "fst (Memory_Get m k) =
     (case cache_live m (cache_now m) k of None \<Rightarrow> Inl ErrMiss | Some v \<Rightarrow> Inr v)"
  by (auto simp: Memory_Get_def Memory_Get_read_def cache_live_def live_entry_def split: option.splits)

lemma Memory_Get_now: "cache_now (snd (Memory_Get m k)) = cache_now m"
  by (auto simp: cache_defs split: option.splits)

lemma Memory_Get_live:
  "cache_now m \<le> t \<Longrightarrow> cache_live (snd (Memory_Get m k)) t = cache_live m t"
  by (auto simp: Memory_Get_def cache_live_Get_evict split: option.splits)

section \<open>The contract of a Store, and what the JSON helpers rely on\<close>

locale cache_store =
  fixes get :: "'s \<Rightarrow> string \<Rightarrow> bytes result \<times> 's"
    and put :: "'s \<Rightarrow> string \<Rightarrow> bytes \<Rightarrow> duration \<Rightarrow> unit result \<times> 's"
    and content :: "'s \<Rightarrow> string \<Rightarrow> bytes option"
  assumes get_result: "fst (get s k) = (case content s k of None \<Rightarrow> Inl ErrMiss | Some v \<Rightarrow> Inr v)"
    and get_content: "content (snd (get s k)) = content s"
    and put_result: "fst (put s k v l) = Inr ()"
    and put_content: "content (snd (put s k v l)) = (content s)(k \<mapsto> v)"
begin

lemma GetJSON_hit:
  "content s k = Some b \<Longrightarrow> dec b = Inr v \<Longrightarrow> fst (GetJSON get dec s k) = Inr v"
  using get_result [of s k] by (auto simp: GetJSON_def split: prod.splits sum.splits)

lemma GetJSON_miss:
  "content s k = None \<Longrightarrow> fst (GetJSON get dec s k) = Inl ErrMiss"
  using get_result [of s k] by (auto simp: GetJSON_def split: prod.splits sum.splits)

lemma GetJSON_content: "content (snd (GetJSON get dec s k)) = content s"
  using get_content [of s k] by (auto simp: GetJSON_def split: prod.splits sum.splits)

lemma RememberJSON_hit:
  assumes "content s k = Some b" and "dec b = Inr v"
  shows "fst (RememberJSON get put dec enc load s k l) = Inr v"
    and "content (snd (RememberJSON get put dec enc load s k l)) = content s"
  using GetJSON_hit [of s k b dec v] GetJSON_content [of dec s k] assms
  by (auto simp: RememberJSON_def split: prod.splits sum.splits)

lemma RememberJSON_miss:
  assumes "content s k = None" and "\<And>s'. fst (load s') = Inr v" and "enc v = Inr b"
  shows "fst (RememberJSON get put dec enc load s k l) = Inr v"
    and "content (snd (RememberJSON get put dec enc load s k l)) k = Some b"
proof -
  obtain s1 where g: "GetJSON get dec s k = (Inl ErrMiss, s1)"
    using GetJSON_miss [OF assms(1), of dec] by (metis prod.collapse)
  obtain s2 where ld: "load s1 = (Inr v, s2)"
    using assms(2) [of s1] by (metis prod.collapse)
  obtain s3 where pt: "put s2 k b l = (Inr (), s3)"
    using put_result [of s2 k b l] by (metis prod.collapse)
  have "RememberJSON get put dec enc load s k l = (Inr v, s3)"
    by (simp add: RememberJSON_def PutJSON_def g ld pt assms(3))
  with pt put_content [of s2 k b l]
  show "fst (RememberJSON get put dec enc load s k l) = Inr v"
    and "content (snd (RememberJSON get put dec enc load s k l)) k = Some b" by simp_all
qed

end

interpretation cm: cache_store Memory_Get Memory_Put "\<lambda>m. cache_live m (cache_now m)"
proof unfold_locales
  show "fst (Memory_Get s k) =
      (case cache_live s (cache_now s) k of None \<Rightarrow> Inl ErrMiss | Some v \<Rightarrow> Inr v)" for s k
    by (rule Memory_Get_result)
  show "cache_live (snd (Memory_Get s k)) (cache_now (snd (Memory_Get s k))) =
      cache_live s (cache_now s)" for s k
    by (simp add: Memory_Get_now Memory_Get_live)
  show "fst (Memory_Put s k v l) = Inr ()" for s k v l
    by (simp add: Memory_Put_def)
  show "cache_live (snd (Memory_Put s k v l)) (cache_now (snd (Memory_Put s k v l))) =
      (cache_live s (cache_now s))(k \<mapsto> v)" for s k v l
    by (auto simp: fun_eq_iff Memory_Put_def Memory_Put_item_def cache_live_def gomap_lookup
        live_entry_def cache_expired_def is_zero_time_def)
qed

text \<open>With a clock: what was put stays until its lifetime has passed.\<close>

definition cache_advance :: "cache_memory \<Rightarrow> duration \<Rightarrow> cache_memory" where
  "cache_advance m d = m\<lparr>cache_now := cache_now m + d\<rparr>"

locale timed_cache_store = cache_store +
  fixes advance :: "'a \<Rightarrow> duration \<Rightarrow> 'a"
  assumes put_lives: "0 \<le> d \<Longrightarrow> l \<le> 0 \<or> d < l \<Longrightarrow> content (advance (snd (put s k v l)) d) k = Some v"
begin

lemma RememberJSON_lives:
  assumes "content s k = None" and "\<And>s'. fst (load s') = Inr v" and "enc v = Inr b"
    and "0 \<le> d" and "l \<le> 0 \<or> d < l"
  shows "content (advance (snd (RememberJSON get put dec enc load s k l)) d) k = Some b"
proof -
  obtain s1 where g: "GetJSON get dec s k = (Inl ErrMiss, s1)"
    using GetJSON_miss [OF assms(1), of dec] by (metis prod.collapse)
  obtain s2 where ld: "load s1 = (Inr v, s2)"
    using assms(2) [of s1] by (metis prod.collapse)
  have "snd (RememberJSON get put dec enc load s k l) = snd (put s2 k b l)"
    using put_result [of s2 k b l]
    by (auto simp: RememberJSON_def PutJSON_def g ld assms(3) split: prod.splits sum.splits)
  with put_lives [OF assms(4,5)] show ?thesis by simp
qed

end

interpretation tcm: timed_cache_store Memory_Get Memory_Put "\<lambda>m. cache_live m (cache_now m)" cache_advance
  by unfold_locales
    (auto simp: Memory_Put_def Memory_Put_item_def cache_live_def gomap_lookup live_entry_def
      cache_advance_def cache_expired_def is_zero_time_def)

section \<open>Concurrent use refines an expiring map\<close>

text \<open>
  The ghost \<open>cache_spec\<close> records for every key the last value written and its deadline (0
  for none); nothing ever leaves it by expiry. The steps are the critical sections of the
  methods, in any order and from any number of goroutines: a \<open>Put\<close> stores an item whose
  deadline was computed at an earlier clock reading, a \<open>Prune\<close> uses an earlier reading,
  the second section of a \<open>Get\<close> may run at any moment and for any key.
\<close>

record cache_sys =
  cs_mem :: cache_memory
  cache_spec :: "string \<rightharpoonup> bytes \<times> time"

definition spec_live :: "(string \<rightharpoonup> bytes \<times> time) \<Rightarrow> time \<Rightarrow> string \<Rightarrow> bytes option" where
  "spec_live sp t key =
     (case sp key of None \<Rightarrow> None | Some (v, x) \<Rightarrow> if x \<noteq> 0 \<and> x \<le> t then None else Some v)"

inductive cache_step :: "cache_sys \<Rightarrow> cache_sys \<Rightarrow> bool" where
  tick: "cache_now (cs_mem s) \<le> t \<Longrightarrow> cache_step s (s\<lparr>cs_mem := (cs_mem s)\<lparr>cache_now := t\<rparr>\<rparr>)"
| put: "t0 \<le> cache_now (cs_mem s) \<Longrightarrow> item = Memory_Put_item t0 v l \<Longrightarrow>
    cache_step s
      (s\<lparr>cs_mem := (cs_mem s)\<lparr>cache_entries := AList.update k item (cache_entries (cs_mem s))\<rparr>,
         cache_spec := (cache_spec s)(k \<mapsto> (v, cache_expiresAt item))\<rparr>)"
| evict: "cache_step s (s\<lparr>cs_mem := Memory_Get_evict (cs_mem s) k\<rparr>)"
| forget: "cache_step s (s\<lparr>cs_mem := snd (Memory_Forget (cs_mem s) k),
                             cache_spec := (cache_spec s)(k := None)\<rparr>)"
| flush: "cache_step s (s\<lparr>cs_mem := snd (Memory_Flush (cs_mem s)), cache_spec := Map.empty\<rparr>)"
| prune: "t0 \<le> cache_now (cs_mem s) \<Longrightarrow>
    cache_step s (s\<lparr>cs_mem := snd (Memory_Prune_at t0 (cs_mem s))\<rparr>)"

inductive cache_reachable :: "cache_sys \<Rightarrow> bool" where
  start: "cache_reachable \<lparr>cs_mem = NewMemory t, cache_spec = Map.empty\<rparr>"
| step: "cache_reachable s \<Longrightarrow> cache_step s s' \<Longrightarrow> cache_reachable s'"

definition cache_inv :: "cache_sys \<Rightarrow> bool" where
  "cache_inv s \<longleftrightarrow> cache_wf (cs_mem s) \<and>
     (\<forall>t \<ge> cache_now (cs_mem s). cache_live (cs_mem s) t = spec_live (cache_spec s) t)"

lemma cache_inv_step:
  assumes "cache_step s s'" and "cache_inv s"
  shows "cache_inv s'"
  using assms
proof (induction rule: cache_step.induct)
  case (tick s t)
  then show ?case by (auto simp: cache_inv_def cache_wf_def cache_live_def fun_eq_iff)
next
  case (put t0 s item v l k)
  have "map_wf (AList.update k item (cache_entries (cs_mem s)))"
    using put.prems by (auto simp: cache_inv_def cache_wf_def)
  moreover have "cache_value item = v" using put.hyps by (simp add: Memory_Put_item_def)
  ultimately show ?case
    using put.prems
    by (auto simp: cache_inv_def cache_wf_def cache_live_def fun_eq_iff gomap_lookup spec_live_def
        live_entry_def cache_expired_def is_zero_time_def)
next
  case (evict s k)
  have "cache_now (Memory_Get_evict (cs_mem s) k) = cache_now (cs_mem s)"
    by (auto simp: Memory_Get_evict_def split: option.splits)
  with evict show ?case by (simp add: cache_inv_def cache_live_Get_evict cache_wf_ops)
next
  case (forget s k)
  have "cache_now (snd (Memory_Forget (cs_mem s) k)) = cache_now (cs_mem s)"
    by (simp add: Memory_Forget_def)
  with forget show ?case
    by (auto simp: cache_inv_def cache_live_Forget cache_wf_ops spec_live_def fun_eq_iff)
next
  case (flush s)
  then show ?case
    by (simp add: cache_inv_def cache_live_Flush cache_wf_ops spec_live_def fun_eq_iff)
next
  case (prune t0 s)
  have "cache_now (snd (Memory_Prune_at t0 (cs_mem s))) = cache_now (cs_mem s)"
    by (simp add: Memory_Prune_at_def split: prod.splits)
  with prune show ?case
    by (simp add: cache_inv_def cache_live_Prune_at cache_wf_ops)
qed

lemma cache_reachable_inv: "cache_reachable s \<Longrightarrow> cache_inv s"
proof (induction rule: cache_reachable.induct)
  case (start t)
  show ?case
    by (simp add: cache_inv_def cache_wf_def NewMemory_def cache_live_def spec_live_def fun_eq_iff)
next
  case (step s s')
  then show ?case by (blast intro: cache_inv_step)
qed

text \<open>C1: In every state that concurrent use of the cache can reach, \<open>Get\<close> answers exactly what
  the map of last writes holds and has not expired: expired entries are misses although they
  are still stored, and no eviction (by \<open>Get\<close>'s second critical section or by \<open>Prune\<close>,
  racing with writers) ever drops a live value.
\<close>

theorem cache_get_refines:
  assumes "cache_reachable s"
  shows "fst (Memory_Get (cs_mem s) k) =
     (case spec_live (cache_spec s) (cache_now (cs_mem s)) k of None \<Rightarrow> Inl ErrMiss | Some v \<Rightarrow> Inr v)"
proof -
  from assms have "cache_inv s" by (rule cache_reachable_inv)
  then show ?thesis by (simp add: Memory_Get_result cache_inv_def)
qed

theorem cache_get_refines_witness:
  "\<exists>s. cache_reachable s \<and> fst (Memory_Get (cs_mem s) ''k'') = Inr ''v''"
proof -
  let ?s = "\<lparr>cs_mem = \<lparr>cache_entries = [(''k'', \<lparr>cache_value = ''v'', cache_expiresAt = 15\<rparr>)],
                       cache_now = 10\<rparr>,
             cache_spec = [''k'' \<mapsto> (''v'', 15)]\<rparr>"
  have "cache_step \<lparr>cs_mem = NewMemory 10, cache_spec = Map.empty\<rparr> ?s"
    using cache_step.put [of 10 "\<lparr>cs_mem = NewMemory 10, cache_spec = Map.empty\<rparr>"
        "Memory_Put_item 10 ''v'' 5" "''v''" 5 "''k''"]
    by (simp add: NewMemory_def Memory_Put_item_def)
  then have r: "cache_reachable ?s" by (rule cache_reachable.step [OF cache_reachable.start])
  have "fst (Memory_Get (cs_mem ?s) ''k'') = Inr ''v''"
    using cache_get_refines [OF r, of "''k''"] by (simp add: spec_live_def)
  with r show ?thesis by blast
qed



end
