(* ===== verification/RateLimit.thy ===== *)
theory RateLimit
  imports Go_Strings
begin

text \<open>
  The package \<open>ratelimit\<close>: fixed windows in the bounded \<open>MemoryStore\<close>
  (\<^verbatim>\<open>src/security/ratelimit/memory.go\<close>) and the \<open>Limiter\<close> with its HTTP enforcement
  (\<^verbatim>\<open>src/security/ratelimit/ratelimit.go\<close>), written against the \<open>Store\<close> interface.
\<close>

section \<open>Policies, decisions and the memory store\<close>

record rl_policy =
  Limit :: int
  Window :: duration

record rl_decision =
  Allowed :: bool
  RetryAfter :: duration

record rl_entry =
  rl_count :: int
  rl_resetAt :: time

record rl_memory =
  rl_entries :: "(string, rl_entry) gomap"
  rl_capacity :: int

definition defaultCapacity :: int where
  "defaultCapacity = 10000"

definition NewMemoryStore :: "int \<Rightarrow> rl_memory" where
  "NewMemoryStore capacity =
     \<lparr>rl_entries = [], rl_capacity = (if capacity \<le> 0 then defaultCapacity else capacity)\<rparr>"

text \<open>
  The loop of \<open>Take\<close> over a full map: expired entries are deleted, and \<open>earliest\<close> (the zero
  time when unset) becomes the earliest reset of the entries that stay.
\<close>

fun expire_loop ::
    "time \<Rightarrow> time \<Rightarrow> (string, rl_entry) gomap \<Rightarrow> time \<times> (string, rl_entry) gomap" where
  "expire_loop now earliest [] = (earliest, [])"
| "expire_loop now earliest ((candidate, entry) # rest) =
     (if \<not> now < rl_resetAt entry then expire_loop now earliest rest
      else let earliest' = (if is_zero_time earliest \<or> rl_resetAt entry < earliest
                            then rl_resetAt entry else earliest);
               (e, kept) = expire_loop now earliest' rest
           in (e, (candidate, entry) # kept))"

definition MemoryStore_Take ::
    "goerr option \<Rightarrow> string \<Rightarrow> rl_policy \<Rightarrow> time \<Rightarrow> rl_memory \<Rightarrow> rl_decision result \<times> rl_memory" where
  "MemoryStore_Take ctx key policy now store =
     (case ctx of
        Some err \<Rightarrow> (Inl err, store)
      | None \<Rightarrow>
          let allow = Inr \<lparr>Allowed = True, RetryAfter = 0\<rparr>;
              fresh = \<lparr>rl_count = 1, rl_resetAt = now + Window policy\<rparr>
          in case map_of (rl_entries store) key of
            Some entry \<Rightarrow>
              if \<not> now < rl_resetAt entry
              then (allow, store\<lparr>rl_entries := AList.update key fresh (rl_entries store)\<rparr>)
              else if rl_count entry \<ge> Limit policy
              then (Inr \<lparr>Allowed = False, RetryAfter = time_sub (rl_resetAt entry) now\<rparr>, store)
              else (allow, store\<lparr>rl_entries :=
                      AList.update key (entry\<lparr>rl_count := rl_count entry + 1\<rparr>) (rl_entries store)\<rparr>)
          | None \<Rightarrow>
              if int (length (rl_entries store)) \<ge> rl_capacity store
              then let (earliest, kept) = expire_loop now 0 (rl_entries store);
                       store' = store\<lparr>rl_entries := kept\<rparr>
                   in if int (length kept) \<ge> rl_capacity store
                      then (Inr \<lparr>Allowed = False,
                                 RetryAfter = (if \<not> is_zero_time earliest then time_sub earliest now
                                               else Window policy)\<rparr>, store')
                      else (allow, store'\<lparr>rl_entries := AList.update key fresh kept\<rparr>)
              else (allow, store\<lparr>rl_entries := AList.update key fresh (rl_entries store)\<rparr>))"

definition MemoryStore_Reset ::
    "goerr option \<Rightarrow> string \<Rightarrow> rl_memory \<Rightarrow> unit result \<times> rl_memory" where
  "MemoryStore_Reset ctx key store =
     (case ctx of
        Some err \<Rightarrow> (Inl err, store)
      | None \<Rightarrow> (Inr (), store\<lparr>rl_entries := AList.delete key (rl_entries store)\<rparr>))"

section \<open>The limiter and its HTTP enforcement\<close>

record 's rl_store =
  store_Take :: "goerr option \<Rightarrow> string \<Rightarrow> rl_policy \<Rightarrow> time \<Rightarrow> 's \<Rightarrow> rl_decision result \<times> 's"
  store_Reset :: "goerr option \<Rightarrow> string \<Rightarrow> 's \<Rightarrow> unit result \<times> 's"

record 's rl_limiter =
  lim_store :: "'s rl_store option"
  lim_policy :: rl_policy

definition memory_rl_store :: "rl_memory rl_store" where
  "memory_rl_store = \<lparr>store_Take = MemoryStore_Take, store_Reset = MemoryStore_Reset\<rparr>"

definition ErrInvalidConfiguration :: goerr where
  "ErrInvalidConfiguration = Sentinel ''ratelimit.ErrInvalidConfiguration''"

definition Limiter_New :: "'s rl_store option \<Rightarrow> rl_policy \<Rightarrow> 's rl_limiter result" where
  "Limiter_New store policy =
     (if store = None \<or> Limit policy < 1 \<or> Window policy \<le> 0 then Inl ErrInvalidConfiguration
      else Inr \<lparr>lim_store = store, lim_policy = policy\<rparr>)"

definition Limiter_Take ::
    "'s rl_limiter option \<Rightarrow> goerr option \<Rightarrow> time \<Rightarrow> string \<Rightarrow> 's \<Rightarrow> rl_decision result \<times> 's" where
  "Limiter_Take limiter ctx now key s =
     (case Option.bind limiter lim_store of
        None \<Rightarrow> (Inl ErrInvalidConfiguration, s)
      | Some store \<Rightarrow>
          if TrimSpace key = [] then (Inl (Errorf ''rate limit key is required'' []), s)
          else (case store_Take store ctx key (lim_policy (the limiter)) now s of
                  (Inl err, s') \<Rightarrow> (Inl (Wrapf ''consume rate limit: %w'' [] err), s')
                | (Inr decision, s') \<Rightarrow> (Inr decision, s')))"

definition Limiter_Reset ::
    "'s rl_limiter option \<Rightarrow> goerr option \<Rightarrow> string \<Rightarrow> 's \<Rightarrow> unit result \<times> 's" where
  "Limiter_Reset limiter ctx key s =
     (case Option.bind limiter lim_store of
        None \<Rightarrow> (Inl ErrInvalidConfiguration, s)
      | Some store \<Rightarrow>
          if TrimSpace key = [] then (Inl (Errorf ''rate limit key is required'' []), s)
          else (case store_Reset store ctx key s of
                  (Inl err, s') \<Rightarrow> (Inl (Wrapf ''reset rate limit: %w'' [] err), s')
                | (Inr _, s') \<Rightarrow> (Inr (), s')))"

definition retryAfterSeconds :: "duration \<Rightarrow> int" where
  "retryAfterSeconds d =
     (let seconds = wrap64 (d + second - 1) sdiv second in if seconds < 1 then 1 else seconds)"

type_synonym headers = "(string, string) gomap"

definition Limiter_Enforce ::
    "'s rl_limiter option \<Rightarrow> goerr option \<Rightarrow> time \<Rightarrow> string \<Rightarrow> headers \<times> 's \<Rightarrow>
     unit result \<times> headers \<times> 's" where
  "Limiter_Enforce limiter ctx now key hs =
     (case hs of (header, s) \<Rightarrow>
        case Limiter_Take limiter ctx now key s of
          (Inl err, s') \<Rightarrow> (Inl err, header, s')
        | (Inr decision, s') \<Rightarrow>
            if Allowed decision then (Inr (), header, s')
            else (Inl (HTTPError 429 ''too many requests''),
                  AList.update ''Retry-After'' (Itoa (retryAfterSeconds (RetryAfter decision))) header,
                  s'))"

definition Limiter_Middleware ::
    "'s rl_limiter \<Rightarrow> goerr option \<Rightarrow> time \<Rightarrow> string \<Rightarrow>
     (headers \<times> 's \<Rightarrow> unit result \<times> headers \<times> 's) \<Rightarrow> headers \<times> 's \<Rightarrow> unit result \<times> headers \<times> 's" where
  "Limiter_Middleware limiter ctx now key next_handler hs =
     (case Limiter_Enforce (Some limiter) ctx now key hs of
        (Inl err, hs') \<Rightarrow> (Inl err, hs')
      | (Inr _, hs') \<Rightarrow> next_handler hs')"

text \<open>
  \<open>Key\<close> hashes the parts, each followed by a zero byte; the digest function (SHA-256 in the
  code) is an argument.
\<close>

definition key_input :: "string list \<Rightarrow> bytes" where
  "key_input parts = concat (map (\<lambda>part. part @ [CHR 0x00]) parts)"

definition Key :: "(bytes \<Rightarrow> bytes) \<Rightarrow> string list \<Rightarrow> string" where
  "Key sha256 parts = hex_encode (sha256 (key_input parts))"

section \<open>The memory store: invariant and content\<close>

definition rl_inv :: "rl_memory \<Rightarrow> bool" where
  "rl_inv s \<longleftrightarrow> map_wf (rl_entries s) \<and> 1 \<le> rl_capacity s
     \<and> int (length (rl_entries s)) \<le> rl_capacity s"

definition rl_used :: "rl_memory \<Rightarrow> string \<Rightarrow> time \<Rightarrow> int" where
  "rl_used s key t =
     (case map_of (rl_entries s) key of
        None \<Rightarrow> 0 | Some e \<Rightarrow> if t < rl_resetAt e then rl_count e else 0)"

definition rl_live :: "time \<Rightarrow> (string, rl_entry) gomap \<Rightarrow> (string, rl_entry) gomap" where
  "rl_live now xs = filter (\<lambda>(k, e). now < rl_resetAt e) xs"

abbreviation rl_allow :: rl_decision where
  "rl_allow \<equiv> \<lparr>Allowed = True, RetryAfter = 0\<rparr>"
abbreviation rl_deny :: "duration \<Rightarrow> rl_decision" where
  "rl_deny d \<equiv> \<lparr>Allowed = False, RetryAfter = d\<rparr>"
abbreviation rl_fresh :: "rl_policy \<Rightarrow> time \<Rightarrow> rl_entry" where
  "rl_fresh p t \<equiv> \<lparr>rl_count = 1, rl_resetAt = t + Window p\<rparr>"
abbreviation rl_set :: "string \<Rightarrow> rl_entry \<Rightarrow> rl_memory \<Rightarrow> rl_memory" where
  "rl_set k e s \<equiv> s\<lparr>rl_entries := AList.update k e (rl_entries s)\<rparr>"

lemma snd_expire_loop: "snd (expire_loop now earliest xs) = rl_live now xs"
  by (induction now earliest xs rule: expire_loop.induct)
    (auto simp: rl_live_def Let_def split: prod.splits)

text \<open>
  Whatever the order in which the map is ranged over, \<open>earliest\<close> is the least reset time of
  the live entries.
\<close>

lemma expire_loop_earliest:
  assumes "0 \<le> now" and "earliest = 0 \<or> now < earliest"
  shows "(\<forall>(k, e) \<in> set (rl_live now xs). fst (expire_loop now earliest xs) \<le> rl_resetAt e)
    \<and> (earliest \<noteq> 0 \<longrightarrow> fst (expire_loop now earliest xs) \<le> earliest)
    \<and> (now < earliest \<or> rl_live now xs \<noteq> [] \<longrightarrow> now < fst (expire_loop now earliest xs))
    \<and> (fst (expire_loop now earliest xs) = earliest
       \<or> (\<exists>(k, e) \<in> set (rl_live now xs). fst (expire_loop now earliest xs) = rl_resetAt e))"
  using assms
proof (induction xs arbitrary: earliest)
  case Nil
  then show ?case by (simp add: rl_live_def)
next
  case (Cons ke xs)
  obtain c e where ke: "ke = (c, e)" by (cases ke)
  show ?case
  proof (cases "now < rl_resetAt e")
    case False
    then have "expire_loop now earliest (ke # xs) = expire_loop now earliest xs"
      and "rl_live now (ke # xs) = rl_live now xs" using ke by (simp_all add: rl_live_def)
    with Cons.IH [OF Cons.prems] show ?thesis by presburger
  next
    case True
    define e' where "e' = (if earliest = 0 \<or> rl_resetAt e < earliest then rl_resetAt e else earliest)"
    have eq: "fst (expire_loop now earliest (ke # xs)) = fst (expire_loop now e' xs)"
      using True ke by (simp add: Let_def e'_def is_zero_time_def split: prod.splits)
    have live: "rl_live now (ke # xs) = (c, e) # rl_live now xs"
      using True ke by (simp add: rl_live_def)
    have e': "now < e'" "e' \<le> rl_resetAt e" "earliest \<noteq> 0 \<longrightarrow> e' \<le> earliest"
      "e' = earliest \<or> e' = rl_resetAt e"
      using True Cons.prems by (auto simp: e'_def)
    then have "e' \<noteq> 0" using Cons.prems by simp
    with Cons.IH [OF Cons.prems(1), of e'] e' show ?thesis
      unfolding eq live by auto
  qed
qed

lemma rl_live_facts:
  shows "set (rl_live t xs) \<subseteq> set xs" and "length (rl_live t xs) \<le> length xs"
    and "map_wf xs \<Longrightarrow> map_wf (rl_live t xs)"
    and "map_wf xs \<Longrightarrow> map_of (rl_live t xs) k =
       (case map_of xs k of None \<Rightarrow> None | Some e \<Rightarrow> if t < rl_resetAt e then Some e else None)"
  by (auto simp: rl_live_def map_of_filter_wf)

lemma Take_cases [case_names renewed exhausted counted created full]:
  obtains
    e where "map_of (rl_entries s) k = Some e" "rl_resetAt e \<le> t"
      "MemoryStore_Take None k p t s = (Inr rl_allow, rl_set k (rl_fresh p t) s)"
  | e where "map_of (rl_entries s) k = Some e" "t < rl_resetAt e" "Limit p \<le> rl_count e"
      "MemoryStore_Take None k p t s = (Inr (rl_deny (time_sub (rl_resetAt e) t)), s)"
  | e where "map_of (rl_entries s) k = Some e" "t < rl_resetAt e" "rl_count e < Limit p"
      "MemoryStore_Take None k p t s = (Inr rl_allow, rl_set k (e\<lparr>rl_count := rl_count e + 1\<rparr>) s)"
  | xs where "map_of (rl_entries s) k = None" "xs = rl_entries s \<or> xs = rl_live t (rl_entries s)"
      "int (length xs) < rl_capacity s"
      "MemoryStore_Take None k p t s = (Inr rl_allow, s\<lparr>rl_entries := AList.update k (rl_fresh p t) xs\<rparr>)"
  | d where "map_of (rl_entries s) k = None"
      "rl_capacity s \<le> int (length (rl_live t (rl_entries s)))"
      "d = (let e = fst (expire_loop t 0 (rl_entries s)) in if e \<noteq> 0 then time_sub e t else Window p)"
      "MemoryStore_Take None k p t s = (Inr (rl_deny d), s\<lparr>rl_entries := rl_live t (rl_entries s)\<rparr>)"
proof (cases "map_of (rl_entries s) k")
  case (Some e)
  consider "rl_resetAt e \<le> t" | "t < rl_resetAt e" "Limit p \<le> rl_count e"
    | "t < rl_resetAt e" "rl_count e < Limit p" by linarith
  then show ?thesis
  proof cases
    case 1
    with Some show ?thesis by (intro that(1)) (simp_all add: MemoryStore_Take_def Let_def)
  next
    case 2
    with Some show ?thesis by (intro that(2)) (simp_all add: MemoryStore_Take_def Let_def)
  next
    case 3
    with Some show ?thesis by (intro that(3)) (simp_all add: MemoryStore_Take_def Let_def)
  qed
next
  case None
  obtain e xs where loop: "expire_loop t 0 (rl_entries s) = (e, xs)" by fastforce
  then have xs: "xs = rl_live t (rl_entries s)" using snd_expire_loop [of t 0 "rl_entries s"] by simp
  show ?thesis
  proof (cases "rl_capacity s \<le> int (length (rl_entries s))")
    case False
    then show ?thesis using None that(4) [of "rl_entries s"]
      by (simp add: MemoryStore_Take_def Let_def)
  next
    case True
    show ?thesis
    proof (cases "rl_capacity s \<le> int (length (rl_live t (rl_entries s)))")
      case False
      with True None loop xs show ?thesis
        by (intro that(4) [of "rl_live t (rl_entries s)"]) (simp_all add: MemoryStore_Take_def Let_def)
    next
      case live: True
      with True None loop xs show ?thesis
        by (intro that(5)) (simp_all add: MemoryStore_Take_def Let_def is_zero_time_def)
    qed
  qed
qed

lemma rl_inv_New: "rl_inv (NewMemoryStore c)"
  by (simp add: rl_inv_def NewMemoryStore_def defaultCapacity_def)

lemma rl_inv_Reset: "rl_inv s \<Longrightarrow> rl_inv (snd (MemoryStore_Reset ctx k s))"
  using length_delete_le' [of k "rl_entries s"]
  by (auto simp: rl_inv_def MemoryStore_Reset_def split: option.splits)

lemma Take_cancelled: "MemoryStore_Take (Some err) k p t s = (Inl err, s)"
  by (simp add: MemoryStore_Take_def)

lemma rl_inv_Take:
  assumes "rl_inv s"
  shows "rl_inv (snd (MemoryStore_Take ctx k p t s))"
proof (cases ctx)
  case (Some err)
  with assms show ?thesis by (simp add: Take_cancelled)
next
  case None
  from assms have wf: "map_wf (rl_entries s)" and cap: "1 \<le> rl_capacity s"
    and len: "int (length (rl_entries s)) \<le> rl_capacity s" by (auto simp: rl_inv_def)
  show ?thesis
  proof (cases rule: Take_cases [where s = s and k = k and t = t and p = p])
    case (created xs)
    have "map_wf xs" using created(2) wf by (auto simp: rl_live_facts(3))
    moreover have "int (length (AList.update k (rl_fresh p t) xs)) \<le> rl_capacity s"
      using length_update_le [of k "rl_fresh p t" xs] created(3) by linarith
    ultimately show ?thesis using cap None created(4) by (auto simp: rl_inv_def)
  next
    case (full d)
    then show ?thesis using None wf cap len rl_live_facts(2) [of t "rl_entries s"]
      by (auto simp: rl_inv_def rl_live_facts(3))
  qed (use None wf cap len in \<open>auto simp: rl_inv_def length_update_eq\<close>)
qed

text \<open>What one \<open>Take\<close> does to the entries of the other keys: it keeps them, or drops an expired one.\<close>

lemma Take_other_key:
  assumes "rl_inv s" and "k' \<noteq> k"
  shows "map_of (rl_entries (snd (MemoryStore_Take ctx k p t s))) k' = map_of (rl_entries s) k'
    \<or> (\<exists>e. map_of (rl_entries s) k' = Some e \<and> rl_resetAt e \<le> t
          \<and> map_of (rl_entries (snd (MemoryStore_Take ctx k p t s))) k' = None)"
proof (cases ctx)
  case (Some err)
  then show ?thesis by (simp add: Take_cancelled)
next
  case None
  have live: "map_of (rl_live t (rl_entries s)) k' = map_of (rl_entries s) k'
      \<or> (\<exists>e. map_of (rl_entries s) k' = Some e \<and> rl_resetAt e \<le> t
          \<and> map_of (rl_live t (rl_entries s)) k' = None)"
    using assms by (auto simp: rl_live_facts(4) rl_inv_def split: option.splits)
  show ?thesis
    using assms(2) live None
    by (cases rule: Take_cases [where s = s and k = k and t = t and p = p])
      (auto simp: gomap_lookup)
qed

lemma Take_live_kept:
  assumes "rl_inv s" and "map_of (rl_entries s) k' = Some e" and "t < rl_resetAt e"
  shows "\<exists>e'. map_of (rl_entries (snd (MemoryStore_Take ctx k p t s))) k' = Some e'
     \<and> rl_resetAt e' = rl_resetAt e \<and> rl_count e \<le> rl_count e'"
proof (cases "k' = k")
  case False
  with Take_other_key [OF assms(1) False, of ctx p t] assms show ?thesis by auto
next
  case True
  show ?thesis
  proof (cases ctx)
    case None
    with assms True show ?thesis
      by (cases rule: Take_cases [where s = s and k = k and t = t and p = p])
        (auto simp: gomap_lookup)
  qed (use assms True in \<open>simp add: Take_cancelled\<close>)
qed

section \<open>The contract of a Store, and the limiter over it\<close>

definition valid_policy :: "rl_policy \<Rightarrow> bool" where
  "valid_policy p \<longleftrightarrow> 1 \<le> Limit p \<and> 0 < Window p"

lemma Limiter_New_valid: "Limiter_New store p = Inr lim \<Longrightarrow> valid_policy (lim_policy lim) \<and> lim_store lim \<noteq> None"
  by (auto simp: Limiter_New_def valid_policy_def split: if_splits)

locale ratelimit_store =
  fixes store :: "'s rl_store"
    and used :: "'s \<Rightarrow> string \<Rightarrow> time \<Rightarrow> int"
    and ok :: "'s \<Rightarrow> bool"
  assumes take_ok: "ok s \<Longrightarrow> ok (snd (store_Take store ctx k p t s))"
    and take_answers: "\<exists>d. fst (store_Take store None k p t s) = Inr d"
    and take_allowed: "ok s \<Longrightarrow> valid_policy p \<Longrightarrow> fst (store_Take store None k p t s) = Inr d \<Longrightarrow>
        Allowed d \<Longrightarrow> used s k t < Limit p
          \<and> used (snd (store_Take store None k p t s)) k t = used s k t + 1"
    and take_denied: "ok s \<Longrightarrow> valid_policy p \<Longrightarrow> 0 \<le> t \<Longrightarrow>
        fst (store_Take store None k p t s) = Inr d \<Longrightarrow> \<not> Allowed d \<Longrightarrow>
        used (snd (store_Take store None k p t s)) k t = used s k t \<and> 0 < RetryAfter d"
    and take_others: "ok s \<Longrightarrow> k' \<noteq> k \<Longrightarrow>
        used (snd (store_Take store None k p t s)) k' t = used s k' t"
    and reset_used: "ok s \<Longrightarrow> used (snd (store_Reset store None k s)) k t = 0"
begin

lemma Enforce_allowed:
  assumes "ok s" and "lim_store lim = Some store" and "valid_policy (lim_policy lim)"
    and "Limiter_Enforce (Some lim) None t k (h, s) = (Inr (), h', s')"
  shows "h' = h \<and> used s k t < Limit (lim_policy lim) \<and> used s' k t = used s k t + 1"
proof -
  from assms(2,4) obtain d where "store_Take store None k (lim_policy lim) t s = (Inr d, s')"
    and "Allowed d" and "h' = h"
    by (auto simp: Limiter_Enforce_def Limiter_Take_def split: prod.splits sum.splits if_splits)
  with take_allowed [OF assms(1,3), of k t d] show ?thesis by simp
qed

lemma Enforce_rejects:
  assumes "ok s" and "lim_store lim = Some store" and "TrimSpace k \<noteq> []"
    and "valid_policy (lim_policy lim)" and "Limit (lim_policy lim) \<le> used s k t" and "0 \<le> t"
  shows "\<exists>d s'. Limiter_Enforce (Some lim) None t k (h, s)
      = (Inl (HTTPError 429 ''too many requests''),
         AList.update ''Retry-After'' (Itoa (retryAfterSeconds d)) h, s')
      \<and> 0 < d \<and> used s' k t = used s k t"
proof -
  obtain d s' where d: "store_Take store None k (lim_policy lim) t s = (Inr d, s')"
    using take_answers by (metis prod.collapse)
  with take_allowed [OF assms(1,4), of k t d] assms(5) have "\<not> Allowed d" by auto
  with d assms(2,3) take_denied [OF assms(1,4,6), of k d] show ?thesis
    by (intro exI [of _ "RetryAfter d"] exI [of _ s'])
      (auto simp: Limiter_Enforce_def Limiter_Take_def)
qed

end

lemma rl_used_Take_others:
  assumes "rl_inv s" and "k' \<noteq> k"
  shows "rl_used (snd (MemoryStore_Take ctx k p t s)) k' t = rl_used s k' t"
  using Take_other_key [OF assms, of ctx p t] by (auto simp: rl_used_def)

lemma full_retry_pos:
  assumes "rl_inv s" and "0 \<le> t" and "valid_policy p"
    and "rl_capacity s \<le> int (length (rl_live t (rl_entries s)))"
    and "e = fst (expire_loop t 0 (rl_entries s))"
  shows "t < e" and "\<exists>k x. map_of (rl_entries s) k = Some x \<and> rl_resetAt x = e"
proof -
  from assms(1,4) have "rl_live t (rl_entries s) \<noteq> []" by (auto simp: rl_inv_def)
  with expire_loop_earliest [OF assms(2), of 0 "rl_entries s"] assms(5)
  show "t < e" by auto
  with expire_loop_earliest [OF assms(2), of 0 "rl_entries s"] assms(2,5)
  obtain k x where "(k, x) \<in> set (rl_live t (rl_entries s))" "rl_resetAt x = e" by auto
  moreover from this have "map_of (rl_entries s) k = Some x"
    using assms(1) rl_live_facts(1) by (auto simp: rl_inv_def map_of_eq_Some_iff)
  ultimately show "\<exists>k x. map_of (rl_entries s) k = Some x \<and> rl_resetAt x = e" by blast
qed

interpretation mrl: ratelimit_store memory_rl_store rl_used rl_inv
proof unfold_locales
  fix s ctx k p t d k'
  show "rl_inv s \<Longrightarrow> rl_inv (snd (store_Take memory_rl_store ctx k p t s))"
    by (simp add: memory_rl_store_def rl_inv_Take)
  show "\<exists>d. fst (store_Take memory_rl_store None k p t s) = Inr d"
    by (cases rule: Take_cases [where s = s and k = k and t = t and p = p])
      (simp_all add: memory_rl_store_def)
  show "rl_inv s \<Longrightarrow> k' \<noteq> k \<Longrightarrow>
      rl_used (snd (store_Take memory_rl_store None k p t s)) k' t = rl_used s k' t"
    by (simp add: memory_rl_store_def rl_used_Take_others)
  show "rl_inv s \<Longrightarrow> rl_used (snd (store_Reset memory_rl_store None k s)) k t = 0"
    by (simp add: memory_rl_store_def MemoryStore_Reset_def rl_used_def gomap_lookup)
  show "rl_used s k t < Limit p
      \<and> rl_used (snd (store_Take memory_rl_store None k p t s)) k t = rl_used s k t + 1"
    if "rl_inv s" "valid_policy p" "fst (store_Take memory_rl_store None k p t s) = Inr d" "Allowed d"
    using that
    by (cases rule: Take_cases [where s = s and k = k and t = t and p = p])
      (auto simp: memory_rl_store_def rl_used_def valid_policy_def gomap_lookup)
  show "rl_used (snd (store_Take memory_rl_store None k p t s)) k t = rl_used s k t \<and> 0 < RetryAfter d"
    if "rl_inv s" "valid_policy p" "0 \<le> t" "fst (store_Take memory_rl_store None k p t s) = Inr d"
      "\<not> Allowed d"
  proof (cases rule: Take_cases [where s = s and k = k and t = t and p = p])
    case (exhausted e)
    with that show ?thesis by (auto simp: memory_rl_store_def time_sub_pos)
  next
    case (full d')
    have "map_of (rl_live t (rl_entries s)) k = None"
      using that(1) full(1) by (simp add: rl_live_facts(4) rl_inv_def)
    with full that full_retry_pos(1) [OF that(1,3,2) full(2) refl] show ?thesis
      by (auto simp: memory_rl_store_def rl_used_def time_sub_pos Let_def valid_policy_def)
  qed (use that in \<open>auto simp: memory_rl_store_def\<close>)
qed

section \<open>Windows over a run of calls\<close>

text \<open>A run of \<open>Take\<close> calls on one store with one policy, and the attempts it grants to a key.\<close>

fun run_takes :: "rl_policy \<Rightarrow> (string \<times> time) list \<Rightarrow> rl_memory \<Rightarrow> (string \<times> time \<times> bool) list" where
  "run_takes p [] s = []"
| "run_takes p ((k, t) # calls) s =
     (case MemoryStore_Take None k p t s of
        (Inr d, s') \<Rightarrow> (k, t, Allowed d) # run_takes p calls s'
      | (Inl _, s') \<Rightarrow> run_takes p calls s')"

definition granted :: "string \<Rightarrow> time \<Rightarrow> time \<Rightarrow> (string \<times> time \<times> bool) list \<Rightarrow> int" where
  "granted k from until tr =
     int (length (filter (\<lambda>(k', t, a). k' = k \<and> a \<and> from \<le> t \<and> t < until) tr))"

text \<open>
  An upper bound on the attempts that key \<open>k\<close> can still be granted within
  \<open>[T, T + Window)\<close> from a state at time \<open>t\<close>: the rest of its current window and, where that
  window ends inside the interval, one more window.
\<close>

definition allowance :: "rl_policy \<Rightarrow> rl_memory \<Rightarrow> string \<Rightarrow> time \<Rightarrow> time \<Rightarrow> int" where
  "allowance p s k T t =
     (if T + Window p \<le> t then 0
      else case map_of (rl_entries s) k of
             None \<Rightarrow> if T \<le> t then Limit p else 2 * Limit p
           | Some e \<Rightarrow>
               if T + Window p \<le> rl_resetAt e then Limit p - rl_count e
               else if T < rl_resetAt e then Limit p - rl_count e + Limit p
               else if T \<le> t then Limit p else 2 * Limit p)"

definition rl_counts :: "rl_policy \<Rightarrow> rl_memory \<Rightarrow> bool" where
  "rl_counts p s \<longleftrightarrow>
     (\<forall>k e. map_of (rl_entries s) k = Some e \<longrightarrow> 0 \<le> rl_count e \<and> rl_count e \<le> Limit p)"

lemma rl_counts_Take:
  assumes "rl_inv s" and "rl_counts p s" and "valid_policy p"
  shows "rl_counts p (snd (MemoryStore_Take None k p t s))"
  unfolding rl_counts_def
proof (intro allI impI)
  fix k' e'
  assume e': "map_of (rl_entries (snd (MemoryStore_Take None k p t s))) k' = Some e'"
  show "0 \<le> rl_count e' \<and> rl_count e' \<le> Limit p"
  proof (cases "k' = k")
    case False
    then show ?thesis using Take_other_key [OF assms(1) False, of None p t] e' assms(2)
      by (auto simp: rl_counts_def)
  next
    case True
    with e' assms show ?thesis
      by (cases rule: Take_cases [where s = s and k = k and t = t and p = p])
        (auto simp: rl_counts_def valid_policy_def gomap_lookup rl_inv_def rl_live_facts(4))
  qed
qed

lemma allowance_nonneg: "rl_counts p s \<Longrightarrow> valid_policy p \<Longrightarrow> 0 \<le> allowance p s k T t"
  by (cases "map_of (rl_entries s) k")
    (fastforce simp: allowance_def rl_counts_def valid_policy_def)+

lemma allowance_step:
  assumes "rl_inv s" and "rl_counts p s" and "valid_policy p" and "t0 \<le> t"
    and "MemoryStore_Take None k' p t s = (Inr d, s')"
  shows "allowance p s' k T t + (if k' = k \<and> Allowed d \<and> T \<le> t \<and> t < T + Window p then 1 else 0)
     \<le> allowance p s k T t0"
proof (cases "k' = k")
  case False
  have "map_of (rl_entries s') k = map_of (rl_entries s) k
    \<or> (\<exists>e. map_of (rl_entries s) k = Some e \<and> rl_resetAt e \<le> t \<and> map_of (rl_entries s') k = None)"
    using Take_other_key [OF assms(1), of k k' None p t] False assms(5) by simp
  moreover have "rl_count e \<le> Limit p \<and> 0 \<le> rl_count e" if "map_of (rl_entries s) k = Some e" for e
    using assms(2) that by (simp add: rl_counts_def)
  ultimately show ?thesis using False assms(3,4)
    by (fastforce simp: allowance_def valid_policy_def split: option.splits)
next
  case True
  from assms(1) have wf: "map_wf (rl_entries s)" by (simp add: rl_inv_def)
  have "rl_count e \<le> Limit p \<and> 0 \<le> rl_count e" if "map_of (rl_entries s) k = Some e" for e
    using assms(2) that by (simp add: rl_counts_def)
  with assms(3,4,5) True wf show ?thesis
    by (cases rule: Take_cases [where s = s and k = k' and t = t and p = p])
      (fastforce simp: allowance_def valid_policy_def gomap_lookup rl_live_facts(4))+
qed

lemma granted_le_allowance:
  assumes "rl_inv s" and "rl_counts p s" and "valid_policy p" and "sorted (t0 # map snd calls)"
  shows "granted k T (T + Window p) (run_takes p calls s) \<le> allowance p s k T t0"
  using assms
proof (induction calls arbitrary: s t0)
  case Nil
  then show ?case by (simp add: granted_def allowance_nonneg)
next
  case (Cons call calls)
  obtain k' t where call: "call = (k', t)" by (cases call)
  obtain d s' where tk: "MemoryStore_Take None k' p t s = (Inr d, s')"
    using mrl.take_answers [of k' p t s] by (auto simp: memory_rl_store_def prod_eq_iff)
  have inv': "rl_inv s'" "rl_counts p s'"
    using rl_inv_Take [OF Cons.prems(1), of None k' p t] rl_counts_Take [OF Cons.prems(1-3), of k' t] tk
    by simp_all
  have "granted k T (T + Window p) (run_takes p calls s') \<le> allowance p s' k T t"
    using Cons.IH [OF inv' Cons.prems(3), of t] Cons.prems(4) call by simp
  moreover have "granted k T (T + Window p) (run_takes p (call # calls) s) =
      granted k T (T + Window p) (run_takes p calls s')
      + (if k' = k \<and> Allowed d \<and> T \<le> t \<and> t < T + Window p then 1 else 0)"
    by (simp add: call tk granted_def)
  ultimately show ?case
    using allowance_step [OF Cons.prems(1-3) _ tk, of t0 k T] Cons.prems(4) call by simp
qed

text \<open>C3: Over any run of \<open>Take\<close> calls of a fresh store, for any keys and with a clock that does
  not go back, a key is granted at most twice the limit in any interval as long as the window
  (fixed windows may meet inside the interval), however many other keys are sprayed at the
  store and whatever its capacity.
\<close>

theorem ratelimit_window_bound:
  assumes "valid_policy p" and "sorted (map snd calls)"
  shows "granted k T (T + Window p) (run_takes p calls (NewMemoryStore c)) \<le> 2 * Limit p"
proof -
  define t0 where "t0 = (case calls of [] \<Rightarrow> 0 | (k', t) # _ \<Rightarrow> t)"
  have "sorted (t0 # map snd calls)"
    using assms(2) by (cases calls) (auto simp: t0_def case_prod_beta)
  moreover have "rl_counts p (NewMemoryStore c)"
    by (simp add: rl_counts_def NewMemoryStore_def)
  ultimately have "granted k T (T + Window p) (run_takes p calls (NewMemoryStore c))
      \<le> allowance p (NewMemoryStore c) k T t0"
    using granted_le_allowance [OF rl_inv_New _ assms(1)] by blast
  also have "\<dots> \<le> 2 * Limit p"
    using assms(1) by (auto simp: allowance_def NewMemoryStore_def valid_policy_def)
  finally show ?thesis .
qed

theorem ratelimit_window_bound_witness:
  "granted ''a'' 0 10 (run_takes \<lparr>Limit = 1, Window = 10\<rparr> [(''a'', 1), (''a'', 2), (''b'', 3)] (NewMemoryStore 1))
     \<le> 2 * Limit \<lparr>Limit = 1, Window = 10\<rparr>"
  using ratelimit_window_bound [of "\<lparr>Limit = 1, Window = 10\<rparr>"
      "[(''a'', 1), (''a'', 2), (''b'', 3)]" "''a''" 0 1]
  by (simp add: valid_policy_def)

text \<open>C4: The store is bounded and fails closed: a \<open>Take\<close> never lets it grow past its capacity,
  never drops or weakens the entry of a key whose window is still open, and when the store is
  full of open windows it refuses an unseen key instead of evicting one.
\<close>

theorem ratelimit_fails_closed:
  assumes "rl_inv s"
  shows "rl_inv (snd (MemoryStore_Take ctx k p t s))
     \<and> (\<forall>k' e. map_of (rl_entries s) k' = Some e \<and> t < rl_resetAt e \<longrightarrow>
          (\<exists>e'. map_of (rl_entries (snd (MemoryStore_Take ctx k p t s))) k' = Some e'
             \<and> rl_resetAt e' = rl_resetAt e \<and> rl_count e \<le> rl_count e'))
     \<and> (map_of (rl_entries s) k = None \<and> rl_capacity s \<le> int (length (rl_live t (rl_entries s)))
          \<and> fst (MemoryStore_Take ctx k p t s) = Inr d \<longrightarrow> \<not> Allowed d)"
proof (intro conjI allI impI)
  show "rl_inv (snd (MemoryStore_Take ctx k p t s))" by (rule rl_inv_Take [OF assms])
  show "\<exists>e'. map_of (rl_entries (snd (MemoryStore_Take ctx k p t s))) k' = Some e'
      \<and> rl_resetAt e' = rl_resetAt e \<and> rl_count e \<le> rl_count e'"
    if "map_of (rl_entries s) k' = Some e \<and> t < rl_resetAt e" for k' e
    using Take_live_kept [OF assms] that by blast
  assume full: "map_of (rl_entries s) k = None \<and> rl_capacity s \<le> int (length (rl_live t (rl_entries s)))
      \<and> fst (MemoryStore_Take ctx k p t s) = Inr d"
  then have "ctx = None" by (cases ctx) (auto simp: Take_cancelled)
  with full rl_live_facts(2) [of t "rl_entries s"] show "\<not> Allowed d"
    by (cases rule: Take_cases [where s = s and k = k and t = t and p = p]) auto
qed

theorem ratelimit_fails_closed_witness:
  "\<not> Allowed (projr (fst (MemoryStore_Take None ''b'' \<lparr>Limit = 2, Window = 10\<rparr> 5
      \<lparr>rl_entries = [(''a'', \<lparr>rl_count = 1, rl_resetAt = 9\<rparr>)], rl_capacity = 1\<rparr>)))"
proof -
  let ?s = "\<lparr>rl_entries = [(''a'', \<lparr>rl_count = 1, rl_resetAt = 9\<rparr>)], rl_capacity = 1\<rparr>"
  have "rl_inv ?s" by (simp add: rl_inv_def)
  moreover have "fst (MemoryStore_Take None ''b'' \<lparr>Limit = 2, Window = 10\<rparr> 5 ?s) = Inr (rl_deny 4)"
    by (simp add: MemoryStore_Take_def Let_def is_zero_time_def time_sub_def max_int64_def min_int64_def)
  ultimately show ?thesis
    using ratelimit_fails_closed [of ?s None "''b''" "\<lparr>Limit = 2, Window = 10\<rparr>" 5 "rl_deny 4"]
    by (simp add: rl_live_def)
qed

text \<open>C5: \<open>RetryAfter\<close> is honest: a caller that was refused, waits exactly that long and tries
  again is admitted, both when its own window was exhausted and when the store was full, if
  nobody else used the store meanwhile. (The reset times are within a representable duration
  of the present, as every window length is.)
\<close>

theorem ratelimit_retry_admitted:
  assumes "rl_inv s" and "valid_policy p" and "0 \<le> t"
    and "\<forall>k e. map_of (rl_entries s) k = Some e \<longrightarrow> rl_resetAt e - t \<le> max_int64"
    and "MemoryStore_Take None k p t s = (Inr d, s')" and "\<not> Allowed d"
  shows "0 < RetryAfter d \<and> fst (MemoryStore_Take None k p (t + RetryAfter d) s') = Inr rl_allow"
proof -
  have pos: "0 < RetryAfter d"
    using mrl.take_denied [OF assms(1,2,3), of k d] assms(5,6) by (simp add: memory_rl_store_def)
  have exact: "time_sub (rl_resetAt e) t = rl_resetAt e - t"
    if "map_of (rl_entries s) k' = Some e" "t < rl_resetAt e" for k' e
    using assms(4) that by (auto intro!: time_sub_exact simp: in_int64_def min_int64_def)
  show ?thesis
  proof (cases rule: Take_cases [where s = s and k = k and t = t and p = p])
    case (exhausted e)
    with assms(5) exact have "s' = s" "t + RetryAfter d = rl_resetAt e" by auto
    with pos exhausted(1) show ?thesis by (simp add: MemoryStore_Take_def Let_def)
  next
    case (full d')
    define e where "e = fst (expire_loop t 0 (rl_entries s))"
    note pr = full_retry_pos [OF assms(1,3,2) full(2) e_def]
    from pr(2) obtain k1 x where x: "map_of (rl_entries s) k1 = Some x" "rl_resetAt x = e" by blast
    from pr(1) assms(3) have "e \<noteq> 0" by simp
    with full(3,4) assms(5) exact [OF x(1)] x(2) pr(1)
    have d: "t + RetryAfter d = e" and s': "s' = s\<lparr>rl_entries := rl_live t (rl_entries s)\<rparr>"
      by (auto simp: Let_def simp flip: e_def)
    have wf: "map_wf (rl_entries s)" using assms(1) by (simp add: rl_inv_def)
    have k1: "map_of (rl_entries s') k1 = Some x" and kn: "map_of (rl_entries s') k = None"
      using x pr(1) full(1) by (simp_all add: s' rl_live_facts(4) [OF wf])
    have "(k1, x) \<in> set (rl_entries s')" using map_of_SomeD [OF k1] .
    then have "length (rl_live e (rl_entries s')) < length (rl_entries s')"
      using length_filter_less [of "(k1, x)" "rl_entries s'" "\<lambda>(k, y). e < rl_resetAt y"] x(2)
      unfolding rl_live_def by auto
    also have "int (length (rl_entries s')) \<le> rl_capacity s'"
      using rl_inv_Take [OF assms(1), of None k p t] assms(5) by (simp add: rl_inv_def)
    finally have room: "int (length (rl_live e (rl_entries s'))) < rl_capacity s'" by linarith
    show ?thesis
      using pos room kn d
      by (cases rule: Take_cases [where s = s' and k = k and t = e and p = p]) auto
  qed (use assms(5,6) in auto)
qed

theorem ratelimit_retry_admitted_witness:
  "let p = \<lparr>Limit = 1, Window = 10\<rparr>;
       s = \<lparr>rl_entries = [(''a'', \<lparr>rl_count = 1, rl_resetAt = 9\<rparr>)], rl_capacity = 1\<rparr>
   in fst (MemoryStore_Take None ''a'' p 5 s) = Inr (rl_deny 4)
      \<and> fst (MemoryStore_Take None ''a'' p 9 s) = Inr rl_allow"
proof -
  let ?p = "\<lparr>Limit = 1, Window = 10\<rparr>"
  let ?s = "\<lparr>rl_entries = [(''a'', \<lparr>rl_count = 1, rl_resetAt = 9\<rparr>)], rl_capacity = 1\<rparr>"
  have deny: "MemoryStore_Take None ''a'' ?p 5 ?s = (Inr (rl_deny 4), ?s)"
    by (simp add: MemoryStore_Take_def Let_def time_sub_def max_int64_def min_int64_def)
  have "rl_inv ?s" "valid_policy ?p" by (simp_all add: rl_inv_def valid_policy_def)
  from ratelimit_retry_admitted [OF this, of 5 "''a''" "rl_deny 4" ?s, OF _ _ deny]
  show ?thesis using deny by (auto simp: Let_def max_int64_def split: if_splits)
qed



end
