(* ===== verification/Session.thy ===== *)
theory Session
  imports Go_Strings
begin

text \<open>
  The package \<open>session\<close>: the in-process store (\<^verbatim>\<open>src/session/memory.go\<close>) and the manager of
  signed-ID, server-side sessions (\<^verbatim>\<open>src/session/session.go\<close>), written against the \<open>Store\<close>
  interface. The manager's clock reading, its random bytes and the keyed hash HMAC-SHA-256 are
  arguments; the encoded payload is an opaque type \<open>'b\<close> with the encoder \<open>enc\<close> and the decoder
  \<open>dec\<close> of \<open>encoding/json\<close>. A \<open>Set-Cookie\<close> header line is a cookie or, where
  \<open>http.ParseSetCookie\<close> fails on it, a raw line.
\<close>

definition ErrNotFound :: goerr where
  "ErrNotFound = Sentinel ''session.ErrNotFound''"

definition ErrExists :: goerr where
  "ErrExists = Sentinel ''session.ErrExists''"

lemma session_errors_distinct [simp]:
  "ErrNotFound \<noteq> ErrExists" "ErrExists \<noteq> ErrNotFound"
  "errors_is ErrExists ErrNotFound \<longleftrightarrow> False" "errors_is ErrNotFound ErrNotFound \<longleftrightarrow> True"
  by (simp_all add: ErrNotFound_def ErrExists_def)

section \<open>The Store interface and the memory store\<close>

record ('b, 's) session_store =
  ss_Get :: "string \<Rightarrow> 's \<Rightarrow> 'b result \<times> 's"
  ss_Create :: "string \<Rightarrow> 'b \<Rightarrow> time \<Rightarrow> 's \<Rightarrow> unit result \<times> 's"
  ss_Update :: "string \<Rightarrow> 'b \<Rightarrow> time \<Rightarrow> 's \<Rightarrow> unit result \<times> 's"
  ss_Rotate :: "string \<Rightarrow> string \<Rightarrow> 'b \<Rightarrow> time \<Rightarrow> 's \<Rightarrow> unit result \<times> 's"
  ss_Delete :: "string \<Rightarrow> 's \<Rightarrow> unit result \<times> 's"

record 'b sess_entry =
  se_value :: 'b
  se_expiresAt :: time

record 'b sess_memory =
  sm_entries :: "string \<rightharpoonup> 'b sess_entry"
  sm_now :: time

definition SessionMem_New :: "time \<Rightarrow> 'b sess_memory" where
  "SessionMem_New t = \<lparr>sm_entries = Map.empty, sm_now = t\<rparr>"

definition SessionMem_Get :: "string \<Rightarrow> 'b sess_memory \<Rightarrow> 'b result \<times> 'b sess_memory" where
  "SessionMem_Get sid s =
     (case sm_entries s sid of
        None \<Rightarrow> (Inl ErrNotFound, s)
      | Some entry \<Rightarrow>
          if \<not> sm_now s < se_expiresAt entry
          then (Inl ErrNotFound, s\<lparr>sm_entries := (sm_entries s)(sid := None)\<rparr>)
          else (Inr (se_value entry), s))"

definition SessionMem_Create ::
    "string \<Rightarrow> 'b \<Rightarrow> time \<Rightarrow> 'b sess_memory \<Rightarrow> unit result \<times> 'b sess_memory" where
  "SessionMem_Create sid val expiresAt s =
     (let store = s\<lparr>sm_entries := (sm_entries s)(sid \<mapsto> \<lparr>se_value = val, se_expiresAt = expiresAt\<rparr>)\<rparr>
      in case sm_entries s sid of
           Some entry \<Rightarrow> if sm_now s < se_expiresAt entry then (Inl ErrExists, s) else (Inr (), store)
         | None \<Rightarrow> (Inr (), store))"

definition SessionMem_Update ::
    "string \<Rightarrow> 'b \<Rightarrow> time \<Rightarrow> 'b sess_memory \<Rightarrow> unit result \<times> 'b sess_memory" where
  "SessionMem_Update sid val expiresAt s =
     (case sm_entries s sid of
        None \<Rightarrow> (Inl ErrNotFound, s)
      | Some entry \<Rightarrow>
          if \<not> sm_now s < se_expiresAt entry
          then (Inl ErrNotFound, s\<lparr>sm_entries := (sm_entries s)(sid := None)\<rparr>)
          else (Inr (), s\<lparr>sm_entries :=
                  (sm_entries s)(sid \<mapsto> \<lparr>se_value = val, se_expiresAt = expiresAt\<rparr>)\<rparr>))"

definition SessionMem_Rotate ::
    "string \<Rightarrow> string \<Rightarrow> 'b \<Rightarrow> time \<Rightarrow> 'b sess_memory \<Rightarrow> unit result \<times> 'b sess_memory" where
  "SessionMem_Rotate oldID newID val expiresAt s =
     (let rotated = (Inr (), s\<lparr>sm_entries :=
            ((sm_entries s)(newID \<mapsto> \<lparr>se_value = val, se_expiresAt = expiresAt\<rparr>))(oldID := None)\<rparr>)
      in case sm_entries s oldID of
           None \<Rightarrow> (Inl ErrNotFound, s)
         | Some oldEntry \<Rightarrow>
             if \<not> sm_now s < se_expiresAt oldEntry
             then (Inl ErrNotFound, s\<lparr>sm_entries := (sm_entries s)(oldID := None)\<rparr>)
             else (case sm_entries s newID of
                     Some newEntry \<Rightarrow>
                       if sm_now s < se_expiresAt newEntry then (Inl ErrExists, s) else rotated
                   | None \<Rightarrow> rotated))"

definition SessionMem_Delete :: "string \<Rightarrow> 'b sess_memory \<Rightarrow> unit result \<times> 'b sess_memory" where
  "SessionMem_Delete sid s = (Inr (), s\<lparr>sm_entries := (sm_entries s)(sid := None)\<rparr>)"

definition memory_session_store :: "('b, 'b sess_memory) session_store" where
  "memory_session_store =
     \<lparr>ss_Get = SessionMem_Get, ss_Create = SessionMem_Create, ss_Update = SessionMem_Update,
      ss_Rotate = SessionMem_Rotate, ss_Delete = SessionMem_Delete\<rparr>"

section \<open>Manager, sessions and responses\<close>

record cookie_config =
  ck_Name :: string
  ck_Path :: string
  ck_Domain :: string
  ck_UnsafeAllowHTTP :: bool
  ck_UnsafeAllowJavaScript :: bool
  ck_SameSite :: int

record session_policy =
  IdleLifetime :: duration
  AbsoluteLifetime :: duration

record manager =
  mg_secret :: bytes
  mg_cookie :: cookie_config
  mg_policy :: session_policy

type_synonym raw_values = "string \<rightharpoonup> bytes"

record payload =
  pl_IssuedAt :: time
  pl_Values :: raw_values
  pl_Flash :: raw_values

record session =
  s_id :: string
  s_persistedID :: string
  s_values :: raw_values
  s_oldFlash :: raw_values
  s_newFlash :: raw_values
  s_issuedAt :: time
  s_createOnMissingRotation :: bool

record http_cookie =
  hc_Name :: string
  hc_Value :: string
  hc_Path :: string
  hc_Domain :: string
  hc_Expires :: time
  hc_MaxAge :: int
  hc_Secure :: bool
  hc_HttpOnly :: bool
  hc_SameSite :: int

datatype cookie_line = CookieLine http_cookie | RawLine string

record response =
  rs_written :: "bool option"
  rs_setCookie :: "cookie_line list"

definition NewManagerWithPolicy ::
    "bool \<Rightarrow> bytes \<Rightarrow> cookie_config \<Rightarrow> session_policy \<Rightarrow> manager result" where
  "NewManagerWithPolicy store_nil secret cookie policy =
     (if store_nil then Inl (Errorf ''session store is required'' [])
      else if length secret < 32 then Inl (Errorf ''session secret must be at least 32 bytes'' [])
      else if IdleLifetime policy \<le> 0 then Inl (Errorf ''session idle lifetime must be positive'' [])
      else if AbsoluteLifetime policy < 0
      then Inl (Errorf ''session absolute lifetime cannot be negative'' [])
      else if AbsoluteLifetime policy > 0 \<and> AbsoluteLifetime policy < IdleLifetime policy
      then Inl (Errorf ''session absolute lifetime cannot be shorter than idle lifetime'' [])
      else Inr \<lparr>mg_secret = secret,
                mg_cookie = cookie\<lparr>
                  ck_Name := (if ck_Name cookie = [] then ''goforge_session'' else ck_Name cookie),
                  ck_Path := (if ck_Path cookie = [] then ''/'' else ck_Path cookie),
                  ck_SameSite := (if ck_SameSite cookie = 0 then 2 else ck_SameSite cookie)\<rparr>,
                mg_policy = policy\<rparr>)"

definition NewManager ::
    "bool \<Rightarrow> bytes \<Rightarrow> cookie_config \<Rightarrow> duration \<Rightarrow> manager result" where
  "NewManager store_nil secret cookie lifetime =
     NewManagerWithPolicy store_nil secret cookie
       \<lparr>IdleLifetime = (if lifetime \<le> 0 then 2 * hour else lifetime), AbsoluteLifetime = 0\<rparr>"

definition session_newID :: "bytes result \<Rightarrow> string result" where
  "session_newID rnd =
     (case rnd of
        Inl err \<Rightarrow> Inl (Wrapf ''generate session ID: %w'' [] err)
      | Inr value32 \<Rightarrow> Inr (hex_encode value32))"

definition Manager_sign :: "(bytes \<Rightarrow> bytes \<Rightarrow> bytes) \<Rightarrow> manager \<Rightarrow> string \<Rightarrow> string" where
  "Manager_sign hmac mg sid = sid @ CHR ''.'' # base64_encode (hmac (mg_secret mg) sid)"

definition Manager_verify :: "(bytes \<Rightarrow> bytes \<Rightarrow> bytes) \<Rightarrow> manager \<Rightarrow> string \<Rightarrow> string" where
  "Manager_verify hmac mg val =
     (case cut CHR ''.'' val of
        None \<Rightarrow> ''''
      | Some (sid, signature) \<Rightarrow>
          if length sid \<noteq> 64 then ''''
          else (case base64_decode signature of
                  None \<Rightarrow> ''''
                | Some provided \<Rightarrow>
                    if provided \<noteq> hmac (mg_secret mg) sid then ''''
                    else if \<not> hex_ok sid then '''' else sid))"

definition absoluteExpired :: "manager \<Rightarrow> time \<Rightarrow> time \<Rightarrow> bool" where
  "absoluteExpired mg issuedAt now \<longleftrightarrow>
     AbsoluteLifetime (mg_policy mg) > 0 \<and> \<not> now < issuedAt + AbsoluteLifetime (mg_policy mg)"

definition Manager_fresh :: "bytes result \<Rightarrow> time \<Rightarrow> session result" where
  "Manager_fresh rnd now =
     (case session_newID rnd of
        Inl err \<Rightarrow> Inl err
      | Inr sid \<Rightarrow> Inr \<lparr>s_id = sid, s_persistedID = [], s_values = Map.empty, s_oldFlash = Map.empty,
                       s_newFlash = Map.empty, s_issuedAt = now, s_createOnMissingRotation = False\<rparr>)"

definition cookieMaxAge :: "duration \<Rightarrow> int" where
  "cookieMaxAge remaining =
     (let seconds = remaining sdiv second in if remaining \<le> 0 \<or> seconds = 0 then -1 else seconds)"

text \<open>\<open>http.SetCookie\<close> writes no header for a cookie whose name is not a token.\<close>

definition token_char :: "char \<Rightarrow> bool" where
  "token_char c \<longleftrightarrow> (let n = (of_char c :: nat) in
     (48 \<le> n \<and> n \<le> 57) \<or> (65 \<le> n \<and> n \<le> 90) \<or> (97 \<le> n \<and> n \<le> 122)
     \<or> c \<in> set ''!#$%&*+-.^_`|~'' \<or> n = 39)"

definition valid_cookie_name :: "string \<Rightarrow> bool" where
  "valid_cookie_name name \<longleftrightarrow> name \<noteq> [] \<and> list_all token_char name"

fun line_is :: "string \<Rightarrow> cookie_line \<Rightarrow> bool" where
  "line_is name (CookieLine c) \<longleftrightarrow> hc_Name c = name"
| "line_is name (RawLine l) \<longleftrightarrow> False"

definition removeCookie :: "manager \<Rightarrow> response \<Rightarrow> response" where
  "removeCookie mg r =
     r\<lparr>rs_setCookie := filter (\<lambda>l. \<not> line_is (ck_Name (mg_cookie mg)) l) (rs_setCookie r)\<rparr>"

definition setCookie :: "manager \<Rightarrow> http_cookie \<Rightarrow> response \<Rightarrow> response" where
  "setCookie mg c r =
     (let r' = removeCookie mg r in
      if valid_cookie_name (hc_Name c) then r'\<lparr>rs_setCookie := rs_setCookie r' @ [CookieLine c]\<rparr> else r')"

definition Manager_cookie :: "manager \<Rightarrow> string \<Rightarrow> time \<Rightarrow> int \<Rightarrow> http_cookie" where
  "Manager_cookie mg val expires maxAge =
     \<lparr>hc_Name = ck_Name (mg_cookie mg), hc_Value = val, hc_Path = ck_Path (mg_cookie mg),
      hc_Domain = ck_Domain (mg_cookie mg), hc_Expires = expires, hc_MaxAge = maxAge,
      hc_Secure = (\<not> ck_UnsafeAllowHTTP (mg_cookie mg)),
      hc_HttpOnly = (\<not> ck_UnsafeAllowJavaScript (mg_cookie mg)),
      hc_SameSite = ck_SameSite (mg_cookie mg)\<rparr>"

text \<open>\<open>time.Unix(1, 0)\<close>.\<close>
definition unix_one :: time where
  "unix_one = 62135596801 * second"

section \<open>Loading, saving, rotating and removing sessions\<close>

definition Manager_Load ::
    "('b, 's) session_store \<Rightarrow> (bytes \<Rightarrow> bytes \<Rightarrow> bytes) \<Rightarrow> ('b \<Rightarrow> payload result) \<Rightarrow> manager \<Rightarrow>
     bytes result \<Rightarrow> time \<Rightarrow> string option \<Rightarrow> 's \<Rightarrow> session result \<times> 's" where
  "Manager_Load S hmac dec mg rnd now cookie s =
     (let sid = (case cookie of Some val \<Rightarrow> Manager_verify hmac mg val | None \<Rightarrow> '''') in
      if sid = '''' then (Manager_fresh rnd now, s)
      else (case ss_Get S sid s of
        (Inl err, s1) \<Rightarrow>
          if errors_is err ErrNotFound then (Manager_fresh rnd now, s1)
          else (Inl (Wrapf ''load session: %w'' [] err), s1)
      | (Inr encoded, s1) \<Rightarrow>
          (case dec encoded of
             Inl err \<Rightarrow> (Inl (Wrapf ''decode session: %w'' [] err), s1)
           | Inr stored \<Rightarrow>
               let removed = (\<lambda>message. case ss_Delete S sid s1 of
                     (Inl err, s2) \<Rightarrow>
                       if \<not> errors_is err ErrNotFound then (Inl (Wrapf message [] err), s2)
                       else (Manager_fresh rnd now, s2)
                   | (Inr _, s2) \<Rightarrow> (Manager_fresh rnd now, s2));
                   loaded = (\<lambda>issuedAt. (Inr \<lparr>s_id = sid, s_persistedID = sid, s_values = pl_Values stored,
                     s_oldFlash = pl_Flash stored, s_newFlash = Map.empty, s_issuedAt = issuedAt,
                     s_createOnMissingRotation = False\<rparr>, s1))
               in if is_zero_time (pl_IssuedAt stored) then
                    (if AbsoluteLifetime (mg_policy mg) > 0
                     then removed ''remove session without issuance time: %w''
                     else if absoluteExpired mg now now
                     then removed ''remove absolutely expired session: %w'' else loaded now)
                  else if absoluteExpired mg (pl_IssuedAt stored) now
                  then removed ''remove absolutely expired session: %w''
                  else loaded (pl_IssuedAt stored))))"

definition clear_session :: "session \<Rightarrow> session" where
  "clear_session ses =
     \<lparr>s_id = [], s_persistedID = [], s_values = Map.empty, s_oldFlash = Map.empty,
      s_newFlash = Map.empty, s_issuedAt = 0, s_createOnMissingRotation = False\<rparr>"

definition Manager_invalidate ::
    "('b, 's) session_store \<Rightarrow> session option \<Rightarrow> 's \<Rightarrow> unit result \<times> session option \<times> 's" where
  "Manager_invalidate S sopt s =
     (case sopt of
        None \<Rightarrow> (Inr (), None, s)
      | Some ses \<Rightarrow>
          if s_id ses = [] then (Inr (), Some ses, s)
          else if s_persistedID ses \<noteq> [] then
            (case ss_Delete S (s_persistedID ses) s of
               (Inl err, s1) \<Rightarrow> if \<not> errors_is err ErrNotFound then (Inl err, Some ses, s1)
                               else (Inr (), Some (clear_session ses), s1)
             | (Inr _, s1) \<Rightarrow> (Inr (), Some (clear_session ses), s1))
          else (Inr (), Some (clear_session ses), s))"

definition Manager_expire ::
    "('b, 's) session_store \<Rightarrow> manager \<Rightarrow> response \<Rightarrow> session option \<Rightarrow> 's \<Rightarrow>
     unit result \<times> response \<times> session option \<times> 's" where
  "Manager_expire S mg r sopt s =
     (case Manager_invalidate S sopt s of
        (Inl err, sopt', s1) \<Rightarrow> (Inl err, r, sopt', s1)
      | (Inr _, sopt', s1) \<Rightarrow> (Inr (), setCookie mg (Manager_cookie mg [] unix_one (-1)) r, sopt', s1))"

definition Manager_persist ::
    "('b, 's) session_store \<Rightarrow> session \<Rightarrow> 'b \<Rightarrow> time \<Rightarrow> 's \<Rightarrow> unit result \<times> 's" where
  "Manager_persist S ses encoded expiresAt s =
     (if s_persistedID ses = [] then ss_Create S (s_id ses) encoded expiresAt s
      else if s_persistedID ses = s_id ses then ss_Update S (s_id ses) encoded expiresAt s
      else (case ss_Rotate S (s_persistedID ses) (s_id ses) encoded expiresAt s of
              (Inl err, s1) \<Rightarrow>
                if s_createOnMissingRotation ses \<and> errors_is err ErrNotFound
                then ss_Create S (s_id ses) encoded expiresAt s1 else (Inl err, s1)
            | (Inr _, s1) \<Rightarrow> (Inr (), s1)))"

definition save_deadline :: "manager \<Rightarrow> time \<Rightarrow> time \<Rightarrow> time" where
  "save_deadline mg issuedAt now =
     (let expiresAt = now + IdleLifetime (mg_policy mg) in
      if AbsoluteLifetime (mg_policy mg) > 0
      then (let absoluteDeadline = issuedAt + AbsoluteLifetime (mg_policy mg)
            in if absoluteDeadline < expiresAt then absoluteDeadline else expiresAt)
      else expiresAt)"

definition Manager_Save ::
    "('b, 's) session_store \<Rightarrow> (bytes \<Rightarrow> bytes \<Rightarrow> bytes) \<Rightarrow> (payload \<Rightarrow> 'b result) \<Rightarrow> manager \<Rightarrow>
     time \<Rightarrow> response \<Rightarrow> session option \<Rightarrow> 's \<Rightarrow> unit result \<times> response \<times> session option \<times> 's" where
  "Manager_Save S hmac enc mg now r sopt s =
     (case sopt of
        None \<Rightarrow> (Inl (Errorf ''cannot save an uninitialized session'' []), r, sopt, s)
      | Some ses0 \<Rightarrow>
          if s_id ses0 = [] then (Inl (Errorf ''cannot save an uninitialized session'' []), r, sopt, s)
          else if rs_written r = Some True
          then (Inl (Errorf ''cannot save session after response header is written'' []), r, sopt, s)
          else let ses = (if is_zero_time (s_issuedAt ses0) then ses0\<lparr>s_issuedAt := now\<rparr> else ses0)
               in if absoluteExpired mg (s_issuedAt ses) now then Manager_expire S mg r (Some ses) s
                  else let expiresAt = save_deadline mg (s_issuedAt ses) now
                  in case enc \<lparr>pl_IssuedAt = s_issuedAt ses, pl_Values = s_values ses,
                               pl_Flash = s_newFlash ses\<rparr> of
                       Inl err \<Rightarrow> (Inl (Wrapf ''encode session: %w'' [] err), r, Some ses, s)
                     | Inr encoded \<Rightarrow>
                         (case Manager_persist S ses encoded expiresAt s of
                            (Inl err, s1) \<Rightarrow> (Inl (Wrapf ''save session: %w'' [] err), r, Some ses, s1)
                          | (Inr _, s1) \<Rightarrow>
                              (Inr (),
                               setCookie mg (Manager_cookie mg (Manager_sign hmac mg (s_id ses)) expiresAt
                                   (cookieMaxAge (time_sub expiresAt now))) r,
                               Some (ses\<lparr>s_persistedID := s_id ses, s_createOnMissingRotation := False,
                                         s_oldFlash := Map.empty\<rparr>), s1)))"

definition Manager_regenerate :: "bytes result \<Rightarrow> session option \<Rightarrow> bool \<Rightarrow> unit result \<times> session option" where
  "Manager_regenerate rnd sopt createOnMissing =
     (case sopt of
        None \<Rightarrow> (Inl (Errorf ''cannot regenerate a nil session'' []), None)
      | Some ses \<Rightarrow>
          (case session_newID rnd of
             Inl err \<Rightarrow> (Inl err, Some ses)
           | Inr fresh \<Rightarrow>
               (Inr (), Some (ses\<lparr>s_id := fresh, s_createOnMissingRotation := createOnMissing\<rparr>))))"

definition Manager_Destroy ::
    "('b, 's) session_store \<Rightarrow> manager \<Rightarrow> response \<Rightarrow> session option \<Rightarrow> 's \<Rightarrow>
     unit result \<times> response \<times> session option \<times> 's" where
  "Manager_Destroy S mg r sopt s =
     (if rs_written r = Some True
      then (Inl (Errorf ''cannot destroy session after response header is written'' []), r, sopt, s)
      else case Manager_expire S mg r sopt s of
             (Inl err, rest) \<Rightarrow> (Inl (Wrapf ''destroy session: %w'' [] err), rest)
           | (Inr _, rest) \<Rightarrow> (Inr (), rest))"

definition Manager_Invalidate ::
    "('b, 's) session_store \<Rightarrow> manager \<Rightarrow> response \<Rightarrow> session option \<Rightarrow> 's \<Rightarrow>
     unit result \<times> response \<times> session option \<times> 's" where
  "Manager_Invalidate S mg r sopt s =
     (if rs_written r = Some True
      then (Inl (Errorf ''cannot invalidate session after response header is written'' []), r, sopt, s)
      else case Manager_invalidate S sopt s of
             (Inl err, sopt', s1) \<Rightarrow> (Inl (Wrapf ''invalidate session: %w'' [] err), r, sopt', s1)
           | (Inr _, sopt', s1) \<Rightarrow> (Inr (), removeCookie mg r, sopt', s1))"

section \<open>Values and flash messages\<close>

definition Session_Put :: "(bytes result) \<Rightarrow> string \<Rightarrow> session \<Rightarrow> unit result \<times> session" where
  "Session_Put marshalled key ses =
     (case marshalled of
        Inl err \<Rightarrow> (Inl (Wrapf ''encode session value %q: %w'' [key] err), ses)
      | Inr encoded \<Rightarrow> (Inr (), ses\<lparr>s_values := (s_values ses)(key \<mapsto> encoded)\<rparr>))"

definition Session_Get :: "(bytes \<Rightarrow> 'a result) \<Rightarrow> string \<Rightarrow> session \<Rightarrow> bool \<times> 'a option result" where
  "Session_Get unmarshal key ses =
     (case (case s_values ses key of Some e \<Rightarrow> Some e | None \<Rightarrow> s_oldFlash ses key) of
        None \<Rightarrow> (False, Inr None)
      | Some encoded \<Rightarrow>
          (True, case unmarshal encoded of
                   Inl err \<Rightarrow> Inl (Wrapf ''decode session value %q: %w'' [key] err)
                 | Inr v \<Rightarrow> Inr (Some v)))"

definition Session_Forget :: "string \<Rightarrow> session \<Rightarrow> session" where
  "Session_Forget key ses =
     ses\<lparr>s_values := (s_values ses)(key := None), s_oldFlash := (s_oldFlash ses)(key := None),
         s_newFlash := (s_newFlash ses)(key := None)\<rparr>"

definition Session_Flash :: "(bytes result) \<Rightarrow> string \<Rightarrow> session \<Rightarrow> unit result \<times> session" where
  "Session_Flash marshalled key ses =
     (case marshalled of
        Inl err \<Rightarrow> (Inl (Wrapf ''encode flash value %q: %w'' [key] err), ses)
      | Inr encoded \<Rightarrow> (Inr (), ses\<lparr>s_newFlash := (s_newFlash ses)(key \<mapsto> encoded)\<rparr>))"

section \<open>Signing, deadlines and cookies\<close>

definition valid_id :: "string \<Rightarrow> bool" where
  "valid_id i \<longleftrightarrow> length i = 64 \<and> hex_ok i"

lemma newID_valid: "length b = 32 \<Longrightarrow> session_newID (Inr b) = Inr i \<Longrightarrow> valid_id i"
  using hex_encode_ok [of b] by (auto simp: session_newID_def valid_id_def length_hex_encode)

lemma hex_no_dot: "hex_ok i \<Longrightarrow> CHR ''.'' \<notin> set i"
  by (auto simp: hex_ok_def list_all_iff is_hex_def Let_def)

lemma verify_sign: "valid_id i \<Longrightarrow> Manager_verify hmac mg (Manager_sign hmac mg i) = i"
proof -
  assume "valid_id i"
  then have "cut CHR ''.'' (Manager_sign hmac mg i) = Some (i, base64_encode (hmac (mg_secret mg) i))"
    by (simp add: cut_Some Manager_sign_def valid_id_def hex_no_dot)
  with \<open>valid_id i\<close> show ?thesis
    by (simp add: Manager_verify_def base64_roundtrip valid_id_def)
qed

lemma verify_sound:
  assumes "Manager_verify hmac mg v \<noteq> []"
  shows "valid_id (Manager_verify hmac mg v)
    \<and> (\<exists>sig. v = Manager_verify hmac mg v @ CHR ''.'' # sig
         \<and> base64_decode sig = Some (hmac (mg_secret mg) (Manager_verify hmac mg v)))"
proof (cases "cut CHR ''.'' v")
  case None
  with assms show ?thesis by (simp add: Manager_verify_def)
next
  case (Some p)
  then obtain i sig where p: "cut CHR ''.'' v = Some (i, sig)" by (cases p) auto
  then have "v = i @ CHR ''.'' # sig" by (simp add: cut_Some)
  with assms p show ?thesis
    by (auto simp: Manager_verify_def valid_id_def split: option.splits if_splits)
qed

lemma save_deadline_absolute:
  "AbsoluteLifetime (mg_policy mg) > 0 \<Longrightarrow>
   save_deadline mg iss now \<le> iss + AbsoluteLifetime (mg_policy mg)"
  by (simp add: save_deadline_def Let_def)

lemma setCookie_lines:
  assumes "valid_cookie_name (ck_Name (mg_cookie mg))" and "hc_Name c = ck_Name (mg_cookie mg)"
  shows "rs_setCookie (setCookie mg c r) =
    filter (\<lambda>l. \<not> line_is (ck_Name (mg_cookie mg)) l) (rs_setCookie r) @ [CookieLine c]"
  using assms by (simp add: setCookie_def removeCookie_def Let_def)

text \<open>The two outcomes of a successful \<open>Save\<close>: the session was persisted, or it had expired.\<close>

abbreviation effective_issue :: "session \<Rightarrow> time \<Rightarrow> time" where
  "effective_issue ses now \<equiv> (if s_issuedAt ses = 0 then now else s_issuedAt ses)"

lemma Save_success:
  assumes "Manager_Save S hmac enc mg now r (Some ses) s = (Inr (), r', sopt', s1)"
    and "\<not> absoluteExpired mg (effective_issue ses now) now"
  shows "\<exists>b. s_id ses \<noteq> [] \<and> rs_written r \<noteq> Some True
    \<and> enc \<lparr>pl_IssuedAt = effective_issue ses now, pl_Values = s_values ses, pl_Flash = s_newFlash ses\<rparr> = Inr b
    \<and> Manager_persist S (ses\<lparr>s_issuedAt := effective_issue ses now\<rparr>) b
        (save_deadline mg (effective_issue ses now) now) s = (Inr (), s1)
    \<and> r' = setCookie mg (Manager_cookie mg (Manager_sign hmac mg (s_id ses))
        (save_deadline mg (effective_issue ses now) now)
        (cookieMaxAge (time_sub (save_deadline mg (effective_issue ses now) now) now))) r"
proof -
  define ses1 where "ses1 = ses\<lparr>s_issuedAt := effective_issue ses now\<rparr>"
  have ses1: "(if is_zero_time (s_issuedAt ses) then ses\<lparr>s_issuedAt := now\<rparr> else ses) = ses1"
    by (simp add: ses1_def is_zero_time_def)
  have iss: "s_issuedAt ses1 = effective_issue ses now" "s_values ses1 = s_values ses"
    "s_newFlash ses1 = s_newFlash ses" "s_id ses1 = s_id ses" by (simp_all add: ses1_def)
  show ?thesis
    using assms unfolding Manager_Save_def option.case ses1 Let_def iss ses1_def [symmetric]
    by (auto split: if_splits sum.splits prod.splits)
qed

section \<open>The contract of a Store\<close>

text \<open>
  \<open>content s t\<close> is what the store would answer at time \<open>t\<close> if nothing but time passed:
  the rows that have not expired by then. The operations act at the store's own clock.
\<close>

locale session_backend =
  fixes S :: "('b, 's) session_store"
    and content :: "'s \<Rightarrow> time \<Rightarrow> string \<Rightarrow> 'b option"
    and clock :: "'s \<Rightarrow> time"
    and advance :: "'s \<Rightarrow> time \<Rightarrow> 's"
  assumes get_result: "fst (ss_Get S i s) = (case content s (clock s) i of None \<Rightarrow> Inl ErrNotFound | Some b \<Rightarrow> Inr b)"
    and get_keeps: "clock s \<le> t \<Longrightarrow> content (snd (ss_Get S i s)) t = content s t"
    and create_new: "content s (clock s) i = None \<Longrightarrow> fst (ss_Create S i b x s) = Inr ()
        \<and> (\<forall>t \<ge> clock s. content (snd (ss_Create S i b x s)) t = (content s t)(i := if t < x then Some b else None))"
    and create_old: "content s (clock s) i \<noteq> None \<Longrightarrow> ss_Create S i b x s = (Inl ErrExists, s)"
    and update_old: "content s (clock s) i \<noteq> None \<Longrightarrow> fst (ss_Update S i b x s) = Inr ()
        \<and> (\<forall>t \<ge> clock s. content (snd (ss_Update S i b x s)) t = (content s t)(i := if t < x then Some b else None))"
    and update_new: "content s (clock s) i = None \<Longrightarrow> fst (ss_Update S i b x s) = Inl ErrNotFound
        \<and> (\<forall>t \<ge> clock s. content (snd (ss_Update S i b x s)) t = content s t)"
    and rotate_missing: "content s (clock s) i = None \<Longrightarrow> fst (ss_Rotate S i j b x s) = Inl ErrNotFound
        \<and> (\<forall>t \<ge> clock s. content (snd (ss_Rotate S i j b x s)) t = content s t)"
    and rotate_taken: "content s (clock s) i \<noteq> None \<Longrightarrow> content s (clock s) j \<noteq> None \<Longrightarrow>
        ss_Rotate S i j b x s = (Inl ErrExists, s)"
    and rotate_done: "content s (clock s) i \<noteq> None \<Longrightarrow> content s (clock s) j = None \<Longrightarrow>
        fst (ss_Rotate S i j b x s) = Inr ()
        \<and> (\<forall>t \<ge> clock s. content (snd (ss_Rotate S i j b x s)) t
             = (content s t)(j := if t < x then Some b else None, i := None))"
    and delete_done: "fst (ss_Delete S i s) = Inr ()
        \<and> (\<forall>t \<ge> clock s. content (snd (ss_Delete S i s)) t = (content s t)(i := None))"
    and clock_keeps: "clock (snd (ss_Get S i s)) = clock s" "clock (snd (ss_Create S i b x s)) = clock s"
        "clock (snd (ss_Update S i b x s)) = clock s" "clock (snd (ss_Rotate S i j b x s)) = clock s"
        "clock (snd (ss_Delete S i s)) = clock s"
    and expired_stays: "content s t i = None \<Longrightarrow> t \<le> t' \<Longrightarrow> content s t' i = None"
    and advance_clock: "clock (advance s t) = t"
    and advance_content: "t \<le> t' \<Longrightarrow> content (advance s t) t' = content s t'"
begin

text \<open>The effect of the writing operations, on success and on failure.\<close>

lemma create_effect:
  "clock s \<le> t \<Longrightarrow> content (snd (ss_Create S i b x s)) t =
     (if fst (ss_Create S i b x s) = Inr () then (content s t)(i := if t < x then Some b else None)
      else content s t)"
  using create_new [of s i b x] create_old [of s i b x]
  by (cases "content s (clock s) i = None") auto

lemma update_effect:
  "clock s \<le> t \<Longrightarrow> content (snd (ss_Update S i b x s)) t =
     (if fst (ss_Update S i b x s) = Inr () then (content s t)(i := if t < x then Some b else None)
      else content s t)"
  using update_new [of s i b x] update_old [of s i b x]
  by (cases "content s (clock s) i = None") auto

lemma rotate_effect:
  "clock s \<le> t \<Longrightarrow> content (snd (ss_Rotate S i j b x s)) t =
     (if fst (ss_Rotate S i j b x s) = Inr ()
      then (content s t)(j := if t < x then Some b else None, i := None) else content s t)"
  using rotate_missing [of s i j b x] rotate_taken [of s i j b x] rotate_done [of s i j b x]
  by (cases "content s (clock s) i = None"; cases "content s (clock s) j = None") auto

lemma persist_effect:
  assumes "Manager_persist S ses b x s = (res, s1)" and "clock s \<le> t"
  shows "content s1 t =
     (if res \<noteq> Inr () then content s t
      else if s_persistedID ses = [] \<or> s_persistedID ses = s_id ses
              \<or> content s (clock s) (s_persistedID ses) = None
           then (content s t)(s_id ses := if t < x then Some b else None)
           else (content s t)(s_id ses := if t < x then Some b else None, s_persistedID ses := None))"
proof -
  consider (create) "s_persistedID ses = []"
    | (update) "s_persistedID ses \<noteq> []" "s_persistedID ses = s_id ses"
    | (rotate) "s_persistedID ses \<noteq> []" "s_persistedID ses \<noteq> s_id ses" by blast
  then show ?thesis
  proof cases
    case create
    with assms create_effect [OF assms(2), of "s_id ses" b x] show ?thesis
      by (auto simp: Manager_persist_def)
  next
    case update
    with assms update_effect [OF assms(2), of "s_id ses" b x] show ?thesis
      by (auto simp: Manager_persist_def)
  next
    case rotate
    let ?i = "s_persistedID ses" and ?j = "s_id ses"
    obtain res' s2 where rot: "ss_Rotate S ?i ?j b x s = (res', s2)" by fastforce
    have s2: "clock s2 = clock s" using clock_keeps(4) [of ?i ?j b x s] rot by simp
    note eff = rotate_effect [OF assms(2), of ?i ?j b x] create_effect [of s2 t ?j b x]
    show ?thesis
    proof (cases res')
      case (Inr u)
      then have "content s (clock s) ?i \<noteq> None"
        using rotate_missing [of s ?i ?j b x] rot by auto
      with Inr rot rotate assms eff show ?thesis by (auto simp: Manager_persist_def)
    next
      case (Inl err)
      show ?thesis
      proof (cases "s_createOnMissingRotation ses \<and> errors_is err ErrNotFound")
        case False
        with Inl rot rotate assms eff show ?thesis by (auto simp: Manager_persist_def)
      next
        case True
        then have "content s (clock s) ?i = None"
          using rotate_taken [of s ?i ?j b x] rotate_done [of s ?i ?j b x] rot Inl
          by (cases "content s (clock s) ?j = None"; cases "content s (clock s) ?i = None") auto
        with True Inl rot rotate assms eff s2 show ?thesis by (auto simp: Manager_persist_def)
      qed
    qed
  qed
qed

lemma persist_clock: "Manager_persist S ses b x s = (res, s1) \<Longrightarrow> clock s1 = clock s"
  using clock_keeps
  by (auto simp: Manager_persist_def split: if_splits prod.splits sum.splits)
    (metis snd_conv)+

lemma invalidate_effect:
  assumes "Manager_invalidate S sopt s = (res, sopt', s1)" and "clock s \<le> t"
  shows "res = Inr ()" and "clock s1 = clock s"
    and "content s1 t =
      (case sopt of Some ses \<Rightarrow> if s_id ses \<noteq> [] \<and> s_persistedID ses \<noteq> []
                               then (content s t)(s_persistedID ses := None) else content s t
       | None \<Rightarrow> content s t)"
  using assms delete_done clock_keeps(5)
  by (auto simp: Manager_invalidate_def split: option.splits if_splits prod.splits sum.splits)
    (metis fst_conv sum.distinct(1) snd_conv)+

text \<open>A session that was saved is loaded back from its cookie until its deadline.\<close>

lemma save_load:
  assumes "Manager_Save S hmac enc mg now r (Some ses) s = (Inr (), r', sopt', s1)"
    and "\<not> absoluteExpired mg (effective_issue ses now) now" and "valid_id (s_id ses)"
    and "now = clock s" and "0 < now" and "0 \<le> s_issuedAt ses"
    and "\<And>p b. enc p = Inr b \<Longrightarrow> dec b = Inr p"
    and "now \<le> t" and "t < save_deadline mg (effective_issue ses now) now"
  shows "fst (Manager_Load S hmac dec mg rnd t (Some (Manager_sign hmac mg (s_id ses))) (advance s1 t)) =
    Inr \<lparr>s_id = s_id ses, s_persistedID = s_id ses, s_values = s_values ses, s_oldFlash = s_newFlash ses,
         s_newFlash = Map.empty, s_issuedAt = effective_issue ses now, s_createOnMissingRotation = False\<rparr>"
proof -
  let ?iss = "effective_issue ses now"
  from Save_success [OF assms(1,2)] obtain b where
    enc: "enc \<lparr>pl_IssuedAt = ?iss, pl_Values = s_values ses, pl_Flash = s_newFlash ses\<rparr> = Inr b"
    and per: "Manager_persist S (ses\<lparr>s_issuedAt := ?iss\<rparr>) b (save_deadline mg ?iss now) s = (Inr (), s1)"
    and ne: "s_id ses \<noteq> []"
    by blast
  have "content s1 t (s_id ses) = Some b"
    using persist_effect [OF per, of t] assms(4,8,9)
    by (auto split: if_splits)
  then have c: "content (advance s1 t) (clock (advance s1 t)) (s_id ses) = Some b"
    by (simp add: advance_content advance_clock)
  then obtain s2 where g: "ss_Get S (s_id ses) (advance s1 t) = (Inr b, s2)"
    using get_result [of "s_id ses" "advance s1 t"] by (cases "ss_Get S (s_id ses) (advance s1 t)") auto
  have "\<not> absoluteExpired mg ?iss t"
    using assms(9) save_deadline_absolute [of mg ?iss now] by (auto simp: absoluteExpired_def)
  moreover have "?iss \<noteq> 0" using assms(5) by simp
  ultimately show ?thesis
    using g assms(7) [OF enc] ne
    by (simp add: Manager_Load_def verify_sign [OF assms(3)] is_zero_time_def Let_def)
qed

text \<open>No row outlives the issuance time of its payload plus the absolute lifetime.\<close>

definition within_absolute :: "('b \<Rightarrow> payload result) \<Rightarrow> manager \<Rightarrow> 's \<Rightarrow> bool" where
  "within_absolute dec mg s \<longleftrightarrow>
     (\<forall>t i b p. clock s \<le> t \<and> content s t i = Some b \<and> dec b = Inr p \<longrightarrow>
        t < pl_IssuedAt p + AbsoluteLifetime (mg_policy mg))"

lemma within_absolute_subset:
  assumes "within_absolute dec mg s" and "clock s \<le> clock s1"
    and "\<And>t i. clock s1 \<le> t \<Longrightarrow> content s1 t i = None \<or> content s1 t i = content s t i"
  shows "within_absolute dec mg s1"
  using assms unfolding within_absolute_def by (metis order_trans option.distinct(1))

lemma within_absolute_invalidate:
  assumes "within_absolute dec mg s" and "Manager_invalidate S sopt s = (res, sopt', s1)"
  shows "within_absolute dec mg s1"
proof (rule within_absolute_subset [OF assms(1)])
  show "clock s \<le> clock s1" using invalidate_effect(2) [OF assms(2) order_refl] by simp
  show "content s1 t i = None \<or> content s1 t i = content s t i" if "clock s1 \<le> t" for t i
    using invalidate_effect(3) [OF assms(2), of t] invalidate_effect(2) [OF assms(2) order_refl] that
    by (auto split: option.splits)
qed

lemma within_absolute_expire:
  assumes "within_absolute dec mg s" and "Manager_expire S mg' r sopt s = (res, r', sopt', s1)"
  shows "within_absolute dec mg s1"
  using assms within_absolute_invalidate
  by (auto simp: Manager_expire_def split: prod.splits sum.splits)

lemma within_absolute_save:
  assumes "within_absolute dec mg s" and "AbsoluteLifetime (mg_policy mg) > 0"
    and "\<And>p b. enc p = Inr b \<Longrightarrow> dec b = Inr p"
    and "Manager_Save S hmac enc mg now r sopt s = (res, r', sopt', s1)"
  shows "within_absolute dec mg s1"
proof -
  have persist: "within_absolute dec mg s2"
    if "Manager_persist S ses b (save_deadline mg iss now) s = (res', s2)"
      and "enc \<lparr>pl_IssuedAt = iss, pl_Values = vs, pl_Flash = fl\<rparr> = Inr b" for ses iss b res' s2 vs fl
    unfolding within_absolute_def
  proof (intro allI impI)
    fix t i b' p
    assume h: "clock s2 \<le> t \<and> content s2 t i = Some b' \<and> dec b' = Inr p"
    then have t: "clock s \<le> t" using persist_clock [OF that(1)] by simp
    have "content s t i = Some b' \<or> (b' = b \<and> t < save_deadline mg iss now)"
      using h persist_effect [OF that(1) t] by (auto split: if_splits)
    then show "t < pl_IssuedAt p + AbsoluteLifetime (mg_policy mg)"
    proof
      assume "content s t i = Some b'"
      with assms(1) t h show ?thesis by (auto simp: within_absolute_def)
    next
      assume "b' = b \<and> t < save_deadline mg iss now"
      with h assms(3) [OF that(2)] save_deadline_absolute [OF assms(2), of iss now] show ?thesis by auto
    qed
  qed
  show ?thesis
    using assms(1,4) within_absolute_expire [OF assms(1)]
    by (auto simp: Manager_Save_def Let_def split: option.splits if_splits sum.splits prod.splits
        intro: persist)
qed

text \<open>A row that is gone stays gone: saving a session whose row was removed cannot restore it.\<close>

lemma save_missing:
  assumes "content s (clock s) (s_persistedID ses) = None" and "s_persistedID ses \<noteq> []"
    and "\<not> absoluteExpired mg (effective_issue ses now) now"
    and "Manager_Save S hmac enc mg now r (Some ses) s = (res, r', sopt', s1)" and "clock s \<le> t"
  shows "content s1 t (s_persistedID ses) = None"
    and "\<not> s_createOnMissingRotation ses \<or> s_persistedID ses = s_id ses \<Longrightarrow>
         (\<exists>e. res = Inl e) \<and> r' = r \<and> content s1 t = content s t"
proof -
  let ?i = "s_persistedID ses" and ?j = "s_id ses"
  have none: "content s t ?i = None" using expired_stays [OF assms(1,5)] .
  define ses1 where "ses1 = (if is_zero_time (s_issuedAt ses) then ses\<lparr>s_issuedAt := now\<rparr> else ses)"
  have ses1: "s_persistedID ses1 = ?i" "s_id ses1 = ?j" "s_issuedAt ses1 = effective_issue ses now"
    "s_createOnMissingRotation ses1 = s_createOnMissingRotation ses"
    by (simp_all add: ses1_def is_zero_time_def)
  have persist: "content s2 t ?i = None \<and>
      (\<not> s_createOnMissingRotation ses \<or> ?i = ?j \<longrightarrow> (\<exists>e. res' = Inl e) \<and> content s2 t = content s t)"
    if per: "Manager_persist S ses1 b x s = (res', s2)" for b x res' s2
  proof (cases "?i = ?j")
    case True
    have "res' \<noteq> Inr ()" using per True ses1 assms(1,2) update_new [of s ?j b x]
      by (auto simp: Manager_persist_def)
    with persist_effect [OF per assms(5)] none show ?thesis by (cases res') auto
  next
    case False
    have "res' \<noteq> Inr ()" if "\<not> s_createOnMissingRotation ses"
      using per False that ses1 assms(1,2) rotate_missing [of s ?i ?j b x]
      by (auto simp: Manager_persist_def split: prod.splits sum.splits if_splits)
    with persist_effect [OF per assms(5)] none False ses1 assms(1) show ?thesis
      by (cases res') (auto split: if_splits)
  qed
  have "content s1 t ?i = None \<and> (\<not> s_createOnMissingRotation ses \<or> ?i = ?j \<longrightarrow>
      (\<exists>e. res = Inl e) \<and> r' = r \<and> content s1 t = content s t)"
    using assms(3,4) none persist ses1
    unfolding Manager_Save_def option.case ses1_def [symmetric] Let_def
    by (auto split: if_splits sum.splits prod.splits)
  then show "content s1 t ?i = None"
    and "\<not> s_createOnMissingRotation ses \<or> ?i = ?j \<Longrightarrow>
         (\<exists>e. res = Inl e) \<and> r' = r \<and> content s1 t = content s t" by blast+
qed

text \<open>\<open>Load\<close> only removes rows, and only reports a session whose row is live.\<close>

lemma load_effect:
  assumes "Manager_Load S hmac dec mg rnd now cookie s = (res, s1)"
  shows "clock s1 = clock s"
    and "clock s \<le> t \<Longrightarrow> content s1 t i = None \<or> content s1 t i = content s t i"
proof -
  have del: "content (snd (ss_Delete S j s2)) t i = None
      \<or> content (snd (ss_Delete S j s2)) t i = content s2 t i" if "clock s2 \<le> t" for j s2 t i
    using delete_done [of j s2] that by auto
  show "clock s1 = clock s"
    using assms clock_keeps(1,5)
    by (auto simp: Manager_Load_def Let_def split: if_splits prod.splits sum.splits) (metis snd_conv)+
  assume t: "clock s \<le> t"
  have get: "content (snd (ss_Get S j s)) t = content s t" for j using get_keeps t by blast
  have del': "content (snd (ss_Delete S j (snd (ss_Get S j s)))) t i = None
      \<or> content (snd (ss_Delete S j (snd (ss_Get S j s)))) t i = content s t i" for j
    using del [of "snd (ss_Get S j s)" t j i] t by (simp add: clock_keeps get)
  show "content s1 t i = None \<or> content s1 t i = content s t i"
    using assms get del'
    by (auto simp: Manager_Load_def Let_def split: if_splits prod.splits sum.splits) (metis snd_conv)+
qed

lemma load_missing:
  assumes "content s (clock s) i = None" and "valid_id i"
  shows "fst (Manager_Load S hmac dec mg rnd now (Some (Manager_sign hmac mg i)) s) = Manager_fresh rnd now"
proof -
  have "i \<noteq> []" using assms(2) by (auto simp: valid_id_def)
  moreover have "fst (ss_Get S i s) = Inl ErrNotFound" using get_result [of i s] assms(1) by simp
  ultimately show ?thesis
    by (auto simp: Manager_Load_def verify_sign [OF assms(2)] Let_def split: prod.splits)
qed

lemma destroy_done:
  assumes "Manager_Destroy S mg r (Some ses) s = (Inr (), r', sopt', s1)"
    and "s_id ses \<noteq> []" and "s_persistedID ses \<noteq> []" and "clock s \<le> t"
  shows "content s1 t = (content s t)(s_persistedID ses := None)"
    and "r' = setCookie mg (Manager_cookie mg [] unix_one (-1)) r"
    and "sopt' = Some (clear_session ses)"
proof -
  obtain res sopt2 s2 where inv: "Manager_invalidate S (Some ses) s = (res, sopt2, s2)"
    by (cases "Manager_invalidate S (Some ses) s") auto
  have eq: "res = Inr ()" "s2 = s1" "sopt2 = sopt'" "r' = setCookie mg (Manager_cookie mg [] unix_one (-1)) r"
    using assms(1) inv invalidate_effect(1) [OF inv assms(4)]
    by (auto simp: Manager_Destroy_def Manager_expire_def split: if_splits)
  then show "r' = setCookie mg (Manager_cookie mg [] unix_one (-1)) r" by simp
  show "content s1 t = (content s t)(s_persistedID ses := None)"
    using invalidate_effect(3) [OF inv assms(4)] eq assms(2,3) by simp
  show "sopt' = Some (clear_session ses)"
    using inv eq assms(2,3)
    by (auto simp: Manager_invalidate_def split: prod.splits sum.splits if_splits)
qed

lemma within_absolute_load:
  "within_absolute dec mg s \<Longrightarrow> Manager_Load S hmac dec' mg' rnd now cookie s = (res, s1) \<Longrightarrow>
   within_absolute dec mg s1"
  using within_absolute_subset load_effect by (metis order_refl)

lemma within_absolute_destroy:
  "within_absolute dec mg s \<Longrightarrow> Manager_Destroy S mg' r sopt s = (res, r', sopt', s1) \<Longrightarrow>
   within_absolute dec mg s1"
  using within_absolute_expire
  by (auto simp: Manager_Destroy_def split: if_splits prod.splits sum.splits)

lemma within_absolute_Invalidate:
  "within_absolute dec mg s \<Longrightarrow> Manager_Invalidate S mg' r sopt s = (res, r', sopt', s1) \<Longrightarrow>
   within_absolute dec mg s1"
  using within_absolute_invalidate
  by (auto simp: Manager_Invalidate_def split: if_splits prod.splits sum.splits)

lemma within_absolute_advance:
  "within_absolute dec mg s \<Longrightarrow> clock s \<le> t \<Longrightarrow> within_absolute dec mg (advance s t)"
  by (rule within_absolute_subset [where s = s]) (auto simp: advance_clock advance_content)

end

section \<open>The memory store satisfies the contract\<close>

text \<open>The live row of an ID at a time, whatever the sweeping accesses have removed already.\<close>

definition live_row :: "'b sess_memory \<Rightarrow> time \<Rightarrow> string \<Rightarrow> 'b option" where
  "live_row s t i = (case sm_entries s i of
     Some e \<Rightarrow> if t < se_expiresAt e then Some (se_value e) else None | None \<Rightarrow> None)"

definition at_time :: "'b sess_memory \<Rightarrow> time \<Rightarrow> 'b sess_memory" where
  "at_time s t = s\<lparr>sm_now := t\<rparr>"

lemmas sm_defs = memory_session_store_def SessionMem_Get_def SessionMem_Create_def SessionMem_Update_def
  SessionMem_Rotate_def SessionMem_Delete_def live_row_def at_time_def

interpretation smem: session_backend memory_session_store live_row sm_now at_time
  by unfold_locales
    (auto simp: sm_defs Let_def fun_eq_iff split: option.splits if_splits)

text \<open>The histories of a memory store that several managers' requests drive, in any interleaving.\<close>

inductive session_run ::
    "(bytes \<Rightarrow> bytes \<Rightarrow> bytes) \<Rightarrow> (payload \<Rightarrow> 'b result) \<Rightarrow> ('b \<Rightarrow> payload result) \<Rightarrow> manager \<Rightarrow>
     'b sess_memory \<Rightarrow> bool" for hmac enc dec mg where
  run_new: "session_run hmac enc dec mg (SessionMem_New t)"
| run_load: "session_run hmac enc dec mg s \<Longrightarrow>
    Manager_Load memory_session_store hmac dec mg rnd now cookie s = (res, s1) \<Longrightarrow>
    session_run hmac enc dec mg s1"
| run_save: "session_run hmac enc dec mg s \<Longrightarrow>
    Manager_Save memory_session_store hmac enc mg now r sopt s = (res', r', sopt', s1) \<Longrightarrow>
    session_run hmac enc dec mg s1"
| run_destroy: "session_run hmac enc dec mg s \<Longrightarrow>
    Manager_Destroy memory_session_store mg r sopt s = (res', r', sopt', s1) \<Longrightarrow>
    session_run hmac enc dec mg s1"
| run_invalidate: "session_run hmac enc dec mg s \<Longrightarrow>
    Manager_Invalidate memory_session_store mg r sopt s = (res', r', sopt', s1) \<Longrightarrow>
    session_run hmac enc dec mg s1"
| run_tick: "session_run hmac enc dec mg s \<Longrightarrow> sm_now s \<le> t \<Longrightarrow> session_run hmac enc dec mg (at_time s t)"

lemma run_within_absolute:
  assumes "session_run hmac enc dec mg s" and "AbsoluteLifetime (mg_policy mg) > 0"
    and "\<And>p b. enc p = Inr b \<Longrightarrow> dec b = Inr p"
  shows "smem.within_absolute dec mg s"
  using assms(1)
proof induction
  case (run_new t)
  show ?case unfolding smem.within_absolute_def by (simp add: live_row_def SessionMem_New_def)
qed (use assms(2,3) in \<open>blast intro: smem.within_absolute_load smem.within_absolute_save
    smem.within_absolute_destroy smem.within_absolute_Invalidate smem.within_absolute_advance\<close>)+

section \<open>Properties\<close>

definition demo_manager :: manager where
  "demo_manager = \<lparr>mg_secret = replicate 32 CHR ''k'',
     mg_cookie = \<lparr>ck_Name = ''goforge_session'', ck_Path = ''/'', ck_Domain = [],
       ck_UnsafeAllowHTTP = False, ck_UnsafeAllowJavaScript = False, ck_SameSite = 2\<rparr>,
     mg_policy = \<lparr>IdleLifetime = 50, AbsoluteLifetime = 80\<rparr>\<rparr>"

definition demo_session :: "char \<Rightarrow> string \<Rightarrow> session" where
  "demo_session c persisted = \<lparr>s_id = replicate 64 c, s_persistedID = persisted, s_values = [''user'' \<mapsto> ''7''],
     s_oldFlash = Map.empty, s_newFlash = [''notice'' \<mapsto> ''saved''], s_issuedAt = 100,
     s_createOnMissingRotation = False\<rparr>"

definition demo_response :: response where
  "demo_response = \<lparr>rs_written = Some False, rs_setCookie = [RawLine ''theme=dark'']\<rparr>"

lemma demo_id: "valid_id (replicate 64 CHR ''a'')" "valid_id (replicate 64 CHR ''b'')"
  by (simp_all add: valid_id_def hex_ok_def list_all_iff is_hex_def Let_def)

lemmas demo_defs = demo_session_def demo_manager_def demo_response_def absoluteExpired_def
  is_zero_time_def save_deadline_def sm_defs SessionMem_New_def





text \<open>C9: a row that was removed or has expired cannot be brought back by a request that still holds
  the session. Saving it under the ID it was loaded with, or under a rotated ID without the explicit
  permission to create, fails, leaves the response untouched and adds no row; and in every case the
  old ID stays unreadable for ever.\<close>

theorem session_no_resurrection:
  assumes "live_row s (sm_now s) (s_persistedID ses) = None" and "s_persistedID ses \<noteq> []"
    and "\<not> absoluteExpired mg (effective_issue ses now) now"
    and "Manager_Save memory_session_store hmac enc mg now r (Some ses) s = (res, r', sopt', s1)"
    and "sm_now s \<le> t"
  shows "live_row s1 t (s_persistedID ses) = None
    \<and> (\<not> s_createOnMissingRotation ses \<or> s_persistedID ses = s_id ses \<longrightarrow>
         (\<exists>e. res = Inl e) \<and> r' = r \<and> live_row s1 t = live_row s t)"
  using smem.save_missing [OF assms] by blast

theorem session_no_resurrection_witness:
  "\<exists>e sopt' s1. Manager_Save memory_session_store (\<lambda>k d. k) Inr demo_manager 100 demo_response
       (Some (demo_session CHR ''a'' (replicate 64 CHR ''a''))) (SessionMem_New 100)
     = (Inl e, demo_response, sopt', s1) \<and> live_row s1 120 = live_row (SessionMem_New 100) 120"
proof -
  let ?ses = "demo_session CHR ''a'' (replicate 64 CHR ''a'')"
  obtain res r' sopt' s1 where save: "Manager_Save memory_session_store (\<lambda>k d. k) Inr demo_manager 100
      demo_response (Some ?ses) (SessionMem_New 100) = (res, r', sopt', s1)" by (metis surj_pair)
  have "live_row s1 120 (s_persistedID ?ses) = None
    \<and> (\<not> s_createOnMissingRotation ?ses \<or> s_persistedID ?ses = s_id ?ses \<longrightarrow>
         (\<exists>e. res = Inl e) \<and> r' = demo_response \<and> live_row s1 120 = live_row (SessionMem_New 100) 120)"
    by (rule session_no_resurrection [OF _ _ _ save])
      (simp_all add: demo_session_def demo_manager_def absoluteExpired_def live_row_def SessionMem_New_def)
  with save show ?thesis by (auto simp: demo_session_def)
qed

text \<open>C10: a successful \<open>Destroy\<close> ends the session: at every later time the browser's old cookie
  loads a fresh session, no other row is touched, the session value held by the request is emptied,
  and the response carries exactly one cookie of the manager, the expired deletion cookie, after
  the unrelated cookies in their order.\<close>

theorem session_destroy:
  assumes "Manager_Destroy memory_session_store mg r (Some ses) s = (Inr (), r', sopt', s1)"
    and "s_id ses \<noteq> []" and "valid_id (s_persistedID ses)" and "sm_now s \<le> t"
    and "valid_cookie_name (ck_Name (mg_cookie mg))"
  shows "fst (Manager_Load memory_session_store hmac dec mg rnd t
           (Some (Manager_sign hmac mg (s_persistedID ses))) (at_time s1 t)) = Manager_fresh rnd t
    \<and> (\<forall>i. i \<noteq> s_persistedID ses \<longrightarrow> live_row s1 t i = live_row s t i)
    \<and> sopt' = Some (clear_session ses)
    \<and> rs_setCookie r' = filter (\<lambda>l. \<not> line_is (ck_Name (mg_cookie mg)) l) (rs_setCookie r)
        @ [CookieLine (Manager_cookie mg [] unix_one (-1))]"
proof -
  have ne: "s_persistedID ses \<noteq> []" using assms(3) by (auto simp: valid_id_def)
  note eff = smem.destroy_done [OF assms(1,2) ne assms(4)]
  have "live_row (at_time s1 t) (sm_now (at_time s1 t)) (s_persistedID ses) = None"
    using eff(1) by (simp add: smem.advance_content smem.advance_clock)
  then have "fst (Manager_Load memory_session_store hmac dec mg rnd t
           (Some (Manager_sign hmac mg (s_persistedID ses))) (at_time s1 t)) = Manager_fresh rnd t"
    by (rule smem.load_missing) (rule assms(3))
  with eff assms(5) show ?thesis by (simp add: setCookie_lines Manager_cookie_def)
qed

theorem session_destroy_witness:
  "\<exists>r' s1. Manager_Destroy memory_session_store demo_manager demo_response
       (Some (demo_session CHR ''a'' (replicate 64 CHR ''a'')))
       \<lparr>sm_entries = [replicate 64 CHR ''a'' \<mapsto> \<lparr>se_value = (), se_expiresAt = 150\<rparr>], sm_now = 100\<rparr>
     = (Inr (), r', Some (clear_session (demo_session CHR ''a'' (replicate 64 CHR ''a''))), s1)
     \<and> rs_setCookie r' =
        [RawLine ''theme=dark'', CookieLine (Manager_cookie demo_manager [] unix_one (-1))]"
proof -
  let ?ses = "demo_session CHR ''a'' (replicate 64 CHR ''a'')"
  let ?s = "\<lparr>sm_entries = [replicate 64 CHR ''a'' \<mapsto> \<lparr>se_value = (), se_expiresAt = 150\<rparr>], sm_now = 100\<rparr>"
  obtain r' sopt' s1 where d: "Manager_Destroy memory_session_store demo_manager demo_response (Some ?ses) ?s
      = (Inr (), r', sopt', s1)"
    by (simp add: Manager_Destroy_def Manager_expire_def Manager_invalidate_def demo_defs)
  have "fst (Manager_Load memory_session_store (\<lambda>k d. k) (\<lambda>b. Inl ErrNotFound) demo_manager (Inr []) 120
           (Some (Manager_sign (\<lambda>k d. k) demo_manager (s_persistedID ?ses))) (at_time s1 120))
        = Manager_fresh (Inr []) 120
    \<and> (\<forall>i. i \<noteq> s_persistedID ?ses \<longrightarrow> live_row s1 120 i = live_row ?s 120 i)
    \<and> sopt' = Some (clear_session ?ses)
    \<and> rs_setCookie r' = filter (\<lambda>l. \<not> line_is (ck_Name (mg_cookie demo_manager)) l)
          (rs_setCookie demo_response)
        @ [CookieLine (Manager_cookie demo_manager [] unix_one (-1))]"
    by (rule session_destroy [OF d])
      (simp_all add: demo_session_def demo_id demo_manager_def valid_cookie_name_def token_char_def)
  with d show ?thesis by (simp add: demo_response_def)
qed

text \<open>C11: the only cookie values that select a session ID are an ID of 64 hexadecimal digits, a dot and
  the encoding of the keyed hash of that ID; and the manager accepts every value it signs itself.\<close>

theorem session_cookie_authentic:
  "(Manager_verify hmac mg v = i \<and> i \<noteq> [] \<longrightarrow>
      valid_id i \<and> (\<exists>sig. v = i @ CHR ''.'' # sig \<and> base64_decode sig = Some (hmac (mg_secret mg) i)))
   \<and> (valid_id i \<longrightarrow> Manager_verify hmac mg (Manager_sign hmac mg i) = i)"
  using verify_sound [of hmac mg v] verify_sign by blast

theorem session_cookie_authentic_witness:
  "valid_id (replicate 64 CHR ''b'') \<and>
   Manager_verify (\<lambda>k d. k) demo_manager (Manager_sign (\<lambda>k d. k) demo_manager (replicate 64 CHR ''b''))
   = replicate 64 CHR ''b''"
  using session_cookie_authentic [of "\<lambda>k d. k" demo_manager
      "Manager_sign (\<lambda>k d. k) demo_manager (replicate 64 CHR ''b'')" "replicate 64 CHR ''b''"] demo_id(2)
  by blast

end
