(* ===== verification/Job_Observer.thy ===== *)
theory Job_Observer
  imports Go_Prelude "HOL-Library.Word" "HOL-Library.Sublist"
begin

text \<open>
  The event emitter of the package \<open>job\<close> (\<^verbatim>\<open>src/job/types.go\<close>), which keeps application
  observers off the queue's critical paths. A call of \<open>emit\<close> is one critical section of the mutex.
  The goroutine \<open>drain\<close> is a program counter: either it is about to take the mutex, or it is inside
  the observer's \<open>Observe\<close> call for one event; \<open>em_seen\<close> records the calls that have returned (or
  panicked, which \<open>drain\<close> recovers). Channels are numbered, and \<open>em_closed\<close> lists the closed ones.
  The emitter of the package \<open>schedule\<close> is the same algorithm without the idle channel.
\<close>

datatype 'e drain_pc = AtLock | Observing 'e

record 'e emitter =
  em_pending :: "'e list"
  em_running :: bool
  em_idle :: nat
  em_closed :: "nat list"
  em_dropped :: "64 word"
  em_drains :: "'e drain_pc list"
  em_seen :: "'e list"

definition observerQueueCapacity :: nat where
  "observerQueueCapacity = 256"

definition newEventEmitter :: "bool \<Rightarrow> 'e emitter option" where
  "newEventEmitter observer_nil =
     (if observer_nil then None
      else Some \<lparr>em_pending = [], em_running = False, em_idle = 0, em_closed = [0], em_dropped = 0,
                 em_drains = [], em_seen = []\<rparr>)"

definition emit_locked :: "'e \<Rightarrow> 'e emitter \<Rightarrow> 'e emitter" where
  "emit_locked e em =
     (if length (em_pending em) \<ge> observerQueueCapacity then em\<lparr>em_dropped := em_dropped em + 1\<rparr>
      else let em1 = em\<lparr>em_pending := em_pending em @ [e]\<rparr>
           in if em_running em1 then em1
              else em1\<lparr>em_running := True, em_idle := Suc (em_idle em1),
                       em_drains := em_drains em1 @ [AtLock]\<rparr>)"

definition emit :: "'e \<Rightarrow> 'e emitter option \<Rightarrow> 'e emitter option" where
  "emit e emitter = map_option (emit_locked e) emitter"

definition drain_step :: "nat \<Rightarrow> 'e emitter \<Rightarrow> 'e emitter" where
  "drain_step i em =
     (case em_drains em ! i of
        AtLock \<Rightarrow>
          (case em_pending em of
             [] \<Rightarrow> em\<lparr>em_running := False, em_closed := em_closed em @ [em_idle em],
                     em_drains := take i (em_drains em) @ drop (Suc i) (em_drains em)\<rparr>
           | e # rest \<Rightarrow> em\<lparr>em_pending := rest, em_drains := (em_drains em)[i := Observing e]\<rparr>)
      | Observing e \<Rightarrow> em\<lparr>em_seen := em_seen em @ [e], em_drains := (em_drains em)[i := AtLock]\<rparr>)"

text \<open>\<open>flush\<close> reads the current idle channel under the mutex and then waits for it or for its context:
  the second definition says which results the wait on channel \<open>c\<close> can have in a state.\<close>

definition flush_channel :: "'e emitter \<Rightarrow> nat" where
  "flush_channel em = em_idle em"

definition flush_result :: "nat \<Rightarrow> bool \<Rightarrow> 'e emitter \<Rightarrow> bool \<Rightarrow> bool" where
  "flush_result c ctx_done em b \<longleftrightarrow> (if b then c \<in> set (em_closed em) else ctx_done)"

definition droppedEvents :: "'e emitter option \<Rightarrow> 64 word" where
  "droppedEvents emitter = (case emitter of None \<Rightarrow> 0 | Some em \<Rightarrow> em_dropped em)"

section \<open>Histories of an emitter\<close>

text \<open>\<open>accepted\<close> lists the events that were queued, \<open>offered\<close> all the events \<open>emit\<close> was called with.\<close>

inductive emitter_run :: "'e emitter \<Rightarrow> 'e list \<Rightarrow> 'e list \<Rightarrow> bool" where
  er_new: "newEventEmitter False = Some em \<Longrightarrow> emitter_run em [] []"
| er_emit: "emitter_run em acc off \<Longrightarrow>
    emitter_run (emit_locked e em)
      (if length (em_pending em) \<ge> observerQueueCapacity then acc else acc @ [e]) (off @ [e])"
| er_drain: "emitter_run em acc off \<Longrightarrow> i < length (em_drains em) \<Longrightarrow>
    emitter_run (drain_step i em) acc off"

fun in_flight :: "'e drain_pc list \<Rightarrow> 'e list" where
  "in_flight [] = []"
| "in_flight (AtLock # ds) = in_flight ds"
| "in_flight (Observing e # ds) = e # in_flight ds"

definition emitter_ok :: "'e emitter \<Rightarrow> 'e list \<Rightarrow> 'e list \<Rightarrow> bool" where
  "emitter_ok em acc off \<longleftrightarrow>
     acc = em_seen em @ in_flight (em_drains em) @ em_pending em
     \<and> length (em_pending em) \<le> observerQueueCapacity
     \<and> length (em_drains em) = (if em_running em then 1 else 0)
     \<and> (\<not> em_running em \<longrightarrow> em_pending em = [])
     \<and> (em_idle em \<in> set (em_closed em) \<longleftrightarrow> \<not> em_running em)
     \<and> (\<forall>c \<in> set (em_closed em). c \<le> em_idle em)
     \<and> subseq acc off
     \<and> em_dropped em = of_nat (length off - length acc)"

lemma emitter_ok_emit:
  assumes "emitter_ok em acc off"
  shows "emitter_ok (emit_locked e em)
    (if length (em_pending em) \<ge> observerQueueCapacity then acc else acc @ [e]) (off @ [e])"
proof -
  have acc: "acc = em_seen em @ in_flight (em_drains em) @ em_pending em" and sub: "subseq acc off"
    using assms unfolding emitter_ok_def by blast+
  have suc: "length (off @ [e]) - length acc = Suc (length off - length acc)"
    using list_emb_length [OF sub] by simp
  show ?thesis
  proof (cases "length (em_pending em) \<ge> observerQueueCapacity")
    case True
    have "subseq acc (off @ [e])" using sub by (rule subseq_rev_drop_many)
    with True assms show ?thesis
      unfolding emitter_ok_def emit_locked_def if_P [OF True] suc by simp
  next
    case False
    have "subseq (acc @ [e]) (off @ [e])" using sub by (rule list_emb_append_mono) simp
    moreover have "em_drains em = [] \<or> em_running em"
      using assms by (auto simp: emitter_ok_def)
    moreover have "Suc (em_idle em) \<notin> set (em_closed em)"
      using assms unfolding emitter_ok_def by (meson Suc_n_not_le_n)
    ultimately show ?thesis
      using False assms unfolding emitter_ok_def emit_locked_def if_not_P [OF False] Let_def
      by (cases "em_running em") (simp_all add: Suc_le_eq ball_conj_distrib le_SucI)
  qed
qed

lemma emitter_ok_drain:
  assumes "emitter_ok em acc off" and "i < length (em_drains em)"
  shows "emitter_ok (drain_step i em) acc off"
proof -
  obtain d where d: "em_drains em = [d]" "i = 0" "em_running em"
    using assms by (auto simp: emitter_ok_def length_Suc_conv split: if_splits)
  show ?thesis
  proof (cases d)
    case AtLock
    with d assms(1) show ?thesis
      by (cases "em_pending em") (auto simp: emitter_ok_def drain_step_def)
  next
    case (Observing e)
    with d assms(1) show ?thesis by (auto simp: emitter_ok_def drain_step_def)
  qed
qed

lemma emitter_run_ok: "emitter_run em acc off \<Longrightarrow> emitter_ok em acc off"
proof (induction rule: emitter_run.induct)
  case (er_new em)
  then show ?case by (auto simp: newEventEmitter_def emitter_ok_def)
next
  case (er_emit em acc off e)
  from emitter_ok_emit [OF er_emit.IH] show ?case .
next
  case (er_drain em acc off i)
  from emitter_ok_drain [OF er_drain.IH er_drain.hyps(2)] show ?case .
qed

text \<open>The states an emitter goes through after a given one.\<close>

inductive emitter_later :: "'e emitter \<Rightarrow> 'e list \<Rightarrow> 'e emitter \<Rightarrow> 'e list \<Rightarrow> bool" for em0 acc0 where
  el_refl: "emitter_later em0 acc0 em0 acc0"
| el_emit: "emitter_later em0 acc0 em acc \<Longrightarrow>
    emitter_later em0 acc0 (emit_locked e em)
      (if length (em_pending em) \<ge> observerQueueCapacity then acc else acc @ [e])"
| el_drain: "emitter_later em0 acc0 em acc \<Longrightarrow> i < length (em_drains em) \<Longrightarrow>
    emitter_later em0 acc0 (drain_step i em) acc"

definition flush_ok :: "'e emitter \<Rightarrow> 'e list \<Rightarrow> 'e emitter \<Rightarrow> 'e list \<Rightarrow> bool" where
  "flush_ok em0 acc0 em acc \<longleftrightarrow>
     (\<exists>off. emitter_ok em acc off) \<and> prefix acc0 acc
     \<and> (em_idle em0 \<in> set (em_closed em) \<longrightarrow> prefix acc0 (em_seen em))
     \<and> (em_idle em0 \<notin> set (em_closed em) \<longrightarrow> em_idle em = em_idle em0)
     \<and> em_idle em0 \<le> em_idle em"

lemma later_flush_ok:
  assumes "emitter_later em0 acc0 em acc" and "emitter_run em0 acc0 off0"
  shows "flush_ok em0 acc0 em acc"
  using assms(1)
proof induction
  case el_refl
  have "em_drains em0 = []" "em_pending em0 = []" if "em_idle em0 \<in> set (em_closed em0)"
    using that emitter_run_ok [OF assms(2)] by (auto simp: emitter_ok_def)
  with emitter_run_ok [OF assms(2)] show ?case by (auto simp: flush_ok_def emitter_ok_def)
next
  case (el_emit em acc e)
  then obtain off where ok: "emitter_ok em acc off" by (auto simp: flush_ok_def)
  have "\<exists>off'. emitter_ok (emit_locked e em)
      (if length (em_pending em) \<ge> observerQueueCapacity then acc else acc @ [e]) off'"
    using emitter_ok_emit [OF ok] by blast
  moreover have "em_idle em0 \<in> set (em_closed em) \<or> em_running em"
    using el_emit.IH ok unfolding flush_ok_def emitter_ok_def by metis
  ultimately show ?case
    using el_emit.IH unfolding flush_ok_def by (auto simp: emit_locked_def Let_def prefixI)
next
  case (el_drain em acc i)
  then obtain off where ok: "emitter_ok em acc off" by (auto simp: flush_ok_def)
  obtain d where d: "em_drains em = [d]" "i = 0" "em_running em"
    using ok el_drain by (auto simp: emitter_ok_def length_Suc_conv split: if_splits)
  have "\<exists>off'. emitter_ok (drain_step i em) acc off'"
    using emitter_ok_drain [OF ok] el_drain by blast
  moreover have "prefix acc0 (em_seen em)" if "em_pending em = []" "d = AtLock"
    using el_drain.IH ok d that unfolding flush_ok_def emitter_ok_def by simp
  ultimately show ?case
    using el_drain.IH d unfolding flush_ok_def
    by (cases d; cases "em_pending em") (auto simp: drain_step_def prefix_def)
qed

section \<open>Properties\<close>

text \<open>C12: whatever the interleaving of \<open>emit\<close> calls with the draining goroutine, at most one such
  goroutine exists, at most 256 events wait, the observer sees the queued events in the order they
  were emitted and none twice, and the dropped counter is the number of events that were not queued.\<close>

theorem emitter_bounded_ordered:
  assumes "emitter_run em acc off"
  shows "prefix (em_seen em) acc \<and> subseq acc off
    \<and> length (em_drains em) \<le> 1 \<and> length (em_pending em) \<le> 256
    \<and> droppedEvents (Some em) = of_nat (length off - length acc)
    \<and> (em_drains em = [] \<longrightarrow> em_seen em = acc)"
  using emitter_run_ok [OF assms]
  by (auto simp: emitter_ok_def droppedEvents_def observerQueueCapacity_def split: if_splits)

lemma demo_emitter_run:
  "\<exists>em. emitter_run em [1, 2 :: nat] [1, 2] \<and> em_seen em = [1] \<and> em_drains em = [AtLock]"
proof -
  obtain em where em: "newEventEmitter False = Some (em :: nat emitter)" by (simp add: newEventEmitter_def)
  have "emitter_run (drain_step 0 (drain_step 0 (emit_locked 2 (emit_locked 1 em)))) [1, 2] [1, 2]"
    using er_drain [OF er_drain [OF er_emit [OF er_emit [OF er_new [OF em], of 1], of 2], of 0], of 0] em
    by (auto simp: newEventEmitter_def emit_locked_def drain_step_def observerQueueCapacity_def Let_def)
  then show ?thesis
    using em by (auto simp: newEventEmitter_def emit_locked_def drain_step_def observerQueueCapacity_def Let_def)
qed

theorem emitter_bounded_ordered_witness:
  "\<exists>em. emitter_run em [1, 2 :: nat] [1, 2] \<and> prefix (em_seen em) [1, 2] \<and> length (em_drains em) \<le> 1"
  using demo_emitter_run emitter_bounded_ordered by blast

text \<open>A \<open>flush\<close> that reports success has waited for every event queued before it was called: the
  observer's calls for all of them have returned, in order.\<close>

theorem emitter_flush_complete:
  assumes "emitter_run em0 acc0 off0" and "emitter_later em0 acc0 em acc"
    and "flush_result (flush_channel em0) ctx_done em True"
  shows "prefix acc0 (em_seen em)"
  using later_flush_ok [OF assms(2,1)] assms(3)
  by (auto simp: flush_ok_def flush_result_def flush_channel_def)

theorem emitter_flush_complete_witness:
  "\<exists>em0 em. emitter_run em0 [7 :: nat] [7] \<and> emitter_later em0 [7] em [7]
     \<and> flush_result (flush_channel em0) False em True \<and> prefix [7] (em_seen em)"
proof -
  obtain em where em: "newEventEmitter False = Some (em :: nat emitter)" by (simp add: newEventEmitter_def)
  define em0 where "em0 = emit_locked 7 em"
  define em1 where "em1 = drain_step 0 em0"
  define em2 where "em2 = drain_step 0 em1"
  define em3 where "em3 = drain_step 0 em2"
  note ds = em0_def em1_def em2_def em3_def newEventEmitter_def emit_locked_def drain_step_def
    observerQueueCapacity_def Let_def flush_result_def flush_channel_def
  have run: "emitter_run em0 [7] [7]" using er_emit [OF er_new [OF em], of 7] em by (auto simp: ds)
  have later: "emitter_later em0 [7] em3 [7]"
    unfolding em3_def em2_def em1_def
    by (rule el_drain, rule el_drain, rule el_drain, rule el_refl) (use em in \<open>auto simp: ds\<close>)
  have fl: "flush_result (flush_channel em0) False em3 True" using em by (auto simp: ds)
  with run later emitter_flush_complete [OF run later fl] show ?thesis by blast
qed

end
