(* ===== verification/Job_Core.thy ===== *)
theory Job_Core
  imports Go_Regexp Go_Strings Job_Observer
begin

text \<open>
  The package \<open>job\<close> without its worker: the types and the store contract (\<^verbatim>\<open>src/job/types.go\<close>),
  job definitions (\<^verbatim>\<open>definition.go\<close>), handler errors (\<^verbatim>\<open>errors.go\<close>), dispatch
  (\<^verbatim>\<open>dispatch.go\<close>) and the handler registry (\<^verbatim>\<open>registry.go\<close>). A store is a record of its
  methods over a state \<open>'s\<close>; the typed payload is represented by the outcome of marshalling it and the
  random bytes of an ID by the outcome of reading them. \<open>Dispatch\<close> returns, with its result and the new
  store state, the events it hands to the emitter.
\<close>

unbundle bit_operations_syntax

section \<open>Types\<close>

abbreviation day :: duration where
  "day \<equiv> 24 * hour"

definition DefaultMaxPayloadBytes :: int where "DefaultMaxPayloadBytes = 262144"
definition DefaultMaxErrorBytes :: int where "DefaultMaxErrorBytes = 8192"
definition MaxNameBytes :: nat where "MaxNameBytes = 128"
definition MaxQueueBytes :: nat where "MaxQueueBytes = 64"
definition MaxDedupKeyBytes :: nat where "MaxDedupKeyBytes = 256"

definition ErrDuplicate :: goerr where
  "ErrDuplicate = Sentinel ''job: duplicate registration''"

definition ErrPayloadTooLarge :: goerr where
  "ErrPayloadTooLarge = Sentinel ''job: payload too large''"

definition ErrHandlerCancellationTimeout :: goerr where
  "ErrHandlerCancellationTimeout = Sentinel ''job: handler did not stop after cancellation''"

record policy =
  pol_Queue :: string
  pol_MaxAttempts :: int
  pol_Timeout :: duration
  pol_Backoff :: "duration list"

record dispatch_result =
  dr_ID :: string
  dr_Enqueued :: bool

record enqueue_request =
  er_ID :: string
  er_Queue :: string
  er_Name :: string
  er_Payload :: bytes
  er_Priority :: int
  er_Delay :: duration
  er_At :: "time option"
  er_MaxAttempts :: int
  er_Timeout :: duration
  er_Backoff :: "duration list"
  er_DedupKey :: string

record claim_request =
  cr_Queues :: "string list"
  cr_Names :: "string list"
  cr_Limit :: int
  cr_WorkerID :: string
  cr_LeaseDuration :: duration

record lease =
  le_JobID :: string
  le_WorkerID :: string
  le_Generation :: int

record delivery =
  dl_ID :: string
  dl_Queue :: string
  dl_Name :: string
  dl_Payload :: bytes
  dl_Priority :: int
  dl_Attempt :: int
  dl_MaxAttempts :: int
  dl_Timeout :: duration
  dl_Backoff :: "duration list"
  dl_DedupKey :: string
  dl_AvailableAt :: time
  dl_LeasedAt :: time
  dl_LeaseExpires :: time
  dl_Lease :: lease

record retry_request =
  rr_Lease :: lease
  rr_Delay :: duration
  rr_ErrorKind :: string
  rr_Error :: string

record failure_request =
  fr_Lease :: lease
  fr_Kind :: string
  fr_Error :: string

record failed_job =
  fj_ID :: string
  fj_Queue :: string
  fj_Name :: string
  fj_Priority :: int
  fj_Attempts :: int
  fj_MaxAttempts :: int
  fj_Timeout :: duration
  fj_Backoff :: "duration list"
  fj_DedupKey :: string
  fj_FailureKind :: string
  fj_FailureMessage :: string
  fj_CreatedAt :: time
  fj_FailedAt :: time

record ('x, 's) job_store =
  js_Enqueue :: "'x \<Rightarrow> enqueue_request \<Rightarrow> 's \<Rightarrow> dispatch_result result \<times> 's"
  js_Claim :: "claim_request \<Rightarrow> 's \<Rightarrow> delivery list result \<times> 's"
  js_Heartbeat :: "lease \<Rightarrow> duration \<Rightarrow> 's \<Rightarrow> bool result \<times> 's"
  js_Ack :: "lease \<Rightarrow> 's \<Rightarrow> bool result \<times> 's"
  js_Retry :: "retry_request \<Rightarrow> 's \<Rightarrow> bool result \<times> 's"
  js_Release :: "lease \<Rightarrow> 's \<Rightarrow> bool result \<times> 's"
  js_Fail :: "failure_request \<Rightarrow> 's \<Rightarrow> bool result \<times> 's"
  js_FailExhausted :: "string list \<Rightarrow> string list \<Rightarrow> int \<Rightarrow> 's \<Rightarrow> failed_job list result \<times> 's"

datatype event_kind =
    EventDispatched | EventDuplicate | EventClaimed | EventStarted | EventSucceeded
  | EventRetryScheduled | EventFailed | EventLeaseLost | EventAbandoned | EventWorkerStarted
  | EventWorkerStopping | EventWorkerStopped

record job_event =
  ev_Kind :: event_kind
  ev_JobID :: string
  ev_Name :: string
  ev_Queue :: string
  ev_WorkerID :: string
  ev_Attempt :: int
  ev_Duration :: duration
  ev_RetryAfter :: duration
  ev_Outcome :: string
  ev_At :: time

definition wrapStore :: "string \<Rightarrow> goerr \<Rightarrow> goerr" where
  "wrapStore operation err = Wrapf ''job: %s: %w'' [operation] err"

section \<open>Definitions\<close>

definition defaultBackoff :: "duration list" where
  "defaultBackoff = [second, 5 * second, 30 * second]"

record job_definition =
  def_name :: string
  def_policy :: policy

definition validateQueue :: "string \<Rightarrow> unit result" where
  "validateQueue queue =
     (if length queue = 0 \<or> length queue > MaxQueueBytes \<or> \<not> rmatch queue_rexp queue
      then Inl (Errorf ''job: invalid queue %q'' [queue]) else Inr ())"

fun check_backoff :: "duration list \<Rightarrow> unit result" where
  "check_backoff [] = Inr ()"
| "check_backoff (delay # rest) =
     (if delay < 0 \<or> delay > 30 * day then Inl (Errorf ''job: backoff must be between zero and 30 days'' [])
      else if delay > 0 \<and> delay < millisecond
      then Inl (Errorf ''job: non-zero backoff must be at least 1ms'' [])
      else check_backoff rest)"

definition Define :: "string \<Rightarrow> policy \<Rightarrow> job_definition result" where
  "Define name0 policy0 =
     (let name = TrimSpace name0 in
      if length name = 0 \<or> length name > MaxNameBytes \<or> \<not> rmatch versioned_name_rexp name
      then Inl (Errorf ''job: invalid versioned name %q'' [name])
      else let queue = (if pol_Queue policy0 = [] then ''default'' else pol_Queue policy0) in
      case validateQueue queue of
        Inl err \<Rightarrow> Inl err
      | Inr _ \<Rightarrow>
          let maxAttempts = (if pol_MaxAttempts policy0 = 0 then 3 else pol_MaxAttempts policy0) in
          if maxAttempts < 1 \<or> maxAttempts > 1000
          then Inl (Errorf ''job: max attempts must be between 1 and 1000'' [])
          else let timeout = (if pol_Timeout policy0 = 0 then 30 * second else pol_Timeout policy0) in
          if timeout < millisecond \<or> timeout > 24 * hour
          then Inl (Errorf ''job: timeout must be between 1ms and 24h'' [])
          else let backoff = (if length (pol_Backoff policy0) = 0 then defaultBackoff else pol_Backoff policy0) in
          if length backoff > 1000 then Inl (Errorf ''job: backoff supports at most 1000 entries'' [])
          else (case check_backoff backoff of
                  Inl err \<Rightarrow> Inl err
                | Inr _ \<Rightarrow> Inr \<lparr>def_name = name,
                    def_policy = \<lparr>pol_Queue = queue, pol_MaxAttempts = maxAttempts,
                                  pol_Timeout = timeout, pol_Backoff = backoff\<rparr>\<rparr>))"

text \<open>The decoder reads one value of the payload's type and then expects the end of the input.\<close>

datatype 'v decoded = DecodeError goerr | DecodeEOF | DecodeValue 'v bytes

definition decodePayload ::
    "(bytes \<Rightarrow> 'v decoded) \<Rightarrow> (bytes \<Rightarrow> unit decoded) \<Rightarrow> bytes \<Rightarrow> 'v result" where
  "decodePayload decode_typed decode_any payload =
     (case decode_typed payload of
        DecodeError err \<Rightarrow> Inl err
      | DecodeEOF \<Rightarrow> Inl (Sentinel ''EOF'')
      | DecodeValue val rest \<Rightarrow>
          (case decode_any rest of
             DecodeEOF \<Rightarrow> Inr val
           | DecodeValue _ _ \<Rightarrow> Inl (Errorf ''multiple JSON values'' [])
           | DecodeError err \<Rightarrow> Inl err))"

section \<open>Handler errors\<close>

text \<open>The errors a handler may return: any error, wrapped or joined, with the package's marks.\<close>

datatype joberr =
    JErr goerr
  | JWrap string joberr
  | JJoin "joberr list"
  | JPermanent joberr
  | JRetryAfter joberr duration
  | JPanic

definition Permanent :: "joberr option \<Rightarrow> joberr option" where
  "Permanent err = map_option JPermanent err"

definition RetryAfter :: "joberr option \<Rightarrow> duration \<Rightarrow> joberr option" where
  "RetryAfter err delay =
     (case err of
        None \<Rightarrow> None
      | Some e \<Rightarrow>
          if delay < 0 \<or> delay > 30 * 24 * hour then Some (JPermanent (JWrap ''invalid retry-after %s: %w'' e))
          else if delay > 0 \<and> delay < millisecond
          then Some (JPermanent (JWrap ''invalid retry-after %s: %w'' e))
          else Some (JRetryAfter e delay))"

text \<open>\<open>errors.As\<close> and \<open>errors.Is\<close> search the tree of wrapped errors in depth-first pre-order.\<close>

fun as_panic :: "joberr \<Rightarrow> bool" where
  "as_panic JPanic \<longleftrightarrow> True"
| "as_panic (JErr e) \<longleftrightarrow> False"
| "as_panic (JWrap m e) \<longleftrightarrow> as_panic e"
| "as_panic (JJoin es) \<longleftrightarrow> list_ex as_panic es"
| "as_panic (JPermanent e) \<longleftrightarrow> as_panic e"
| "as_panic (JRetryAfter e d) \<longleftrightarrow> as_panic e"

fun as_permanent :: "joberr \<Rightarrow> bool" where
  "as_permanent JPanic \<longleftrightarrow> False"
| "as_permanent (JErr e) \<longleftrightarrow> False"
| "as_permanent (JWrap m e) \<longleftrightarrow> as_permanent e"
| "as_permanent (JJoin es) \<longleftrightarrow> list_ex as_permanent es"
| "as_permanent (JPermanent e) \<longleftrightarrow> True"
| "as_permanent (JRetryAfter e d) \<longleftrightarrow> as_permanent e"

fun as_retryAfter :: "joberr \<Rightarrow> duration option"
and as_retryAfter_list :: "joberr list \<Rightarrow> duration option" where
  "as_retryAfter JPanic = None"
| "as_retryAfter (JErr e) = None"
| "as_retryAfter (JWrap m e) = as_retryAfter e"
| "as_retryAfter (JJoin es) = as_retryAfter_list es"
| "as_retryAfter (JPermanent e) = as_retryAfter e"
| "as_retryAfter (JRetryAfter e d) = Some d"
| "as_retryAfter_list [] = None"
| "as_retryAfter_list (e # es) =
     (case as_retryAfter e of Some d \<Rightarrow> Some d | None \<Rightarrow> as_retryAfter_list es)"

fun joberr_is :: "joberr \<Rightarrow> goerr \<Rightarrow> bool" where
  "joberr_is JPanic t \<longleftrightarrow> False"
| "joberr_is (JErr e) t \<longleftrightarrow> errors_is e t"
| "joberr_is (JWrap m e) t \<longleftrightarrow> joberr_is e t"
| "joberr_is (JJoin es) t \<longleftrightarrow> list_ex (\<lambda>e. joberr_is e t) es"
| "joberr_is (JPermanent e) t \<longleftrightarrow> joberr_is e t"
| "joberr_is (JRetryAfter e d) t \<longleftrightarrow> joberr_is e t"

record classified =
  cl_kind :: string
  cl_message :: string
  cl_delay :: "duration option"
  cl_permanent :: bool

definition classifyError :: "joberr \<Rightarrow> classified" where
  "classifyError err =
     (if as_panic err
      then \<lparr>cl_kind = ''panic'', cl_message = ''handler panicked'', cl_delay = None, cl_permanent = False\<rparr>
      else if as_permanent err
      then \<lparr>cl_kind = ''permanent'', cl_message = ''handler reported a permanent failure'',
            cl_delay = None, cl_permanent = True\<rparr>
      else case as_retryAfter err of
             Some delay \<Rightarrow> \<lparr>cl_kind = ''error'', cl_message = ''handler requested a retry'',
                            cl_delay = Some delay, cl_permanent = False\<rparr>
           | None \<Rightarrow> \<lparr>cl_kind = ''error'', cl_message = ''handler returned an error'',
                      cl_delay = None, cl_permanent = False\<rparr>)"

section \<open>Dispatch\<close>

record ('x, 's) dispatcher =
  dp_store :: "('x, 's) job_store option"
  dp_executor :: "'x option"
  dp_maxPayloadBytes :: int

definition NewDispatcher ::
    "('x, 's) job_store option \<Rightarrow> 'x option \<Rightarrow> int \<Rightarrow> ('x, 's) dispatcher result" where
  "NewDispatcher store executor maxPayload0 =
     (if store = None then Inl (Errorf ''job: store is required'' [])
      else if executor = None then Inl (Errorf ''job: executor is required'' [])
      else let maxPayload = (if maxPayload0 = 0 then DefaultMaxPayloadBytes else maxPayload0) in
      if maxPayload < 1 then Inl (Errorf ''job: max payload bytes must be positive'' [])
      else Inr \<lparr>dp_store = store, dp_executor = executor, dp_maxPayloadBytes = maxPayload\<rparr>)"

definition Dispatcher_Validate :: "('x, 's) dispatcher \<Rightarrow> unit result" where
  "Dispatcher_Validate dp =
     (if dp_store dp = None then Inl (Errorf ''job: store is required'' [])
      else if dp_executor dp = None then Inl (Errorf ''job: executor is required'' [])
      else if dp_maxPayloadBytes dp < 1 then Inl (Errorf ''job: max payload bytes must be positive'' [])
      else Inr ())"

definition Dispatcher_Using :: "'x option \<Rightarrow> ('x, 's) dispatcher \<Rightarrow> ('x, 's) dispatcher" where
  "Dispatcher_Using executor dp = dp\<lparr>dp_executor := executor\<rparr>"

record dispatch_settings =
  set_queue :: string
  set_delay :: duration
  set_delaySet :: bool
  set_at :: "time option"
  set_dedupKey :: string
  set_priority :: int

text \<open>A dispatch option is a function on the settings; \<open>None\<close> is the nil function.\<close>

type_synonym dispatch_option = "(dispatch_settings \<Rightarrow> dispatch_settings result) option"

definition Queue :: "string \<Rightarrow> dispatch_option" where
  "Queue name = Some (\<lambda>st. case validateQueue name of
     Inl err \<Rightarrow> Inl err | Inr _ \<Rightarrow> Inr (st\<lparr>set_queue := name\<rparr>))"

definition Delay :: "duration \<Rightarrow> dispatch_option" where
  "Delay delay = Some (\<lambda>st.
     if delay < 0 \<or> delay > 365 * 24 * hour
     then Inl (Errorf ''job: delay must be between zero and one year'' [])
     else if delay > 0 \<and> delay < millisecond
     then Inl (Errorf ''job: non-zero delay must be at least 1ms'' [])
     else if set_at st \<noteq> None then Inl (Errorf ''job: delay and at are mutually exclusive'' [])
     else Inr (st\<lparr>set_delay := delay, set_delaySet := True\<rparr>))"

definition At :: "time \<Rightarrow> dispatch_option" where
  "At at = Some (\<lambda>st.
     if is_zero_time at then Inl (Errorf ''job: at timestamp is required'' [])
     else if set_delaySet st then Inl (Errorf ''job: delay and at are mutually exclusive'' [])
     else Inr (st\<lparr>set_at := Some at\<rparr>))"

definition Deduplicate :: "string \<Rightarrow> dispatch_option" where
  "Deduplicate key = Some (\<lambda>st.
     if length key = 0 \<or> length key > MaxDedupKeyBytes
     then Inl (Errorf ''job: deduplication key must be between 1 and %d bytes'' [Itoa (int MaxDedupKeyBytes)])
     else Inr (st\<lparr>set_dedupKey := key\<rparr>))"

definition Priority :: "int \<Rightarrow> dispatch_option" where
  "Priority priority = Some (\<lambda>st.
     if priority < -32768 \<or> priority > 32767
     then Inl (Errorf ''job: priority is outside smallint range'' [])
     else Inr (st\<lparr>set_priority := priority\<rparr>))"

fun apply_options :: "dispatch_option list \<Rightarrow> dispatch_settings \<Rightarrow> dispatch_settings result" where
  "apply_options [] st = Inr st"
| "apply_options (None # os) st = Inl (Errorf ''job: nil dispatch option'' [])"
| "apply_options (Some f # os) st = (case f st of Inl err \<Rightarrow> Inl err | Inr st' \<Rightarrow> apply_options os st')"

definition newID :: "bytes result \<Rightarrow> string result" where
  "newID rnd =
     (case rnd of
        Inl err \<Rightarrow> Inl (Wrapf ''job: generate id: %w'' [] err)
      | Inr raw0 \<Rightarrow>
          let raw1 = raw0[6 := char_of ((of_char (raw0 ! 6) AND 0x0F) OR (0x40 :: nat))];
              raw = raw1[8 := char_of ((of_char (raw1 ! 8) AND 0x3F) OR (0x80 :: nat))]
          in Inr (hex_encode (take 4 raw) @ ''-'' @ hex_encode (take 2 (drop 4 raw)) @ ''-''
                  @ hex_encode (take 2 (drop 6 raw)) @ ''-'' @ hex_encode (take 2 (drop 8 raw)) @ ''-''
                  @ hex_encode (take 6 (drop 10 raw))))"

definition dispatch_settings_of :: "job_definition \<Rightarrow> dispatch_settings" where
  "dispatch_settings_of d = \<lparr>set_queue = pol_Queue (def_policy d), set_delay = 0, set_delaySet = False,
     set_at = None, set_dedupKey = [], set_priority = 0\<rparr>"

definition dispatch_request ::
    "job_definition \<Rightarrow> int \<Rightarrow> bytes result \<Rightarrow> bytes result \<Rightarrow> dispatch_option list \<Rightarrow>
     enqueue_request result" where
  "dispatch_request d maxPayload marshalled rnd options =
     (case apply_options options (dispatch_settings_of d) of
        Inl err \<Rightarrow> Inl err
      | Inr st \<Rightarrow>
          (case marshalled of
             Inl err \<Rightarrow> Inl (Wrapf ''job: encode %s: %w'' [def_name d] err)
           | Inr encoded \<Rightarrow>
               if int (length encoded) > maxPayload
               then Inl (Wrapf ''%w: %s is %d bytes; limit is %d''
                      [def_name d, Itoa (int (length encoded)), Itoa maxPayload] ErrPayloadTooLarge)
               else (case newID rnd of
                       Inl err \<Rightarrow> Inl err
                     | Inr i \<Rightarrow> Inr
                         \<lparr>er_ID = i, er_Queue = set_queue st, er_Name = def_name d, er_Payload = encoded,
                          er_Priority = set_priority st, er_Delay = set_delay st, er_At = set_at st,
                          er_MaxAttempts = pol_MaxAttempts (def_policy d),
                          er_Timeout = pol_Timeout (def_policy d), er_Backoff = pol_Backoff (def_policy d),
                          er_DedupKey = set_dedupKey st\<rparr>)))"

definition dispatch_event :: "event_kind \<Rightarrow> string \<Rightarrow> string \<Rightarrow> string \<Rightarrow> time \<Rightarrow> job_event" where
  "dispatch_event kind i name queue now =
     \<lparr>ev_Kind = kind, ev_JobID = i, ev_Name = name, ev_Queue = queue, ev_WorkerID = [], ev_Attempt = 0,
      ev_Duration = 0, ev_RetryAfter = 0, ev_Outcome = [], ev_At = now\<rparr>"

definition Dispatch ::
    "job_definition \<Rightarrow> ('x, 's) dispatcher \<Rightarrow> bytes result \<Rightarrow> bytes result \<Rightarrow> time \<Rightarrow>
     dispatch_option list \<Rightarrow> 's \<Rightarrow> dispatch_result result \<times> job_event list \<times> 's" where
  "Dispatch d dp marshalled rnd now options s =
     (if def_name d = [] then (Inl (Errorf ''job: valid definition is required'' []), [], s)
      else if \<not> is_ok (Dispatcher_Validate dp)
      then (Inl (Errorf ''job: valid dispatcher is required'' []), [], s)
      else case dispatch_request d (dp_maxPayloadBytes dp) marshalled rnd options of
             Inl err \<Rightarrow> (Inl err, [], s)
           | Inr req \<Rightarrow>
               (case js_Enqueue (the (dp_store dp)) (the (dp_executor dp)) req s of
                  (Inl err, s1) \<Rightarrow> (Inl (wrapStore (''dispatch '' @ def_name d) err), [], s1)
                | (Inr res, s1) \<Rightarrow>
                    (Inr res,
                     [dispatch_event (if dr_Enqueued res then EventDispatched else EventDuplicate)
                        (dr_ID res) (def_name d) (er_Queue req) now], s1)))"

section \<open>The registry\<close>

record ('v, 'h) registered_handler =
  rh_policy :: policy
  rh_decode :: "bytes \<Rightarrow> 'v result"
  rh_handle :: 'h

type_synonym ('v, 'h) registry = "(string, ('v, 'h) registered_handler) gomap"

definition NewRegistry :: "('v, 'h) registry" where
  "NewRegistry = []"

definition Register ::
    "job_definition \<Rightarrow> (bytes \<Rightarrow> 'v result) \<Rightarrow> 'h option \<Rightarrow> ('v, 'h) registry option \<Rightarrow>
     unit result \<times> ('v, 'h) registry option" where
  "Register d decode handler registry =
     (case registry of
        None \<Rightarrow> (Inl (Errorf ''job: registry is required'' []), None)
      | Some handlers \<Rightarrow>
          if def_name d = [] then (Inl (Errorf ''job: valid definition is required'' []), registry)
          else (case handler of
                  None \<Rightarrow> (Inl (Errorf ''job: handler for %s is required'' [def_name d]), registry)
                | Some h \<Rightarrow>
                    if map_of handlers (def_name d) \<noteq> None
                    then (Inl (Wrapf ''%w: %s'' [def_name d] ErrDuplicate), registry)
                    else (Inr (), Some (AList.update (def_name d)
                           \<lparr>rh_policy = def_policy d, rh_decode = decode, rh_handle = h\<rparr> handlers))))"

definition Registry_Names :: "('v, 'h) registry option \<Rightarrow> string list" where
  "Registry_Names registry = (case registry of None \<Rightarrow> [] | Some handlers \<Rightarrow> sort (map fst handlers))"

definition Registry_lookup :: "('v, 'h) registry option \<Rightarrow> string \<Rightarrow> ('v, 'h) registered_handler option" where
  "Registry_lookup registry name = (case registry of None \<Rightarrow> None | Some handlers \<Rightarrow> map_of handlers name)"

section \<open>Valid definitions\<close>

definition delay_ok :: "duration \<Rightarrow> bool" where
  "delay_ok d \<longleftrightarrow> 0 \<le> d \<and> d \<le> 30 * day \<and> (d = 0 \<or> millisecond \<le> d)"

definition queue_ok :: "string \<Rightarrow> bool" where
  "queue_ok q \<longleftrightarrow> q \<noteq> [] \<and> length q \<le> MaxQueueBytes \<and> rmatch queue_rexp q"

definition name_ok :: "string \<Rightarrow> bool" where
  "name_ok n \<longleftrightarrow> n \<noteq> [] \<and> length n \<le> MaxNameBytes \<and> rmatch versioned_name_rexp n"

definition policy_ok :: "policy \<Rightarrow> bool" where
  "policy_ok p \<longleftrightarrow> queue_ok (pol_Queue p) \<and> 1 \<le> pol_MaxAttempts p \<and> pol_MaxAttempts p \<le> 1000
     \<and> millisecond \<le> pol_Timeout p \<and> pol_Timeout p \<le> 24 * hour
     \<and> pol_Backoff p \<noteq> [] \<and> length (pol_Backoff p) \<le> 1000 \<and> list_all delay_ok (pol_Backoff p)"

lemma validateQueue_iff: "is_ok (validateQueue q) \<longleftrightarrow> queue_ok q"
  by (auto simp: validateQueue_def queue_ok_def)

lemma validateQueue_Inr: "validateQueue q = Inr u \<longleftrightarrow> queue_ok q"
  by (auto simp: validateQueue_def queue_ok_def)

lemma check_backoff_iff: "check_backoff ds = Inr u \<longleftrightarrow> list_all delay_ok ds"
  by (induction ds) (auto simp: delay_ok_def)

lemma defaultBackoff_ok: "defaultBackoff \<noteq> []" "length defaultBackoff \<le> 1000" "list_all delay_ok defaultBackoff"
  by (simp_all add: defaultBackoff_def delay_ok_def)

text \<open>Names are made of ASCII bytes that begin or end no white-space rune, so trimming keeps them.\<close>

lemma name_not_space:
  "p \<in> set space_runes \<Longrightarrow> p \<noteq> [] \<and> \<not> in_cls cls_name (hd p) \<and> \<not> in_cls cls_name (last p)"
proof -
  have "list_all (\<lambda>p. p \<noteq> [] \<and> \<not> in_cls cls_name (hd p) \<and> \<not> in_cls cls_name (last p)) space_runes"
    by (simp add: space_runes_def)
  then show "p \<in> set space_runes \<Longrightarrow> p \<noteq> [] \<and> \<not> in_cls cls_name (hd p) \<and> \<not> in_cls cls_name (last p)"
    by (simp add: list_all_iff)
qed

lemma lead_len_zero:
  assumes "\<And>p. p \<in> set ps \<Longrightarrow> p \<noteq> [] \<and> hd p \<notin> set s"
  shows "lead_len ps s = 0"
proof -
  have "\<not> starts_with p s" if "p \<in> set ps" for p
    using assms [OF that] by (cases p; cases s) auto
  then have "find (\<lambda>p. starts_with p s) ps = None" by (auto simp: find_None_iff)
  then show ?thesis by (simp add: lead_len_def)
qed

lemma TrimSpace_name: "list_all (in_cls cls_name) s \<Longrightarrow> TrimSpace s = s"
proof -
  assume s: "list_all (in_cls cls_name) s"
  have ends: "p \<noteq> [] \<and> hd p \<notin> set s \<and> last p \<notin> set s" if "p \<in> set space_runes" for p
    using name_not_space [OF that] s unfolding list_all_iff by blast
  have "lead_len space_runes s = 0" by (rule lead_len_zero) (simp add: ends)
  moreover have "lead_len (map rev space_runes) (rev s) = 0"
    by (rule lead_len_zero) (auto simp: hd_rev dest: ends)
  ultimately show ?thesis by (simp add: TrimSpace_def trim_lead_id)
qed

lemma queue_chars: "rmatch queue_rexp s \<Longrightarrow> list_all (in_cls cls_name) s"
  using in_cls_lower_name by (auto simp: queue_rexp_iff)

lemma TrimSpace_name_ok: "name_ok n \<Longrightarrow> TrimSpace n = n"
  using TrimSpace_name queue_chars versioned_name_is_queue by (auto simp: name_ok_def)

lemma Define_valid:
  assumes "Define n p = Inr d"
  shows "name_ok (def_name d) \<and> policy_ok (def_policy d)"
  using assms defaultBackoff_ok
  by (auto simp: Define_def Let_def name_ok_def policy_ok_def validateQueue_Inr check_backoff_iff
      split: if_splits sum.splits)

lemma Define_id:
  assumes "name_ok n" and "policy_ok p"
  shows "Define n p = Inr \<lparr>def_name = n, def_policy = p\<rparr>"
  using assms TrimSpace_name_ok [OF assms(1)] validateQueue_Inr [of "pol_Queue p" "()"]
    check_backoff_iff [of "pol_Backoff p" "()"]
  by (auto simp: Define_def Let_def name_ok_def policy_ok_def queue_ok_def split: sum.splits)

text \<open>The values \<open>Define\<close> can produce are exactly the definitions with a versioned name of at most
  128 bytes and a policy within the documented bounds, and defining such a value again changes
  nothing: the defaults are applied once.\<close>

theorem define_exact:
  "((\<exists>n p. Define n p = Inr d) \<longleftrightarrow> name_ok (def_name d) \<and> policy_ok (def_policy d))
   \<and> (name_ok (def_name d) \<and> policy_ok (def_policy d)
       \<longleftrightarrow> Define (def_name d) (def_policy d) = Inr d)"
proof -
  have d: "\<lparr>def_name = def_name d, def_policy = def_policy d\<rparr> = d" by simp
  show ?thesis using Define_valid [of _ _ d] Define_id [of "def_name d" "def_policy d"] unfolding d by blast
qed

section \<open>Valid requests\<close>

definition request_ok :: "int \<Rightarrow> enqueue_request \<Rightarrow> bool" where
  "request_ok maxPayload req \<longleftrightarrow>
     name_ok (er_Name req) \<and> queue_ok (er_Queue req) \<and> int (length (er_Payload req)) \<le> maxPayload
     \<and> -32768 \<le> er_Priority req \<and> er_Priority req \<le> 32767
     \<and> 0 \<le> er_Delay req \<and> er_Delay req \<le> 365 * 24 * hour
     \<and> (er_Delay req = 0 \<or> millisecond \<le> er_Delay req)
     \<and> er_At req \<noteq> Some 0 \<and> (er_At req = None \<or> er_Delay req = 0)
     \<and> 1 \<le> er_MaxAttempts req \<and> er_MaxAttempts req \<le> 1000
     \<and> millisecond \<le> er_Timeout req \<and> er_Timeout req \<le> 24 * hour
     \<and> er_Backoff req \<noteq> [] \<and> length (er_Backoff req) \<le> 1000 \<and> list_all delay_ok (er_Backoff req)
     \<and> length (er_DedupKey req) \<le> MaxDedupKeyBytes"

definition settings_ok :: "dispatch_settings \<Rightarrow> bool" where
  "settings_ok st \<longleftrightarrow>
     queue_ok (set_queue st) \<and> 0 \<le> set_delay st \<and> set_delay st \<le> 365 * 24 * hour
     \<and> (set_delay st = 0 \<or> millisecond \<le> set_delay st)
     \<and> set_at st \<noteq> Some 0 \<and> (set_delaySet st \<longrightarrow> set_at st = None)
     \<and> (\<not> set_delaySet st \<longrightarrow> set_delay st = 0)
     \<and> length (set_dedupKey st) \<le> MaxDedupKeyBytes
     \<and> -32768 \<le> set_priority st \<and> set_priority st \<le> 32767"

inductive package_option :: "dispatch_option \<Rightarrow> bool" where
  "package_option None"
| "package_option (Queue name)"
| "package_option (Delay d)"
| "package_option (At t)"
| "package_option (Deduplicate key)"
| "package_option (Priority p)"

lemmas option_defs = Queue_def Delay_def At_def Deduplicate_def Priority_def

lemma package_option_ok:
  "package_option (Some f) \<Longrightarrow> settings_ok st \<Longrightarrow> f st = Inr st' \<Longrightarrow> settings_ok st'"
  by (erule package_option.cases)
    (auto simp: option_defs settings_ok_def validateQueue_Inr is_zero_time_def split: if_splits sum.splits)

lemma apply_options_ok:
  "apply_options os st = Inr st' \<Longrightarrow> \<forall>f \<in> set os. package_option f \<Longrightarrow> settings_ok st \<Longrightarrow> settings_ok st'"
  by (induction os st rule: apply_options.induct) (auto dest: package_option_ok split: sum.splits)

lemma dispatch_request_ok:
  assumes "dispatch_request d maxPayload marshalled rnd options = Inr req"
    and "name_ok (def_name d)" and "policy_ok (def_policy d)" and "\<forall>f \<in> set options. package_option f"
  shows "request_ok maxPayload req"
proof -
  have st: "settings_ok (dispatch_settings_of d)"
    using assms(3) by (simp add: settings_ok_def dispatch_settings_of_def policy_ok_def)
  obtain st' where st': "apply_options options (dispatch_settings_of d) = Inr st'"
    using assms(1) by (auto simp: dispatch_request_def split: sum.splits)
  have "settings_ok st'" using apply_options_ok [OF st' assms(4) st] .
  with assms(1-3) st' show ?thesis
    by (auto simp: dispatch_request_def request_ok_def settings_ok_def policy_ok_def
        split: sum.splits if_splits)
qed

text \<open>The outcome of \<open>Dispatch\<close>: nothing reaches the store, or exactly one \<open>Enqueue\<close> call does.\<close>

lemma Dispatch_cases:
  assumes "Dispatch d dp marshalled rnd now options s = (res, evs, s1)"
  obtains (rejected) e where "res = Inl e" "evs = []" "s1 = s"
  | (stored) S x req r where "dp_store dp = Some S" "dp_executor dp = Some x"
      "dispatch_request d (dp_maxPayloadBytes dp) marshalled rnd options = Inr req"
      "js_Enqueue S x req s = (r, s1)"
      "case r of Inl e \<Rightarrow> res = Inl (wrapStore (''dispatch '' @ def_name d) e) \<and> evs = []
       | Inr dr \<Rightarrow> res = Inr dr
           \<and> evs = [dispatch_event (if dr_Enqueued dr then EventDispatched else EventDuplicate)
                      (dr_ID dr) (def_name d) (er_Queue req) now]"
proof (cases "def_name d = [] \<or> \<not> is_ok (Dispatcher_Validate dp)")
  case True
  with assms rejected show ?thesis by (auto simp: Dispatch_def split: if_splits)
next
  case False
  then obtain S x where dp: "dp_store dp = Some S" "dp_executor dp = Some x"
    by (auto simp: Dispatcher_Validate_def split: if_splits)
  show ?thesis
  proof (cases "dispatch_request d (dp_maxPayloadBytes dp) marshalled rnd options")
    case (Inl e)
    with False assms rejected show ?thesis by (auto simp: Dispatch_def)
  next
    case (Inr req)
    obtain r s2 where enq: "js_Enqueue S x req s = (r, s2)" by fastforce
    with False assms Inr dp have "s2 = s1" by (auto simp: Dispatch_def split: sum.splits)
    with False assms Inr dp enq show ?thesis
      by (intro stored [of S x req r]) (auto simp: Dispatch_def split: sum.splits)
  qed
qed

text \<open>C13: for a definition built by \<open>Define\<close> and any sequence of the package's dispatch options, every
  request that \<open>Dispatch\<close> passes to the store respects all the bounds: names, queue, payload size,
  small-integer priority, attempts, timeout and backoff, a delay of zero or between a millisecond
  and a year, and never both a delay and an absolute time.\<close>

theorem dispatch_request_bounds:
  assumes "Define n p = Inr d" and "\<forall>f \<in> set options. package_option f"
    and "Dispatch d dp marshalled rnd now options s = (Inr res, evs, s1)"
  shows "\<exists>S x req. dp_store dp = Some S \<and> dp_executor dp = Some x
    \<and> js_Enqueue S x req s = (Inr res, s1) \<and> request_ok (dp_maxPayloadBytes dp) req
    \<and> er_Name req = def_name d
    \<and> evs = [dispatch_event (if dr_Enqueued res then EventDispatched else EventDuplicate)
               (dr_ID res) (def_name d) (er_Queue req) now]"
  using assms(3)
proof (cases rule: Dispatch_cases)
  case rejected
  then show ?thesis by simp
next
  case (stored S x req r)
  have "request_ok (dp_maxPayloadBytes dp) req"
    using dispatch_request_ok [OF stored(3) _ _ assms(2)] Define_valid [OF assms(1)] by blast
  moreover have "er_Name req = def_name d"
    using stored(3) by (auto simp: dispatch_request_def split: sum.splits if_splits)
  ultimately show ?thesis using stored by (auto split: sum.splits)
qed

section \<open>Identifiers\<close>

lemma nibble_version: "n < 256 \<Longrightarrow> (n AND 0x0F) OR 0x40 = n mod 16 + (64 :: nat)"
proof -
  have and15: "n AND 0x0F = n mod 16" for n :: nat
    using take_bit_eq_mask [of 4 n] by (simp add: mask_eq_exp_minus_1 take_bit_eq_mod)
  have "bit (n mod 16) k \<Longrightarrow> k < 4" for n :: nat and k
    using bit_take_bit_iff [of 4 n k] by (simp add: take_bit_eq_mod)
  moreover have "bit (64 :: nat) k \<Longrightarrow> k = 6" for k
    using bit_exp_iff [of 6 k, where ?'a = nat] by (simp add: possible_bit_def)
  ultimately have "(n mod 16) OR 64 = n mod 16 + 64"
    by (intro disjunctive_add [symmetric]) fastforce
  then show "(n AND 0x0F) OR 0x40 = n mod 16 + (64 :: nat)" by (simp add: and15)
qed

lemma nibble_variant: "n < 256 \<Longrightarrow> (n AND 0x3F) OR 0x80 = n mod 64 + (128 :: nat)"
proof -
  have and63: "n AND 0x3F = n mod 64" for n :: nat
    using take_bit_eq_mask [of 6 n] by (simp add: mask_eq_exp_minus_1 take_bit_eq_mod)
  have "bit (n mod 64) k \<Longrightarrow> k < 6" for n :: nat and k
    using bit_take_bit_iff [of 6 n k] by (simp add: take_bit_eq_mod)
  moreover have "bit (128 :: nat) k \<Longrightarrow> k = 7" for k
    using bit_exp_iff [of 7 k, where ?'a = nat] by (simp add: possible_bit_def)
  ultimately have "(n mod 64) OR 128 = n mod 64 + 128"
    by (intro disjunctive_add [symmetric]) fastforce
  then show "(n AND 0x3F) OR 0x80 = n mod 64 + (128 :: nat)" by (simp add: and63)
qed

definition uuid_v4 :: "string \<Rightarrow> bool" where
  "uuid_v4 s \<longleftrightarrow>
     (case split_on CHR ''-'' s of
        [a, b, c, d, e] \<Rightarrow>
          map length [a, b, c, d, e] = [8, 4, 4, 4, 12] \<and> list_all is_hex (a @ b @ c @ d @ e)
          \<and> hd c = CHR ''4'' \<and> hd d \<in> set ''89ab''
      | _ \<Rightarrow> False)"

definition fix_bits :: "bytes \<Rightarrow> bytes" where
  "fix_bits raw0 =
     (let raw1 = raw0[6 := char_of (of_char (raw0 ! 6) mod 16 + (64 :: nat))]
      in raw1[8 := char_of (of_char (raw1 ! 8) mod 64 + (128 :: nat))])"

lemma newID_fix_bits:
  "newID (Inr raw) = Inr (join_with ''-'' (map hex_encode
     [take 4 (fix_bits raw), take 2 (drop 4 (fix_bits raw)), take 2 (drop 6 (fix_bits raw)),
      take 2 (drop 8 (fix_bits raw)), take 6 (drop 10 (fix_bits raw))]))"
  by (simp add: newID_def fix_bits_def Let_def nibble_version nibble_variant of_char_nat_less)

lemma hex_no_dash: "CHR ''-'' \<notin> set (hex_encode b)"
  using hex_encode_ok [of b] by (auto simp: hex_ok_def list_all_iff is_hex_def Let_def)

lemma hd_hex_encode: "b \<noteq> [] \<Longrightarrow> hd (hex_encode b) = hex_digit (of_char (hd b) div 16)"
  by (cases b) auto

lemma hex_digit_consts:
  "hex_digit 4 = CHR ''4''" "hex_digit 8 = CHR ''8''" "hex_digit 9 = CHR ''9''"
  "hex_digit 10 = CHR ''a''" "hex_digit 11 = CHR ''b''"
  by code_simp+

lemma fix_bits_bytes:
  assumes "length raw = 16"
  shows "length (fix_bits raw) = 16"
    and "of_char (fix_bits raw ! 6) = of_char (raw ! 6) mod 16 + (64 :: nat)"
    and "of_char (fix_bits raw ! 8) = of_char (raw ! 8) mod 64 + (128 :: nat)"
    and "i \<noteq> 6 \<Longrightarrow> i \<noteq> 8 \<Longrightarrow> fix_bits raw ! i = raw ! i"
proof -
  have "(of_char (char_of n :: char) :: nat) = n" if "n < 256" for n using that by simp
  moreover have "of_char (raw ! 6) mod 16 + (64 :: nat) < 256" "of_char (raw ! 8) mod 64 + (128 :: nat) < 256"
    using mod_less_divisor [of 16 "of_char (raw ! 6)"] mod_less_divisor [of 64 "of_char (raw ! 8)"] by linarith+
  ultimately show "of_char (fix_bits raw ! 6) = of_char (raw ! 6) mod 16 + (64 :: nat)"
    "of_char (fix_bits raw ! 8) = of_char (raw ! 8) mod 64 + (128 :: nat)"
    using assms by (simp_all add: fix_bits_def Let_def del: of_char_of)
qed (use assms in \<open>simp_all add: fix_bits_def Let_def\<close>)

text \<open>Every generated job ID is a version 4 UUID in the canonical text form, and two draws of
  sixteen random bytes give the same ID only if they agree on the 122 bits that are not fixed.\<close>

theorem newID_uuid:
  assumes "length raw = 16" and "newID (Inr raw) = Inr i"
  shows "uuid_v4 i \<and> (\<forall>raw'. length raw' = 16 \<and> newID (Inr raw') = Inr i \<longrightarrow>
    (\<forall>k < 16. k \<noteq> 6 \<and> k \<noteq> 8 \<longrightarrow> raw' ! k = raw ! k)
    \<and> (of_char (raw' ! 6) :: nat) mod 16 = of_char (raw ! 6) mod 16
    \<and> (of_char (raw' ! 8) :: nat) mod 64 = of_char (raw ! 8) mod 64)"
proof -
  let ?parts = "\<lambda>r. [take 4 r, take 2 (drop 4 r), take 2 (drop 6 r), take 2 (drop 8 r), take 6 (drop 10 r)]"
  have split: "split_on CHR ''-'' i = map hex_encode (?parts (fix_bits r))"
    if "newID (Inr r) = Inr i" for r
  proof -
    have "split_on CHR ''-'' (join_with ''-'' (map hex_encode (?parts (fix_bits r))))
        = map hex_encode (?parts (fix_bits r))"
      by (rule split_join) (auto simp: hex_no_dash)
    with that show ?thesis by (simp only: newID_fix_bits sum.inject)
  qed
  note fb = fix_bits_bytes [OF assms(1)]
  have div6: "(of_char (raw ! 6) mod 16 + 64) div 16 = (4 :: nat)"
    using mod_less_divisor [of 16 "of_char (raw ! 6) :: nat"] by simp
  have hd6: "hd (hex_encode (take 2 (drop 6 (fix_bits raw)))) = CHR ''4''"
    using fb(1,2) div6 by (subst hd_hex_encode) (auto simp: hd_drop_conv_nth hex_digit_consts)
  have div8: "(of_char (raw ! 8) mod 64 + 128) div 16 \<in> {8, 9, 10, 11 :: nat}"
    using mod_less_divisor [of 64 "of_char (raw ! 8) :: nat"] by auto
  have hd8: "hd (hex_encode (take 2 (drop 8 (fix_bits raw)))) \<in> set ''89ab''"
    using fb(1,3) div8 by (subst hd_hex_encode) (auto simp: hd_drop_conv_nth hex_digit_consts)
  have "uuid_v4 i"
    unfolding uuid_v4_def split [OF assms(2)] using hd6 hd8 fb(1) hex_encode_ok
    by (simp add: length_hex_encode hex_ok_def)
  have concat_parts: "concat (?parts r) = r" if "length r = 16" for r :: bytes
    using that take_add [of 4 2 r] take_add [of 6 2 r] take_add [of 8 2 r] take_add [of 10 6 r] by simp
  have "fix_bits raw' = fix_bits raw" if "length raw' = 16" "newID (Inr raw') = Inr i" for raw'
  proof -
    have "?parts (fix_bits raw') = ?parts (fix_bits raw)"
      using split [OF that(2)] split [OF assms(2)] by (simp add: hex_encode_inject)
    then have "concat (?parts (fix_bits raw')) = concat (?parts (fix_bits raw))" by simp
    then show ?thesis using concat_parts fb(1) fix_bits_bytes(1) [OF that(1)] by metis
  qed
  then have "(\<forall>k < 16. k \<noteq> 6 \<and> k \<noteq> 8 \<longrightarrow> raw' ! k = raw ! k)
      \<and> (of_char (raw' ! 6) :: nat) mod 16 = of_char (raw ! 6) mod 16
      \<and> (of_char (raw' ! 8) :: nat) mod 64 = of_char (raw ! 8) mod 64"
    if "length raw' = 16" "newID (Inr raw') = Inr i" for raw'
    using that fb(2-4) fix_bits_bytes(2-4) [OF that(1)] by (metis add_right_cancel)
  with \<open>uuid_v4 i\<close> show ?thesis by blast
qed

section \<open>Registries\<close>

inductive registry_built :: "('v, 'h) registry \<Rightarrow> bool" where
  built_new: "registry_built NewRegistry"
| built_register: "registry_built hs \<Longrightarrow> Register d decode handler (Some hs) = (res, Some hs') \<Longrightarrow>
    registry_built hs'"

lemma Register_cases:
  assumes "Register d decode handler (Some hs) = (res, Some hs')"
  obtains (refused) e where "res = Inl e" "hs' = hs"
  | (added) h where "handler = Some h" "res = Inr ()" "def_name d \<noteq> []" "map_of hs (def_name d) = None"
      "hs' = AList.update (def_name d) \<lparr>rh_policy = def_policy d, rh_decode = decode, rh_handle = h\<rparr> hs"
  using assms by (auto simp: Register_def split: if_splits option.splits)

lemma Registry_lookup_map: "Registry_lookup (Some hs) = map_of hs"
  by (simp add: fun_eq_iff Registry_lookup_def)

lemma registry_built_wf: "registry_built hs \<Longrightarrow> map_wf hs"
proof (induction rule: registry_built.induct)
  case built_new
  then show ?case by (simp add: NewRegistry_def)
next
  case (built_register hs d decode handler res hs')
  show ?case
    by (rule Register_cases [OF built_register.hyps(2)]) (use built_register.IH in \<open>auto intro: gomap_wf\<close>)
qed

text \<open>A registry never replaces a handler. A registration either fails and changes nothing or adds
  the handler under a new name, \<open>lookup\<close> finds exactly the registered handlers, and \<open>Names\<close> lists
  each registered name once, in increasing byte order.\<close>

theorem registry_register:
  assumes "registry_built hs" and "Register d decode handler (Some hs) = (res, Some hs')"
  shows "(case res of
       Inl e \<Rightarrow> hs' = hs
     | Inr _ \<Rightarrow> Registry_lookup (Some hs) (def_name d) = None
         \<and> (\<exists>h. handler = Some h \<and> Registry_lookup (Some hs') = (Registry_lookup (Some hs))
              (def_name d \<mapsto> \<lparr>rh_policy = def_policy d, rh_decode = decode, rh_handle = h\<rparr>)))
    \<and> sorted_wrt (<) (Registry_Names (Some hs'))
    \<and> set (Registry_Names (Some hs')) = dom (Registry_lookup (Some hs'))"
proof -
  have "map_wf hs'" using registry_built_wf built_register assms by blast
  then have names: "sorted_wrt (<) (Registry_Names (Some hs'))
    \<and> set (Registry_Names (Some hs')) = dom (Registry_lookup (Some hs'))"
    by (simp add: Registry_Names_def Registry_lookup_map strict_sorted_iff dom_map_of_conv_image_fst)
  show ?thesis
    by (rule Register_cases [OF assms(2)])
      (use names in \<open>auto simp: Registry_lookup_map update_conv'\<close>)
qed

section \<open>Witnesses\<close>

definition demo_policy :: policy where
  "demo_policy = \<lparr>pol_Queue = ''mail'', pol_MaxAttempts = 5, pol_Timeout = 10 * second,
     pol_Backoff = [second, 0]\<rparr>"

definition demo_definition :: job_definition where
  "demo_definition = \<lparr>def_name = ''mail.send.v1'', def_policy = demo_policy\<rparr>"

lemma demo_define: "Define ''mail.send.v1'' demo_policy = Inr demo_definition"
proof -
  have "name_ok ''mail.send.v1''"
    by (simp add: name_ok_def MaxNameBytes_def versioned_name_rexp_def)
  moreover have "policy_ok demo_policy"
    by (simp add: policy_ok_def demo_policy_def queue_ok_def delay_ok_def MaxQueueBytes_def queue_rexp_def)
  ultimately show ?thesis by (simp add: Define_id demo_definition_def)
qed

text \<open>A store that accepts every request and counts them.\<close>

definition demo_store :: "(unit, nat) job_store" where
  "demo_store = \<lparr>js_Enqueue = (\<lambda>x req n. (Inr \<lparr>dr_ID = er_ID req, dr_Enqueued = True\<rparr>, Suc n)),
     js_Claim = (\<lambda>r n. (Inr [], n)), js_Heartbeat = (\<lambda>l d n. (Inr True, n)), js_Ack = (\<lambda>l n. (Inr True, n)),
     js_Retry = (\<lambda>r n. (Inr True, n)), js_Release = (\<lambda>l n. (Inr True, n)),
     js_Fail = (\<lambda>r n. (Inr True, n)), js_FailExhausted = (\<lambda>qs ns l n. (Inr [], n))\<rparr>"

theorem dispatch_request_bounds_witness:
  "\<exists>res evs. Dispatch demo_definition \<lparr>dp_store = Some demo_store, dp_executor = Some (), dp_maxPayloadBytes = 100\<rparr>
       (Inr ''{}'') (Inr (replicate 16 CHR ''x'')) 1 [Delay second, Priority 7] 0 = (Inr res, evs, 1)
     \<and> length evs = 1
     \<and> (\<exists>req. js_Enqueue demo_store () req 0 = (Inr res, 1) \<and> request_ok 100 req)"
proof -
  let ?dp = "\<lparr>dp_store = Some demo_store, dp_executor = Some (), dp_maxPayloadBytes = 100\<rparr>"
  have opts: "\<forall>f \<in> set [Delay second, Priority 7]. package_option f" by (auto intro: package_option.intros)
  have "\<exists>res evs. Dispatch demo_definition ?dp (Inr ''{}'') (Inr (replicate 16 CHR ''x'')) 1
      [Delay second, Priority 7] 0 = (Inr res, evs, 1)"
    by (simp add: Dispatch_def demo_definition_def Dispatcher_Validate_def dispatch_request_def
        dispatch_settings_of_def Delay_def Priority_def newID_fix_bits demo_store_def)
  then obtain res evs where run: "Dispatch demo_definition ?dp (Inr ''{}'') (Inr (replicate 16 CHR ''x'')) 1
      [Delay second, Priority 7] 0 = (Inr res, evs, 1)" by blast
  from dispatch_request_bounds [OF demo_define opts run] run show ?thesis by auto
qed

theorem newID_uuid_witness:
  "\<exists>i. newID (Inr (replicate 16 CHR ''x'')) = Inr i \<and> uuid_v4 i"
proof -
  obtain i where i: "newID (Inr (replicate 16 CHR ''x'')) = Inr i" by (simp add: newID_fix_bits)
  with newID_uuid [OF _ i] show ?thesis by simp
qed

theorem registry_register_witness:
  "\<exists>hs'. Register demo_definition Inr (Some ()) (Some NewRegistry) = (Inr (), Some hs')
     \<and> Registry_Names (Some hs') = [''mail.send.v1''] \<and> sorted_wrt (<) (Registry_Names (Some hs'))"
proof -
  obtain hs' where r: "Register demo_definition Inr (Some ()) (Some NewRegistry) = (Inr (), Some hs')"
    and n: "Registry_Names (Some hs') = [''mail.send.v1'']"
    by (simp add: Register_def demo_definition_def NewRegistry_def Registry_Names_def)
  with registry_register [OF built_new r] show ?thesis by blast
qed

end
