(* ===== verification/Job_Store.thy ===== *)
theory Job_Store
  imports Job_Core Go_Json "HOL-Library.Product_Lexorder" "HOL-Library.Multiset"
begin

text \<open>
  The PostgreSQL job store (\<^verbatim>\<open>src/job/postgres/store.go\<close>, \<^verbatim>\<open>failure.go\<close>,
  \<^verbatim>\<open>admin.go\<close>, \<^verbatim>\<open>schema.go\<close>). The two tables are lists of rows, in physical order. Every
  SQL statement of the package is one atomic function on the tables: its \<open>WHERE\<close> clause is a predicate on
  rows, \<open>ORDER BY\<close> a sort by a key, and the constraints of the schema (\<open>CHECK\<close>, primary keys and the
  partial unique index on active deduplication keys) make the statement fail without effect.
  \<open>clock_timestamp()\<close>, read once per statement, is the argument \<open>now\<close>; the rows that other transactions
  have locked, which \<open>SKIP LOCKED\<close> passes over, are the argument \<open>locked\<close>. The conversions the server and
  the driver perform on parameters are a record of functions: text to \<open>uuid\<close> (the result being the
  text form of the value), text to \<open>jsonb\<close> (again as text), and a time stamp to \<open>timestamptz\<close>. Failures
  of the connection are not modelled.
\<close>

section \<open>Configuration\<close>

definition identifier_rexp :: rexp where
  "identifier_rexp = seqs [Cls [(CHR ''a'', CHR ''z''), (CHR ''_'', CHR ''_'')],
     Star (Cls [(CHR ''a'', CHR ''z''), (CHR ''0'', CHR ''9''), (CHR ''_'', CHR ''_'')])]"

record pg_config =
  cf_jobsTable :: string
  cf_failedTable :: string
  cf_maxPayload :: int
  cf_maxError :: int

type_synonym pg_option = "(pg_config \<Rightarrow> pg_config result) option"

definition validIdentifier :: "string \<Rightarrow> bool" where
  "validIdentifier val \<longleftrightarrow> length val > 0 \<and> length val \<le> 63 \<and> rmatch identifier_rexp val"

definition WithLimits :: "int \<Rightarrow> int \<Rightarrow> pg_option" where
  "WithLimits maxPayloadBytes maxErrorBytes = Some (\<lambda>c.
     if maxPayloadBytes < 1 \<or> maxErrorBytes < 1 then Inl (Errorf ''job/postgres: limits must be positive'' [])
     else Inr (c\<lparr>cf_maxPayload := maxPayloadBytes, cf_maxError := maxErrorBytes\<rparr>))"

definition WithTables :: "string \<Rightarrow> string \<Rightarrow> pg_option" where
  "WithTables jobsTable failedTable = Some (\<lambda>c.
     if \<not> validIdentifier jobsTable \<or> \<not> validIdentifier failedTable
     then Inl (Errorf ''job/postgres: invalid table names %q and %q'' [jobsTable, failedTable])
     else Inr (c\<lparr>cf_jobsTable := jobsTable, cf_failedTable := failedTable\<rparr>))"

definition quote :: "string \<Rightarrow> string" where
  "quote val = CHR 0x22 # val @ [CHR 0x22]"

record pg_store =
  st_jobsTable :: string
  st_failedTable :: string
  st_maxPayload :: int
  st_maxError :: int

fun apply_pg_options :: "pg_option list \<Rightarrow> pg_config \<Rightarrow> pg_config result" where
  "apply_pg_options [] c = Inr c"
| "apply_pg_options (None # os) c = Inl (Errorf ''job/postgres: nil option'' [])"
| "apply_pg_options (Some f # os) c = (case f c of Inl err \<Rightarrow> Inl err | Inr c' \<Rightarrow> apply_pg_options os c')"

definition PG_New :: "bool \<Rightarrow> pg_option list \<Rightarrow> pg_store result" where
  "PG_New db_nil options =
     (if db_nil then Inl (Errorf ''job/postgres: database is required'' [])
      else case apply_pg_options options
             \<lparr>cf_jobsTable = ''goforge_jobs'', cf_failedTable = ''goforge_failed_jobs'',
              cf_maxPayload = DefaultMaxPayloadBytes, cf_maxError = DefaultMaxErrorBytes\<rparr> of
           Inl err \<Rightarrow> Inl err
         | Inr c \<Rightarrow> Inr \<lparr>st_jobsTable = quote (cf_jobsTable c), st_failedTable = quote (cf_failedTable c),
                         st_maxPayload = cf_maxPayload c, st_maxError = cf_maxError c\<rparr>)"

section \<open>Tables\<close>

record job_row =
  jr_id :: string
  jr_queue :: string
  jr_name :: string
  jr_payload :: bytes
  jr_priority :: int
  jr_available_at :: time
  jr_attempts :: int
  jr_max_attempts :: int
  jr_timeout_ms :: int
  jr_backoff_ms :: "int list"
  jr_lease_owner :: "string option"
  jr_lease_generation :: int
  jr_leased_at :: "time option"
  jr_lease_expires_at :: "time option"
  jr_dedup_key :: "string option"
  jr_last_error_kind :: "string option"
  jr_last_error :: "string option"
  jr_created_at :: time
  jr_updated_at :: time

record failed_row =
  fa_id :: string
  fa_queue :: string
  fa_name :: string
  fa_payload :: bytes
  fa_priority :: int
  fa_attempts :: int
  fa_max_attempts :: int
  fa_timeout_ms :: int
  fa_backoff_ms :: "int list"
  fa_dedup_key :: "string option"
  fa_failure_kind :: string
  fa_failure_message :: string
  fa_created_at :: time
  fa_failed_at :: time

record jobs_db =
  db_jobs :: "job_row list"
  db_failed :: "failed_row list"

record pg_env =
  pg_uuid :: "string \<Rightarrow> string option"
  pg_jsonb :: "bytes \<Rightarrow> bytes option"
  pg_timestamptz :: "time \<Rightarrow> time option"

text \<open>Values of type \<open>text\<close> are valid UTF-8 without the zero byte.\<close>

definition pg_text_ok :: "string \<Rightarrow> bool" where
  "pg_text_ok s \<longleftrightarrow> ValidString s \<and> CHR 0x00 \<notin> set s"

definition backoff_check :: "int list \<Rightarrow> bool" where
  "backoff_check ms \<longleftrightarrow> 1 \<le> length ms \<and> length ms \<le> 1000
     \<and> list_all (\<lambda>m. 0 \<le> m) ms \<and> list_all (\<lambda>m. m \<le> 2592000000) ms"

definition dedup_check :: "string option \<Rightarrow> bool" where
  "dedup_check k \<longleftrightarrow> (case k of None \<Rightarrow> True | Some s \<Rightarrow> 1 \<le> length s \<and> length s \<le> 256)"

definition jobs_check :: "job_row \<Rightarrow> bool" where
  "jobs_check r \<longleftrightarrow>
     length (jr_queue r) \<le> 64 \<and> rmatch queue_rexp (jr_queue r)
     \<and> length (jr_name r) \<le> 128 \<and> rmatch versioned_name_rexp (jr_name r)
     \<and> length (jr_payload r) \<le> 262144
     \<and> jr_attempts r \<ge> 0 \<and> 1 \<le> jr_max_attempts r \<and> jr_max_attempts r \<le> 1000
     \<and> 1 \<le> jr_timeout_ms r \<and> jr_timeout_ms r \<le> 86400000
     \<and> backoff_check (jr_backoff_ms r)
     \<and> (case jr_lease_owner r of None \<Rightarrow> True | Some w \<Rightarrow> 1 \<le> length w \<and> length w \<le> 128)
     \<and> jr_lease_generation r \<ge> 0 \<and> dedup_check (jr_dedup_key r)
     \<and> (case jr_last_error_kind r of None \<Rightarrow> True | Some k \<Rightarrow> length k \<le> 64)
     \<and> (case jr_last_error r of None \<Rightarrow> True | Some m \<Rightarrow> length m \<le> 8192)
     \<and> ((jr_lease_owner r = None \<and> jr_leased_at r = None \<and> jr_lease_expires_at r = None)
        \<or> (jr_lease_owner r \<noteq> None \<and> jr_leased_at r \<noteq> None \<and> jr_lease_expires_at r \<noteq> None))"

definition failed_check :: "failed_row \<Rightarrow> bool" where
  "failed_check r \<longleftrightarrow>
     length (fa_queue r) \<le> 64 \<and> rmatch queue_rexp (fa_queue r)
     \<and> length (fa_name r) \<le> 128 \<and> rmatch versioned_name_rexp (fa_name r)
     \<and> length (fa_payload r) \<le> 262144
     \<and> fa_attempts r \<ge> 0 \<and> 1 \<le> fa_max_attempts r \<and> fa_max_attempts r \<le> 1000
     \<and> 1 \<le> fa_timeout_ms r \<and> fa_timeout_ms r \<le> 86400000
     \<and> backoff_check (fa_backoff_ms r) \<and> dedup_check (fa_dedup_key r)
     \<and> 1 \<le> length (fa_failure_kind r) \<and> length (fa_failure_kind r) \<le> 64
     \<and> length (fa_failure_message r) \<le> 8192"

definition same_dedup :: "job_row \<Rightarrow> job_row \<Rightarrow> bool" where
  "same_dedup r r' \<longleftrightarrow> jr_dedup_key r \<noteq> None \<and> jr_queue r = jr_queue r' \<and> jr_name r = jr_name r'
     \<and> jr_dedup_key r = jr_dedup_key r'"

definition pg_check_violation :: goerr where "pg_check_violation = Sentinel ''SQLSTATE 23514''"
definition pg_unique_violation :: goerr where "pg_unique_violation = Sentinel ''SQLSTATE 23505''"
definition pg_bad_parameter :: goerr where "pg_bad_parameter = Sentinel ''SQLSTATE 22P02''"

definition insert_job :: "job_row \<Rightarrow> job_row list \<Rightarrow> job_row list result" where
  "insert_job row jobs =
     (if \<not> jobs_check row then Inl pg_check_violation
      else if \<exists>r \<in> set jobs. jr_id r = jr_id row \<or> same_dedup r row then Inl pg_unique_violation
      else Inr (jobs @ [row]))"

fun insert_failed :: "failed_row list \<Rightarrow> failed_row list \<Rightarrow> failed_row list result" where
  "insert_failed [] failed = Inr failed"
| "insert_failed (row # rows) failed =
     (if \<not> failed_check row then Inl pg_check_violation
      else if \<exists>r \<in> set failed. fa_id r = fa_id row then Inl pg_unique_violation
      else insert_failed rows (failed @ [row]))"

definition update_jobs ::
    "(job_row \<Rightarrow> bool) \<Rightarrow> (job_row \<Rightarrow> job_row) \<Rightarrow> job_row list \<Rightarrow> (nat \<times> job_row list) result" where
  "update_jobs p f jobs =
     (if \<exists>r \<in> set jobs. p r \<and> \<not> jobs_check (f r) then Inl pg_check_violation
      else Inr (length (filter p jobs), map (\<lambda>r. if p r then f r else r) jobs))"

section \<open>Failure messages\<close>

definition safeFailureMessage :: "string \<Rightarrow> string \<Rightarrow> string" where
  "safeFailureMessage kind message =
     (if kind = ''panic'' then ''handler panicked''
      else if kind = ''permanent'' then ''handler reported a permanent failure''
      else if kind = ''timeout'' then ''handler deadline exceeded''
      else if kind = ''malformed_payload'' then ''job payload could not be decoded''
      else if kind = ''lease_exhausted'' then ''lease expired after final attempt''
      else if kind = ''error''
      then (if message = ''handler requested a retry'' then message else ''handler returned an error'')
      else ''job attempt failed'')"

definition boundedSafeFailureMessage :: "pg_store \<Rightarrow> string \<Rightarrow> string \<Rightarrow> string" where
  "boundedSafeFailureMessage st kind message0 =
     (let message = safeFailureMessage kind message0 in
      if int (length message) > st_maxError st then take (nat (st_maxError st)) message else message)"

section \<open>Durations\<close>

definition durationsToMilliseconds :: "duration list \<Rightarrow> int list" where
  "durationsToMilliseconds ds = map milliseconds ds"

definition millisecondsToDurations :: "int list \<Rightarrow> duration list" where
  "millisecondsToDurations ms = map (\<lambda>m. wrap64 (m * millisecond)) ms"

definition decodeDurations :: "string \<Rightarrow> duration list result" where
  "decodeDurations encoded =
     (case unmarshal_int64s encoded of Inl err \<Rightarrow> Inl err | Inr ms \<Rightarrow> Inr (millisecondsToDurations ms))"

section \<open>Enqueue\<close>

definition enqueue_invalid :: "pg_store \<Rightarrow> enqueue_request \<Rightarrow> goerr option" where
  "enqueue_invalid st req =
     (if length (er_Name req) = 0 \<or> length (er_Name req) > MaxNameBytes
         \<or> \<not> rmatch versioned_name_rexp (er_Name req)
         \<or> length (er_Queue req) = 0 \<or> length (er_Queue req) > MaxQueueBytes \<or> \<not> rmatch queue_rexp (er_Queue req)
      then Some (Errorf ''enqueue: invalid name or queue'' [])
      else if length (er_Payload req) = 0 \<or> int (length (er_Payload req)) > st_maxPayload st
              \<or> \<not> json_valid (er_Payload req)
      then Some (Errorf ''enqueue: invalid or oversized payload'' [])
      else if length (er_DedupKey req) > MaxDedupKeyBytes
      then Some (Errorf ''enqueue: oversized deduplication key'' [])
      else if er_MaxAttempts req < 1 \<or> er_MaxAttempts req > 1000
              \<or> er_Timeout req < millisecond \<or> er_Timeout req > 24 * hour
              \<or> length (er_Backoff req) = 0 \<or> length (er_Backoff req) > 1000
              \<or> er_Delay req < 0 \<or> er_Delay req > 365 * 24 * hour
              \<or> (er_Delay req > 0 \<and> er_Delay req < millisecond)
              \<or> (case er_At req of Some at \<Rightarrow> is_zero_time at | None \<Rightarrow> False)
              \<or> (er_At req \<noteq> None \<and> er_Delay req \<noteq> 0)
              \<or> er_Priority req < -32768 \<or> er_Priority req > 32767
      then Some (Errorf ''enqueue: invalid execution policy'' [])
      else if \<exists>delay \<in> set (er_Backoff req).
                delay < 0 \<or> delay > 30 * 24 * hour \<or> (delay > 0 \<and> delay < millisecond)
      then Some (Errorf ''enqueue: invalid backoff'' []) else None)"

definition enqueue_row :: "pg_env \<Rightarrow> time \<Rightarrow> enqueue_request \<Rightarrow> job_row option" where
  "enqueue_row env now req =
     (case (pg_uuid env (er_ID req), pg_jsonb env (er_Payload req),
            case er_At req of None \<Rightarrow> Some None | Some at \<Rightarrow> map_option Some (pg_timestamptz env at)) of
        (Some i, Some payload, Some at) \<Rightarrow>
          if \<not> pg_text_ok (er_DedupKey req) then None
          else Some \<lparr>jr_id = i, jr_queue = er_Queue req, jr_name = er_Name req, jr_payload = payload,
                     jr_priority = er_Priority req,
                     jr_available_at = (case at of Some t \<Rightarrow> t
                                        | None \<Rightarrow> now + milliseconds (er_Delay req) * millisecond),
                     jr_attempts = 0, jr_max_attempts = er_MaxAttempts req,
                     jr_timeout_ms = milliseconds (er_Timeout req),
                     jr_backoff_ms = durationsToMilliseconds (er_Backoff req),
                     jr_lease_owner = None, jr_lease_generation = 0, jr_leased_at = None,
                     jr_lease_expires_at = None,
                     jr_dedup_key = (if er_DedupKey req = [] then None else Some (er_DedupKey req)),
                     jr_last_error_kind = None, jr_last_error = None,
                     jr_created_at = now, jr_updated_at = now\<rparr>
      | _ \<Rightarrow> None)"

definition PG_Enqueue ::
    "pg_env \<Rightarrow> pg_store \<Rightarrow> time \<Rightarrow> bool \<Rightarrow> enqueue_request \<Rightarrow> jobs_db \<Rightarrow> dispatch_result result \<times> jobs_db" where
  "PG_Enqueue env st now executor_nil req db =
     (if executor_nil then (Inl (Wrapf ''enqueue: %w'' [] (Errorf ''job: executor is required'' [])), db)
      else case enqueue_invalid st req of
        Some err \<Rightarrow> (Inl err, db)
      | None \<Rightarrow>
          if er_DedupKey req = [] then
            (case enqueue_row env now req of
               None \<Rightarrow> (Inl (Wrapf ''enqueue: %w'' [] pg_bad_parameter), db)
             | Some row \<Rightarrow>
                 (case insert_job row (db_jobs db) of
                    Inl err \<Rightarrow> (Inl (Wrapf ''enqueue: %w'' [] err), db)
                  | Inr jobs \<Rightarrow> (Inr \<lparr>dr_ID = jr_id row, dr_Enqueued = True\<rparr>, db\<lparr>db_jobs := jobs\<rparr>)))
          else
            (case enqueue_row env now req of
               None \<Rightarrow> (Inl (Wrapf ''enqueue deduplicated: %w'' [] pg_bad_parameter), db)
             | Some row \<Rightarrow>
                 if \<not> jobs_check row then (Inl (Wrapf ''enqueue deduplicated: %w'' [] pg_check_violation), db)
                 else (case find (same_dedup row) (db_jobs db) of
                    Some existing \<Rightarrow>
                      (Inr \<lparr>dr_ID = jr_id existing, dr_Enqueued = (jr_id existing = er_ID req)\<rparr>, db)
                  | None \<Rightarrow>
                      (case insert_job row (db_jobs db) of
                         Inl err \<Rightarrow> (Inl (Wrapf ''enqueue deduplicated: %w'' [] err), db)
                       | Inr jobs \<Rightarrow> (Inr \<lparr>dr_ID = jr_id row, dr_Enqueued = (jr_id row = er_ID req)\<rparr>,
                                      db\<lparr>db_jobs := jobs\<rparr>)))))"

section \<open>Claim\<close>

definition validateLease :: "lease \<Rightarrow> unit result" where
  "validateLease l =
     (if le_JobID l = [] \<or> le_WorkerID l = [] \<or> length (le_WorkerID l) > 128 \<or> le_Generation l < 1
      then Inl (Errorf ''job/postgres: invalid lease'' []) else Inr ())"

definition validateDelivery :: "pg_store \<Rightarrow> delivery \<Rightarrow> unit result" where
  "validateDelivery st d =
     (if length (dl_Queue d) = 0 \<or> length (dl_Queue d) > MaxQueueBytes \<or> \<not> rmatch queue_rexp (dl_Queue d)
         \<or> length (dl_Name d) = 0 \<or> length (dl_Name d) > MaxNameBytes \<or> \<not> rmatch versioned_name_rexp (dl_Name d)
         \<or> length (dl_Payload d) = 0 \<or> int (length (dl_Payload d)) > st_maxPayload st \<or> \<not> json_valid (dl_Payload d)
         \<or> length (dl_DedupKey d) > MaxDedupKeyBytes \<or> dl_Attempt d < 1
         \<or> dl_MaxAttempts d < 1 \<or> dl_MaxAttempts d > 1000 \<or> dl_Attempt d > dl_MaxAttempts d
         \<or> dl_Timeout d < millisecond \<or> dl_Timeout d > 24 * hour
         \<or> length (dl_Backoff d) = 0 \<or> length (dl_Backoff d) > 1000
         \<or> is_zero_time (dl_AvailableAt d) \<or> is_zero_time (dl_LeasedAt d) \<or> is_zero_time (dl_LeaseExpires d)
         \<or> \<not> dl_LeaseExpires d > dl_LeasedAt d
      then Inl (Errorf ''invalid durable delivery'' [])
      else if \<exists>delay \<in> set (dl_Backoff d). delay < 0 \<or> delay > 30 * 24 * hour
      then Inl (Errorf ''invalid durable backoff'' [])
      else validateLease (dl_Lease d))"

definition claim_invalid :: "claim_request \<Rightarrow> goerr option" where
  "claim_invalid req =
     (if length (cr_Queues req) = 0 \<or> length (cr_Names req) = 0 \<or> cr_Limit req < 1 \<or> cr_Limit req > 10000
         \<or> cr_WorkerID req = [] \<or> cr_LeaseDuration req < millisecond
      then Some (Errorf ''claim: invalid request'' [])
      else if length (cr_WorkerID req) > 128 then Some (Errorf ''claim: invalid worker id'' [])
      else if \<exists>q \<in> set (cr_Queues req). length q > MaxQueueBytes \<or> \<not> rmatch queue_rexp q
      then Some (Errorf ''claim: invalid queue'' [])
      else if \<exists>n \<in> set (cr_Names req). length n > MaxNameBytes \<or> \<not> rmatch versioned_name_rexp n
      then Some (Errorf ''claim: invalid name'' []) else None)"

definition claimable :: "time \<Rightarrow> claim_request \<Rightarrow> job_row \<Rightarrow> bool" where
  "claimable now req r \<longleftrightarrow> jr_queue r \<in> set (cr_Queues req) \<and> jr_name r \<in> set (cr_Names req)
     \<and> jr_available_at r \<le> now \<and> jr_attempts r < jr_max_attempts r"

definition claim_key :: "job_row \<Rightarrow> int \<times> int \<times> string" where
  "claim_key r = (- jr_priority r, jr_available_at r, jr_id r)"

definition claim_candidates :: "time \<Rightarrow> string list \<Rightarrow> claim_request \<Rightarrow> job_row list \<Rightarrow> string list" where
  "claim_candidates now locked req jobs =
     map jr_id (take (nat (cr_Limit req))
       (filter (\<lambda>r. jr_id r \<notin> set locked) (sort_key claim_key (filter (claimable now req) jobs))))"

definition claim_row :: "time \<Rightarrow> claim_request \<Rightarrow> job_row \<Rightarrow> job_row" where
  "claim_row now req r =
     (let expires = now + milliseconds (cr_LeaseDuration req) * millisecond in
      r\<lparr>jr_attempts := jr_attempts r + 1, jr_lease_owner := Some (cr_WorkerID req),
        jr_lease_generation := jr_lease_generation r + 1, jr_leased_at := Some now,
        jr_lease_expires_at := Some expires, jr_available_at := expires, jr_updated_at := now\<rparr>)"

definition scan_claim :: "pg_store \<Rightarrow> claim_request \<Rightarrow> job_row \<Rightarrow> delivery result" where
  "scan_claim st req r =
     (case (jr_leased_at r, jr_lease_expires_at r) of
        (Some leased, Some expires) \<Rightarrow>
          (case decodeDurations (int_array_text (jr_backoff_ms r)) of
             Inl err \<Rightarrow> Inl (Wrapf ''scan claim backoff: %w'' [] err)
           | Inr backoff \<Rightarrow>
               let d = \<lparr>dl_ID = jr_id r, dl_Queue = jr_queue r, dl_Name = jr_name r, dl_Payload = jr_payload r,
                        dl_Priority = jr_priority r, dl_Attempt = jr_attempts r,
                        dl_MaxAttempts = jr_max_attempts r,
                        dl_Timeout = wrap64 (jr_timeout_ms r * millisecond), dl_Backoff = backoff,
                        dl_DedupKey = (case jr_dedup_key r of Some k \<Rightarrow> k | None \<Rightarrow> []),
                        dl_AvailableAt = jr_available_at r, dl_LeasedAt = leased, dl_LeaseExpires = expires,
                        dl_Lease = \<lparr>le_JobID = jr_id r, le_WorkerID = cr_WorkerID req,
                                    le_Generation = jr_lease_generation r\<rparr>\<rparr>
               in case validateDelivery st d of
                    Inl err \<Rightarrow> Inl (Wrapf ''scan claim: %w'' [] err)
                  | Inr _ \<Rightarrow> Inr d)
      | _ \<Rightarrow> Inl (Wrapf ''scan claim: %w'' [] (Sentinel ''unsupported Scan, storing NULL'')))"

fun scan_claims :: "pg_store \<Rightarrow> claim_request \<Rightarrow> job_row list \<Rightarrow> delivery list result" where
  "scan_claims st req [] = Inr []"
| "scan_claims st req (r # rs) =
     (case scan_claim st req r of
        Inl err \<Rightarrow> Inl err
      | Inr d \<Rightarrow> (case scan_claims st req rs of Inl err \<Rightarrow> Inl err | Inr ds \<Rightarrow> Inr (d # ds)))"

definition PG_Claim ::
    "pg_store \<Rightarrow> time \<Rightarrow> string list \<Rightarrow> claim_request \<Rightarrow> jobs_db \<Rightarrow> delivery list result \<times> jobs_db" where
  "PG_Claim st now locked req db =
     (case claim_invalid req of
        Some err \<Rightarrow> (Inl err, db)
      | None \<Rightarrow>
          if \<not> pg_text_ok (cr_WorkerID req) then (Inl (Wrapf ''claim: %w'' [] pg_bad_parameter), db)
          else let chosen = claim_candidates now locked req (db_jobs db);
                   p = (\<lambda>r. jr_id r \<in> set chosen) in
          case update_jobs p (claim_row now req) (db_jobs db) of
            Inl err \<Rightarrow> (Inl (Wrapf ''claim: %w'' [] err), db)
          | Inr (n, jobs) \<Rightarrow> (scan_claims st req (filter p jobs), db\<lparr>db_jobs := jobs\<rparr>))"

section \<open>Fenced operations\<close>

definition fenced :: "time \<Rightarrow> string \<Rightarrow> lease \<Rightarrow> job_row \<Rightarrow> bool" where
  "fenced now i l r \<longleftrightarrow> jr_id r = i \<and> jr_lease_owner r = Some (le_WorkerID l)
     \<and> jr_lease_generation r = le_Generation l
     \<and> (case jr_lease_expires_at r of Some x \<Rightarrow> x > now | None \<Rightarrow> False)"

text \<open>The parameters every fenced statement has; \<open>None\<close> when the server rejects one of them.\<close>

definition fence_id :: "pg_env \<Rightarrow> lease \<Rightarrow> string option" where
  "fence_id env l = (if pg_text_ok (le_WorkerID l) then pg_uuid env (le_JobID l) else None)"

definition execFenced ::
    "pg_env \<Rightarrow> lease \<Rightarrow> (string \<Rightarrow> jobs_db \<Rightarrow> (nat \<times> jobs_db) result) \<Rightarrow> jobs_db \<Rightarrow> bool result \<times> jobs_db" where
  "execFenced env l query db =
     (case fence_id env l of
        None \<Rightarrow> (Inl pg_bad_parameter, db)
      | Some i \<Rightarrow> (case query i db of
                    Inl err \<Rightarrow> (Inl err, db)
                  | Inr (affected, db') \<Rightarrow> (Inr (affected = 1), db')))"

definition update_query ::
    "(string \<Rightarrow> job_row \<Rightarrow> bool) \<Rightarrow> (job_row \<Rightarrow> job_row) \<Rightarrow> string \<Rightarrow> jobs_db \<Rightarrow> (nat \<times> jobs_db) result" where
  "update_query p f i db =
     (case update_jobs (p i) f (db_jobs db) of
        Inl err \<Rightarrow> Inl err | Inr (n, jobs) \<Rightarrow> Inr (n, db\<lparr>db_jobs := jobs\<rparr>))"

definition heartbeat_row :: "time \<Rightarrow> duration \<Rightarrow> job_row \<Rightarrow> job_row" where
  "heartbeat_row now duration r =
     (let expires = now + milliseconds duration * millisecond in
      r\<lparr>jr_lease_expires_at := Some expires, jr_available_at := expires, jr_updated_at := now\<rparr>)"

definition PG_Heartbeat ::
    "pg_env \<Rightarrow> time \<Rightarrow> lease \<Rightarrow> duration \<Rightarrow> jobs_db \<Rightarrow> bool result \<times> jobs_db" where
  "PG_Heartbeat env now l duration db =
     (if \<not> is_ok (validateLease l) \<or> duration < millisecond
      then (Inl (Errorf ''heartbeat: invalid lease or duration'' []), db)
      else execFenced env l (update_query (\<lambda>i. fenced now i l) (heartbeat_row now duration)) db)"

definition PG_Ack :: "pg_env \<Rightarrow> time \<Rightarrow> lease \<Rightarrow> jobs_db \<Rightarrow> bool result \<times> jobs_db" where
  "PG_Ack env now l db =
     (case validateLease l of
        Inl err \<Rightarrow> (Inl err, db)
      | Inr _ \<Rightarrow> execFenced env l (\<lambda>i db'.
          Inr (length (filter (fenced now i l) (db_jobs db')),
               db'\<lparr>db_jobs := filter (\<lambda>r. \<not> fenced now i l r) (db_jobs db')\<rparr>)) db)"

definition retry_row :: "time \<Rightarrow> duration \<Rightarrow> string \<Rightarrow> string \<Rightarrow> job_row \<Rightarrow> job_row" where
  "retry_row now delay kind message r =
     r\<lparr>jr_available_at := now + milliseconds delay * millisecond, jr_lease_owner := None, jr_leased_at := None,
       jr_lease_expires_at := None, jr_last_error_kind := Some kind, jr_last_error := Some message,
       jr_updated_at := now\<rparr>"

definition PG_Retry ::
    "pg_env \<Rightarrow> pg_store \<Rightarrow> time \<Rightarrow> retry_request \<Rightarrow> jobs_db \<Rightarrow> bool result \<times> jobs_db" where
  "PG_Retry env st now req db =
     (if \<not> is_ok (validateLease (rr_Lease req)) \<or> rr_Delay req < 0 \<or> length (rr_ErrorKind req) > 64
         \<or> int (length (rr_Error req)) > st_maxError st
      then (Inl (Errorf ''retry: invalid request'' []), db)
      else let safeMessage = boundedSafeFailureMessage st (rr_ErrorKind req) (rr_Error req) in
      if \<not> pg_text_ok (rr_ErrorKind req) then (Inl pg_bad_parameter, db)
      else execFenced env (rr_Lease req)
             (update_query (\<lambda>i. fenced now i (rr_Lease req))
                (retry_row now (rr_Delay req) (rr_ErrorKind req) safeMessage)) db)"

definition release_row :: "time \<Rightarrow> job_row \<Rightarrow> job_row" where
  "release_row now r =
     r\<lparr>jr_available_at := now, jr_lease_owner := None, jr_leased_at := None, jr_lease_expires_at := None,
       jr_updated_at := now\<rparr>"

definition PG_Release :: "pg_env \<Rightarrow> time \<Rightarrow> lease \<Rightarrow> jobs_db \<Rightarrow> bool result \<times> jobs_db" where
  "PG_Release env now l db =
     (case validateLease l of
        Inl err \<Rightarrow> (Inl err, db)
      | Inr _ \<Rightarrow> execFenced env l (update_query (\<lambda>i. fenced now i l) (release_row now)) db)"

definition to_failed :: "time \<Rightarrow> string \<Rightarrow> string \<Rightarrow> job_row \<Rightarrow> failed_row" where
  "to_failed now kind message r =
     \<lparr>fa_id = jr_id r, fa_queue = jr_queue r, fa_name = jr_name r, fa_payload = jr_payload r,
      fa_priority = jr_priority r, fa_attempts = jr_attempts r, fa_max_attempts = jr_max_attempts r,
      fa_timeout_ms = jr_timeout_ms r, fa_backoff_ms = jr_backoff_ms r, fa_dedup_key = jr_dedup_key r,
      fa_failure_kind = kind, fa_failure_message = message, fa_created_at = jr_created_at r,
      fa_failed_at = now\<rparr>"

text \<open>Deleting the selected jobs and inserting them into the failures, as one statement.\<close>

definition move_to_failed ::
    "(job_row \<Rightarrow> bool) \<Rightarrow> (job_row \<Rightarrow> failed_row) \<Rightarrow> jobs_db \<Rightarrow> (failed_row list \<times> jobs_db) result" where
  "move_to_failed p f db =
     (let moved = map f (filter p (db_jobs db)) in
      case insert_failed moved (db_failed db) of
        Inl err \<Rightarrow> Inl err
      | Inr failed \<Rightarrow> Inr (moved, db\<lparr>db_jobs := filter (\<lambda>r. \<not> p r) (db_jobs db), db_failed := failed\<rparr>))"

definition PG_Fail ::
    "pg_env \<Rightarrow> pg_store \<Rightarrow> time \<Rightarrow> failure_request \<Rightarrow> jobs_db \<Rightarrow> bool result \<times> jobs_db" where
  "PG_Fail env st now req db =
     (if \<not> is_ok (validateLease (fr_Lease req)) \<or> length (fr_Kind req) = 0 \<or> length (fr_Kind req) > 64
         \<or> int (length (fr_Error req)) > st_maxError st
      then (Inl (Errorf ''fail: invalid request'' []), db)
      else let safeMessage = boundedSafeFailureMessage st (fr_Kind req) (fr_Error req) in
      case (if pg_text_ok (fr_Kind req) then fence_id env (fr_Lease req) else None) of
        None \<Rightarrow> (Inl (Wrapf ''fail: %w'' [] pg_bad_parameter), db)
      | Some i \<Rightarrow>
          (case move_to_failed (fenced now i (fr_Lease req)) (to_failed now (fr_Kind req) safeMessage) db of
             Inl err \<Rightarrow> (Inl (Wrapf ''fail: %w'' [] err), db)
           | Inr (moved, db') \<Rightarrow> (Inr (moved \<noteq> []), db')))"

definition exhausted :: "time \<Rightarrow> string list \<Rightarrow> string list \<Rightarrow> job_row \<Rightarrow> bool" where
  "exhausted now queues names r \<longleftrightarrow> jr_queue r \<in> set queues \<and> jr_name r \<in> set names
     \<and> jr_lease_owner r \<noteq> None \<and> jr_available_at r \<le> now \<and> jr_attempts r \<ge> jr_max_attempts r"

definition exhausted_candidates ::
    "time \<Rightarrow> string list \<Rightarrow> string list \<Rightarrow> string list \<Rightarrow> int \<Rightarrow> job_row list \<Rightarrow> string list" where
  "exhausted_candidates now locked queues names limit jobs =
     map jr_id (take (nat limit) (filter (\<lambda>r. jr_id r \<notin> set locked)
       (sort_key (\<lambda>r. (jr_available_at r, jr_id r)) (filter (exhausted now queues names) jobs))))"

definition exhausted_failure :: "failed_row \<Rightarrow> failed_job" where
  "exhausted_failure r =
     \<lparr>fj_ID = fa_id r, fj_Queue = fa_queue r, fj_Name = fa_name r, fj_Priority = 0, fj_Attempts = fa_attempts r,
      fj_MaxAttempts = 0, fj_Timeout = 0, fj_Backoff = [], fj_DedupKey = [],
      fj_FailureKind = ''lease_exhausted'', fj_FailureMessage = [], fj_CreatedAt = 0, fj_FailedAt = 0\<rparr>"

definition PG_FailExhausted ::
    "time \<Rightarrow> string list \<Rightarrow> string list \<Rightarrow> string list \<Rightarrow> int \<Rightarrow> jobs_db \<Rightarrow> failed_job list result \<times> jobs_db" where
  "PG_FailExhausted now locked queues names limit db =
     (if length queues = 0 \<or> length names = 0 \<or> limit < 1 \<or> limit > 10000
      then (Inl (Errorf ''fail exhausted: invalid request'' []), db)
      else if \<not> list_all pg_text_ok (queues @ names)
      then (Inl (Wrapf ''fail exhausted: %w'' [] pg_bad_parameter), db)
      else let chosen = exhausted_candidates now locked queues names limit (db_jobs db) in
      case move_to_failed (\<lambda>r. jr_id r \<in> set chosen)
             (to_failed now ''lease_exhausted'' ''lease expired after final attempt'') db of
        Inl err \<Rightarrow> (Inl (Wrapf ''fail exhausted: %w'' [] err), db)
      | Inr (moved, db') \<Rightarrow> (Inr (map exhausted_failure moved), db'))"

section \<open>Administration\<close>

definition pg_wrap :: "string \<Rightarrow> goerr \<Rightarrow> goerr" where
  "pg_wrap operation err = Wrapf ''job/postgres: %s: %w'' [operation] err"

definition validateFailed :: "pg_store \<Rightarrow> failed_job \<Rightarrow> bytes option \<Rightarrow> unit result" where
  "validateFailed st item payload =
     (if length (fj_Queue item) = 0 \<or> length (fj_Queue item) > MaxQueueBytes \<or> \<not> rmatch queue_rexp (fj_Queue item)
         \<or> length (fj_Name item) = 0 \<or> length (fj_Name item) > MaxNameBytes
         \<or> \<not> rmatch versioned_name_rexp (fj_Name item)
         \<or> length (fj_DedupKey item) > MaxDedupKeyBytes \<or> fj_Attempts item < 0
         \<or> fj_MaxAttempts item < 1 \<or> fj_MaxAttempts item > 1000 \<or> fj_Attempts item > fj_MaxAttempts item
         \<or> fj_Timeout item < millisecond \<or> fj_Timeout item > 24 * hour
         \<or> length (fj_Backoff item) = 0 \<or> length (fj_Backoff item) > 1000
         \<or> length (fj_FailureKind item) = 0 \<or> length (fj_FailureKind item) > 64
         \<or> int (length (fj_FailureMessage item)) > st_maxError st
         \<or> is_zero_time (fj_CreatedAt item) \<or> is_zero_time (fj_FailedAt item)
      then Inl (Errorf ''invalid durable failure'' [])
      else if \<exists>delay \<in> set (fj_Backoff item). delay < 0 \<or> delay > 30 * 24 * hour
      then Inl (Errorf ''invalid durable failure backoff'' [])
      else (case payload of
              Some b \<Rightarrow> if length b = 0 \<or> int (length b) > st_maxPayload st \<or> \<not> json_valid b
                        then Inl (Errorf ''invalid durable failure payload'' []) else Inr ()
            | None \<Rightarrow> Inr ()))"

definition failed_item :: "pg_store \<Rightarrow> failed_row \<Rightarrow> duration list \<Rightarrow> failed_job" where
  "failed_item st r backoff =
     \<lparr>fj_ID = fa_id r, fj_Queue = fa_queue r, fj_Name = fa_name r, fj_Priority = fa_priority r,
      fj_Attempts = fa_attempts r, fj_MaxAttempts = fa_max_attempts r,
      fj_Timeout = wrap64 (fa_timeout_ms r * millisecond), fj_Backoff = backoff,
      fj_DedupKey = (case fa_dedup_key r of Some k \<Rightarrow> k | None \<Rightarrow> []), fj_FailureKind = fa_failure_kind r,
      fj_FailureMessage = boundedSafeFailureMessage st (fa_failure_kind r) (fa_failure_message r),
      fj_CreatedAt = fa_created_at r, fj_FailedAt = fa_failed_at r\<rparr>"

fun scan_failed :: "pg_store \<Rightarrow> failed_row list \<Rightarrow> failed_job list result" where
  "scan_failed st [] = Inr []"
| "scan_failed st (r # rs) =
     (case decodeDurations (int_array_text (fa_backoff_ms r)) of
        Inl err \<Rightarrow> Inl (pg_wrap ''scan failed backoff'' err)
      | Inr backoff \<Rightarrow>
          (case validateFailed st (failed_item st r backoff) None of
             Inl err \<Rightarrow> Inl (pg_wrap ''scan failed'' err)
           | Inr _ \<Rightarrow> (case scan_failed st rs of
                        Inl err \<Rightarrow> Inl err | Inr items \<Rightarrow> Inr (failed_item st r backoff # items))))"

definition failed_key :: "failed_row \<Rightarrow> int \<times> string" where
  "failed_key r = (- fa_failed_at r, fa_id r)"

definition PG_ListFailed :: "pg_store \<Rightarrow> int \<Rightarrow> jobs_db \<Rightarrow> failed_job list result" where
  "PG_ListFailed st limit0 db =
     (let limit = (if limit0 = 0 then 100 else limit0) in
      if limit < 1 \<or> limit > 1000
      then Inl (Errorf ''job/postgres: failed-job limit must be between 1 and 1000'' [])
      else scan_failed st (take (nat limit) (sort_key failed_key (db_failed db))))"

definition PG_FindFailed ::
    "pg_env \<Rightarrow> pg_store \<Rightarrow> string \<Rightarrow> jobs_db \<Rightarrow> (failed_job \<times> bytes) option result" where
  "PG_FindFailed env st sid db =
     (case pg_uuid env sid of
        None \<Rightarrow> Inl (pg_wrap ''find failed'' pg_bad_parameter)
      | Some i \<Rightarrow>
          (case find (\<lambda>r. fa_id r = i) (db_failed db) of
             None \<Rightarrow> Inr None
           | Some r \<Rightarrow>
               (case decodeDurations (int_array_text (fa_backoff_ms r)) of
                  Inl err \<Rightarrow> Inl (pg_wrap ''scan failed backoff'' err)
                | Inr backoff \<Rightarrow>
                    (case validateFailed st (failed_item st r backoff)
                            (if fa_payload r = [] then None else Some (fa_payload r)) of
                       Inl err \<Rightarrow> Inl (pg_wrap ''scan failed'' err)
                     | Inr _ \<Rightarrow> Inr (Some (failed_item st r backoff, fa_payload r))))))"

definition restored_row :: "time \<Rightarrow> failed_row \<Rightarrow> job_row" where
  "restored_row now r =
     \<lparr>jr_id = fa_id r, jr_queue = fa_queue r, jr_name = fa_name r, jr_payload = fa_payload r,
      jr_priority = fa_priority r, jr_available_at = now, jr_attempts = 0, jr_max_attempts = fa_max_attempts r,
      jr_timeout_ms = fa_timeout_ms r, jr_backoff_ms = fa_backoff_ms r, jr_lease_owner = None,
      jr_lease_generation = 0, jr_leased_at = None, jr_lease_expires_at = None,
      jr_dedup_key = fa_dedup_key r, jr_last_error_kind = None, jr_last_error = None,
      jr_created_at = fa_created_at r, jr_updated_at = now\<rparr>"

definition PG_RetryFailed :: "pg_env \<Rightarrow> time \<Rightarrow> string \<Rightarrow> jobs_db \<Rightarrow> bool result \<times> jobs_db" where
  "PG_RetryFailed env now sid db =
     (case pg_uuid env sid of
        None \<Rightarrow> (Inl (pg_wrap ''retry failed'' pg_bad_parameter), db)
      | Some i \<Rightarrow>
          (case find (\<lambda>r. fa_id r = i) (db_failed db) of
             None \<Rightarrow> (Inr False, db)
           | Some r \<Rightarrow>
               (case insert_job (restored_row now r) (db_jobs db) of
                  Inl err \<Rightarrow> (Inl (pg_wrap ''retry failed'' err), db)
                | Inr jobs \<Rightarrow> (Inr True, db\<lparr>db_jobs := jobs,
                     db_failed := filter (\<lambda>r. fa_id r \<noteq> i) (db_failed db)\<rparr>))))"

definition PG_ForgetFailed :: "pg_env \<Rightarrow> string \<Rightarrow> jobs_db \<Rightarrow> bool result \<times> jobs_db" where
  "PG_ForgetFailed env sid db =
     (case pg_uuid env sid of
        None \<Rightarrow> (Inl (pg_wrap ''forget failed'' pg_bad_parameter), db)
      | Some i \<Rightarrow> (Inr (length (filter (\<lambda>r. fa_id r = i) (db_failed db)) = 1),
                   db\<lparr>db_failed := filter (\<lambda>r. fa_id r \<noteq> i) (db_failed db)\<rparr>))"

text \<open>The store as the methods of the interface \<open>job.Store\<close>, at a clock reading and a set of locks.\<close>

definition pg_job_store :: "pg_env \<Rightarrow> pg_store \<Rightarrow> time \<Rightarrow> string list \<Rightarrow> (unit, jobs_db) job_store" where
  "pg_job_store env st now locked =
     \<lparr>js_Enqueue = (\<lambda>x. PG_Enqueue env st now False), js_Claim = PG_Claim st now locked,
      js_Heartbeat = PG_Heartbeat env now, js_Ack = PG_Ack env now, js_Retry = PG_Retry env st now,
      js_Release = PG_Release env now, js_Fail = PG_Fail env st now,
      js_FailExhausted = PG_FailExhausted now locked\<rparr>"

section \<open>Histories\<close>

datatype store_op =
    OpEnqueue enqueue_request
  | OpClaim "string list" claim_request
  | OpHeartbeat lease duration
  | OpAck lease
  | OpRetry retry_request
  | OpRelease lease
  | OpFail failure_request
  | OpFailExhausted "string list" "string list" "string list" int
  | OpRetryFailed string
  | OpForgetFailed string

fun store_exec :: "pg_env \<Rightarrow> pg_store \<Rightarrow> time \<Rightarrow> store_op \<Rightarrow> jobs_db \<Rightarrow> jobs_db" where
  "store_exec env st now (OpEnqueue req) db = snd (PG_Enqueue env st now False req db)"
| "store_exec env st now (OpClaim locked req) db = snd (PG_Claim st now locked req db)"
| "store_exec env st now (OpHeartbeat l d) db = snd (PG_Heartbeat env now l d db)"
| "store_exec env st now (OpAck l) db = snd (PG_Ack env now l db)"
| "store_exec env st now (OpRetry req) db = snd (PG_Retry env st now req db)"
| "store_exec env st now (OpRelease l) db = snd (PG_Release env now l db)"
| "store_exec env st now (OpFail req) db = snd (PG_Fail env st now req db)"
| "store_exec env st now (OpFailExhausted locked qs ns lim) db = snd (PG_FailExhausted now locked qs ns lim db)"
| "store_exec env st now (OpRetryFailed i) db = snd (PG_RetryFailed env now i db)"
| "store_exec env st now (OpForgetFailed i) db = snd (PG_ForgetFailed env i db)"

inductive store_reachable :: "pg_env \<Rightarrow> pg_store \<Rightarrow> jobs_db \<Rightarrow> bool" for env st where
  reach_empty: "store_reachable env st \<lparr>db_jobs = [], db_failed = []\<rparr>"
| reach_exec: "store_reachable env st db \<Longrightarrow> store_reachable env st (store_exec env st now op db)"

section \<open>The invariant of the tables\<close>

text \<open>What identifies a job and never changes, in either table.\<close>

definition job_key :: "job_row \<Rightarrow> string \<times> string \<times> string \<times> bytes \<times> int \<times> int \<times> int \<times> int list \<times> string option \<times> time" where
  "job_key r = (jr_id r, jr_queue r, jr_name r, jr_payload r, jr_priority r, jr_max_attempts r,
     jr_timeout_ms r, jr_backoff_ms r, jr_dedup_key r, jr_created_at r)"

definition fail_key :: "failed_row \<Rightarrow> string \<times> string \<times> string \<times> bytes \<times> int \<times> int \<times> int \<times> int list \<times> string option \<times> time" where
  "fail_key r = (fa_id r, fa_queue r, fa_name r, fa_payload r, fa_priority r, fa_max_attempts r,
     fa_timeout_ms r, fa_backoff_ms r, fa_dedup_key r, fa_created_at r)"

definition safe_messages :: "string list" where
  "safe_messages = [''handler panicked'', ''handler reported a permanent failure'', ''handler deadline exceeded'',
     ''job payload could not be decoded'', ''lease expired after final attempt'', ''handler requested a retry'',
     ''handler returned an error'', ''job attempt failed'']"

definition safe_text :: "string \<Rightarrow> bool" where
  "safe_text m \<longleftrightarrow> (\<exists>a \<in> set safe_messages. prefix m a)"

definition row_inv :: "job_row \<Rightarrow> bool" where
  "row_inv r \<longleftrightarrow> jobs_check r \<and> jr_attempts r \<le> jr_max_attempts r \<and> jr_attempts r \<le> jr_lease_generation r
     \<and> (jr_lease_owner r \<noteq> None \<longrightarrow>
          1 \<le> jr_attempts r \<and> jr_lease_expires_at r = Some (jr_available_at r))
     \<and> (\<forall>m. jr_last_error r = Some m \<longrightarrow> safe_text m)"

definition fail_inv :: "failed_row \<Rightarrow> bool" where
  "fail_inv r \<longleftrightarrow> failed_check r \<and> fa_attempts r \<le> fa_max_attempts r \<and> safe_text (fa_failure_message r)"

definition db_wf :: "jobs_db \<Rightarrow> bool" where
  "db_wf db \<longleftrightarrow> distinct (map jr_id (db_jobs db)) \<and> distinct (map fa_id (db_failed db))
     \<and> (\<forall>r \<in> set (db_jobs db). \<forall>r' \<in> set (db_jobs db). same_dedup r r' \<longrightarrow> r = r')
     \<and> (\<forall>r \<in> set (db_jobs db). row_inv r) \<and> (\<forall>r \<in> set (db_failed db). fail_inv r)"

lemma safeFailureMessage_safe: "safeFailureMessage kind message \<in> set safe_messages"
  by (simp add: safeFailureMessage_def safe_messages_def)

lemma boundedSafe_text: "safe_text (boundedSafeFailureMessage st kind message)"
proof -
  have "prefix (boundedSafeFailureMessage st kind message) (safeFailureMessage kind message)"
    by (simp add: boundedSafeFailureMessage_def Let_def take_is_prefix)
  then show ?thesis unfolding safe_text_def using safeFailureMessage_safe by blast
qed

lemma insert_job_Inr:
  "insert_job row jobs = Inr jobs' \<longleftrightarrow>
     jobs' = jobs @ [row] \<and> jobs_check row \<and> (\<forall>r \<in> set jobs. jr_id r \<noteq> jr_id row \<and> \<not> same_dedup r row)"
  by (auto simp: insert_job_def)

lemma insert_failed_Inr:
  "insert_failed rows failed = Inr failed' \<Longrightarrow>
     failed' = failed @ rows \<and> (\<forall>r \<in> set rows. failed_check r)
     \<and> (distinct (map fa_id failed) \<longrightarrow> distinct (map fa_id failed'))"
proof (induction rows arbitrary: failed)
  case (Cons row rows)
  have "insert_failed rows (failed @ [row]) = Inr failed'"
    using Cons.prems by (simp split: if_splits)
  note ih = Cons.IH [OF this]
  have "failed_check row" "\<forall>r \<in> set failed. fa_id r \<noteq> fa_id row"
    using Cons.prems by (auto split: if_splits)
  moreover from this have "distinct (map fa_id failed) \<Longrightarrow> distinct (map fa_id (failed @ [row]))" by auto
  ultimately show ?case using ih [THEN conjunct2, THEN conjunct2] by (simp add: ih [THEN conjunct1] ih)
qed auto

lemma row_unique: "db_wf db \<Longrightarrow> r \<in> set (db_jobs db) \<Longrightarrow> r' \<in> set (db_jobs db) \<Longrightarrow> jr_id r = jr_id r' \<Longrightarrow> r = r'"
  by (auto simp: db_wf_def distinct_map inj_on_def)

text \<open>The five ways a statement changes the tables keep the invariant.\<close>

lemma same_key_dedup: "job_key r = job_key s \<Longrightarrow> job_key r' = job_key s' \<Longrightarrow> same_dedup r r' \<longleftrightarrow> same_dedup s s'"
  by (simp add: job_key_def same_dedup_def)

lemma wf_update:
  assumes "db_wf db" and "\<And>r. r \<in> set (db_jobs db) \<Longrightarrow> job_key (g r) = job_key r \<and> row_inv (g r)"
  shows "db_wf (db\<lparr>db_jobs := map g (db_jobs db)\<rparr>)"
proof -
  have ids: "map jr_id (map g (db_jobs db)) = map jr_id (db_jobs db)"
    using assms(2) by (simp add: job_key_def)
  have "same_dedup (g r) (g r') \<longrightarrow> g r = g r'" if "r \<in> set (db_jobs db)" "r' \<in> set (db_jobs db)" for r r'
    using assms that same_key_dedup [of "g r" r "g r'" r'] by (auto simp: db_wf_def)
  with assms ids show ?thesis by (auto simp: db_wf_def simp del: map_map)
qed

lemma same_dedup_sym: "same_dedup r r' \<longleftrightarrow> same_dedup r' r"
  by (auto simp: same_dedup_def)

lemma wf_insert:
  "db_wf db \<Longrightarrow> insert_job row (db_jobs db) = Inr jobs \<Longrightarrow> row_inv row \<Longrightarrow> db_wf (db\<lparr>db_jobs := jobs\<rparr>)"
  using same_dedup_sym by (auto simp: db_wf_def insert_job_Inr)

lemma distinct_map_filter': "distinct (map f xs) \<Longrightarrow> distinct (map f (filter p xs))"
  by (simp add: distinct_map inj_on_def)

lemma wf_delete: "db_wf db \<Longrightarrow> db_wf (db\<lparr>db_jobs := filter p (db_jobs db)\<rparr>)"
  by (auto simp: db_wf_def distinct_map_filter')

lemma wf_forget: "db_wf db \<Longrightarrow> db_wf (db\<lparr>db_failed := filter p (db_failed db)\<rparr>)"
  by (auto simp: db_wf_def distinct_map_filter')

lemma move_to_failed_Inr:
  "move_to_failed p f db = Inr (moved, db') \<longleftrightarrow>
     (\<exists>failed. insert_failed moved (db_failed db) = Inr failed \<and> moved = map f (filter p (db_jobs db))
       \<and> db' = db\<lparr>db_jobs := filter (\<lambda>r. \<not> p r) (db_jobs db), db_failed := failed\<rparr>)"
  by (auto simp: move_to_failed_def Let_def split: sum.splits)

lemma wf_move:
  assumes "db_wf db" and "move_to_failed p f db = Inr (moved, db')"
    and "\<And>r. r \<in> set (db_jobs db) \<Longrightarrow> p r \<Longrightarrow>
      fa_attempts (f r) \<le> fa_max_attempts (f r) \<and> safe_text (fa_failure_message (f r))"
  shows "db_wf db'"
proof -
  obtain failed where ins: "insert_failed moved (db_failed db) = Inr failed"
    and moved: "moved = map f (filter p (db_jobs db))"
    and db': "db' = db\<lparr>db_jobs := filter (\<lambda>r. \<not> p r) (db_jobs db), db_failed := failed\<rparr>"
    using assms(2) by (auto simp: move_to_failed_Inr)
  note eff = insert_failed_Inr [OF ins]
  have "\<forall>x \<in> set failed. fail_inv x" using eff moved assms(1,3) by (auto simp: db_wf_def fail_inv_def)
  moreover have "distinct (map fa_id failed)" using eff assms(1) unfolding db_wf_def by blast
  ultimately show ?thesis using assms(1) db' by (auto simp: db_wf_def distinct_map_filter')
qed

end
