(* ===== verification/Job_Store_Inv.thy ===== *)
theory Job_Store_Inv
  imports Job_Store
begin

text \<open>
  The effect of every operation of the PostgreSQL job store, the invariant of its tables over all
  histories, and the properties of claims, leases, deduplication and failure records.
\<close>

section \<open>The effect of the operations\<close>

lemma Enqueue_effect:
  obtains (same) "snd (PG_Enqueue env st now nl req db) = db"
  | (inserted) row jobs where "enqueue_invalid st req = None" "enqueue_row env now req = Some row"
      "insert_job row (db_jobs db) = Inr jobs" "snd (PG_Enqueue env st now nl req db) = db\<lparr>db_jobs := jobs\<rparr>"
proof (cases "nl \<or> enqueue_invalid st req \<noteq> None \<or> enqueue_row env now req = None")
  case True
  then have "snd (PG_Enqueue env st now nl req db) = db"
    by (auto simp: PG_Enqueue_def split: option.splits)
  then show ?thesis by (rule same)
next
  case False
  then obtain row where row: "enqueue_row env now req = Some row" and ok: "enqueue_invalid st req = None" "\<not> nl"
    by auto
  show ?thesis
  proof (cases "insert_job row (db_jobs db)")
    case (Inl e)
    with row ok have "snd (PG_Enqueue env st now nl req db) = db"
      by (simp add: PG_Enqueue_def split: option.splits)
    then show ?thesis by (rule same)
  next
    case (Inr jobs)
    show ?thesis
    proof (cases "er_DedupKey req = [] \<or> jobs_check row \<and> find (same_dedup row) (db_jobs db) = None")
      case True
      with row ok Inr have "snd (PG_Enqueue env st now nl req db) = db\<lparr>db_jobs := jobs\<rparr>"
        by (auto simp: PG_Enqueue_def)
      with ok row Inr show ?thesis by (intro inserted)
    next
      case False
      with row ok have "snd (PG_Enqueue env st now nl req db) = db"
        by (auto simp: PG_Enqueue_def split: option.splits)
      then show ?thesis by (rule same)
    qed
  qed
qed

lemma enqueue_row_fresh:
  "enqueue_row env now req = Some row \<Longrightarrow> jr_attempts row = 0 \<and> jr_lease_generation row = 0
     \<and> jr_lease_owner row = None \<and> jr_last_error row = None \<and> pg_uuid env (er_ID req) = Some (jr_id row)"
  by (auto simp: enqueue_row_def split: option.splits if_splits)

lemma restored_row_fresh:
  "jr_attempts (restored_row now r) = 0" "jr_lease_generation (restored_row now r) = 0"
  "jr_lease_owner (restored_row now r) = None" "jr_last_error (restored_row now r) = None"
  "job_key (restored_row now r) = fail_key r"
  by (simp_all add: restored_row_def job_key_def fail_key_def)

lemma fresh_row_inv:
  "jobs_check row \<Longrightarrow> jr_attempts row = 0 \<Longrightarrow> jr_lease_generation row = 0 \<Longrightarrow> jr_lease_owner row = None \<Longrightarrow>
   jr_last_error row = None \<Longrightarrow> row_inv row"
  by (simp add: row_inv_def jobs_check_def)

lemma update_jobs_Inr:
  "update_jobs p f jobs = Inr (n, jobs') \<longleftrightarrow>
     n = length (filter p jobs) \<and> jobs' = map (\<lambda>r. if p r then f r else r) jobs
     \<and> (\<forall>r \<in> set jobs. p r \<longrightarrow> jobs_check (f r))"
  by (auto simp: update_jobs_def)

text \<open>A fenced update changes nothing, or rewrites the rows its fence selects.\<close>

lemma execFenced_update:
  obtains (same) "snd (execFenced env l (update_query p f) db) = db"
  | (updated) i where "fence_id env l = Some i" "\<forall>r \<in> set (db_jobs db). p i r \<longrightarrow> jobs_check (f r)"
      "execFenced env l (update_query p f) db =
         (Inr (length (filter (p i) (db_jobs db)) = 1), db\<lparr>db_jobs := map (\<lambda>r. if p i r then f r else r) (db_jobs db)\<rparr>)"
proof (cases "fence_id env l")
  case None
  then show ?thesis by (intro same) (simp add: execFenced_def)
next
  case (Some i)
  show ?thesis
  proof (cases "update_jobs (p i) f (db_jobs db)")
    case (Inl e)
    with Some show ?thesis by (intro same) (simp add: execFenced_def update_query_def)
  next
    case (Inr q)
    then obtain n jobs where q: "update_jobs (p i) f (db_jobs db) = Inr (n, jobs)" by (cases q) auto
    have eff: "n = length (filter (p i) (db_jobs db))" "jobs = map (\<lambda>r. if p i r then f r else r) (db_jobs db)"
        "\<forall>r \<in> set (db_jobs db). p i r \<longrightarrow> jobs_check (f r)"
      using q by (simp_all add: update_jobs_Inr)
    with Some q show ?thesis
      by (intro updated [of i]) (simp_all add: execFenced_def update_query_def)
  qed
qed

lemma claim_chosen:
  assumes "db_wf db" and "r \<in> set (db_jobs db)" and "jr_id r \<in> set (claim_candidates now locked req (db_jobs db))"
  shows "claimable now req r \<and> jr_id r \<notin> set locked"
proof -
  let ?xs = "filter (\<lambda>r. jr_id r \<notin> set locked) (sort_key claim_key (filter (claimable now req) (db_jobs db)))"
  obtain r' where "r' \<in> set (take (nat (cr_Limit req)) ?xs)" and same: "jr_id r = jr_id r'"
    using assms(3) unfolding claim_candidates_def set_map by blast
  then have "r' \<in> set ?xs" by (meson in_set_takeD)
  then have r': "r' \<in> set (db_jobs db)" "claimable now req r'" "jr_id r' \<notin> set locked" by simp_all
  with row_unique [OF assms(1,2) r'(1) same] show ?thesis by simp
qed

lemma Claim_effect:
  obtains (same) e where "PG_Claim st now locked req db = (Inl e, db)"
  | (claimed) "claim_invalid req = None"
      "\<forall>r \<in> set (db_jobs db). jr_id r \<in> set (claim_candidates now locked req (db_jobs db)) \<longrightarrow>
         jobs_check (claim_row now req r)"
      "snd (PG_Claim st now locked req db) = db\<lparr>db_jobs := map (\<lambda>r.
         if jr_id r \<in> set (claim_candidates now locked req (db_jobs db)) then claim_row now req r else r)
           (db_jobs db)\<rparr>"
      "fst (PG_Claim st now locked req db) = scan_claims st req
         (filter (\<lambda>r. jr_id r \<in> set (claim_candidates now locked req (db_jobs db)))
           (db_jobs (snd (PG_Claim st now locked req db))))"
proof (cases "claim_invalid req = None \<and> pg_text_ok (cr_WorkerID req)")
  case False
  then show ?thesis by (cases "claim_invalid req") (auto simp: PG_Claim_def intro: same)
next
  case True
  let ?p = "\<lambda>r. jr_id r \<in> set (claim_candidates now locked req (db_jobs db))"
  show ?thesis
  proof (cases "update_jobs ?p (claim_row now req) (db_jobs db)")
    case (Inl e)
    with True show ?thesis by (auto simp: PG_Claim_def intro: same)
  next
    case (Inr q)
    then obtain n jobs where q: "update_jobs ?p (claim_row now req) (db_jobs db) = Inr (n, jobs)" by (cases q) auto
    have eff: "jobs = map (\<lambda>r. if ?p r then claim_row now req r else r) (db_jobs db)"
        "\<forall>r \<in> set (db_jobs db). ?p r \<longrightarrow> jobs_check (claim_row now req r)"
      using q by (simp_all add: update_jobs_Inr)
    have run: "PG_Claim st now locked req db = (scan_claims st req (filter ?p jobs), db\<lparr>db_jobs := jobs\<rparr>)"
      using True q by (simp add: PG_Claim_def)
    show ?thesis by (rule claimed) (use True eff in \<open>simp_all add: run\<close>)
  qed
qed

lemma Ack_effect:
  obtains (same) "snd (PG_Ack env now l db) = db"
  | (acked) i where "fence_id env l = Some i"
      "PG_Ack env now l db = (Inr (length (filter (fenced now i l) (db_jobs db)) = 1),
         db\<lparr>db_jobs := filter (\<lambda>r. \<not> fenced now i l r) (db_jobs db)\<rparr>)"
proof (cases "validateLease l")
  case (Inl e)
  then show ?thesis by (intro same) (simp add: PG_Ack_def)
next
  case (Inr u)
  then show ?thesis
    by (cases "fence_id env l") (auto simp: PG_Ack_def execFenced_def intro: same acked)
qed

lemma Fail_effect:
  obtains (same) "snd (PG_Fail env st now req db) = db" "fst (PG_Fail env st now req db) \<noteq> Inr True"
  | (failed) i moved db' where "fence_id env (fr_Lease req) = Some i"
      "move_to_failed (fenced now i (fr_Lease req))
         (to_failed now (fr_Kind req) (boundedSafeFailureMessage st (fr_Kind req) (fr_Error req))) db = Inr (moved, db')"
      "PG_Fail env st now req db = (Inr (moved \<noteq> []), db')"
proof (cases "is_ok (validateLease (fr_Lease req)) \<and> length (fr_Kind req) \<noteq> 0 \<and> length (fr_Kind req) \<le> 64
    \<and> int (length (fr_Error req)) \<le> st_maxError st \<and> pg_text_ok (fr_Kind req)
    \<and> fence_id env (fr_Lease req) \<noteq> None")
  case False
  then show ?thesis by (intro same) (auto simp: PG_Fail_def Let_def split: option.splits)
next
  case True
  then obtain i where i: "fence_id env (fr_Lease req) = Some i" by auto
  show ?thesis
  proof (cases "move_to_failed (fenced now i (fr_Lease req))
      (to_failed now (fr_Kind req) (boundedSafeFailureMessage st (fr_Kind req) (fr_Error req))) db")
    case (Inl e)
    with True i show ?thesis by (intro same) (auto simp: PG_Fail_def Let_def)
  next
    case (Inr q)
    with True i show ?thesis by (cases q) (auto simp: PG_Fail_def Let_def intro: failed)
  qed
qed

lemma FailExhausted_effect:
  obtains (same) e where "PG_FailExhausted now locked qs ns lim db = (Inl e, db)"
  | (failed) moved db' where
      "move_to_failed (\<lambda>r. jr_id r \<in> set (exhausted_candidates now locked qs ns lim (db_jobs db)))
         (to_failed now ''lease_exhausted'' ''lease expired after final attempt'') db = Inr (moved, db')"
      "PG_FailExhausted now locked qs ns lim db = (Inr (map exhausted_failure moved), db')"
proof (cases "length qs = 0 \<or> length ns = 0 \<or> lim < 1 \<or> lim > 10000 \<or> \<not> list_all pg_text_ok (qs @ ns)")
  case True
  then have "\<exists>e. PG_FailExhausted now locked qs ns lim db = (Inl e, db)" by (auto simp: PG_FailExhausted_def)
  then show ?thesis using same by blast
next
  case False
  show ?thesis
  proof (cases "move_to_failed (\<lambda>r. jr_id r \<in> set (exhausted_candidates now locked qs ns lim (db_jobs db)))
      (to_failed now ''lease_exhausted'' ''lease expired after final attempt'') db")
    case (Inl e)
    with False show ?thesis by (auto simp: PG_FailExhausted_def intro: same)
  next
    case (Inr q)
    with False show ?thesis by (cases q) (auto simp: PG_FailExhausted_def intro: failed)
  qed
qed

lemma RetryFailed_effect:
  obtains (same) "snd (PG_RetryFailed env now sid db) = db" "fst (PG_RetryFailed env now sid db) \<noteq> Inr True"
  | (restored) i r jobs where "pg_uuid env sid = Some i" "r \<in> set (db_failed db)" "fa_id r = i"
      "insert_job (restored_row now r) (db_jobs db) = Inr jobs"
      "PG_RetryFailed env now sid db =
         (Inr True, db\<lparr>db_jobs := jobs, db_failed := filter (\<lambda>r. fa_id r \<noteq> i) (db_failed db)\<rparr>)"
proof (cases "pg_uuid env sid")
  case None
  then show ?thesis by (intro same) (simp_all add: PG_RetryFailed_def)
next
  case (Some i)
  show ?thesis
  proof (cases "find (\<lambda>r. fa_id r = i) (db_failed db)")
    case None
    with Some show ?thesis by (intro same) (simp_all add: PG_RetryFailed_def)
  next
    case (Some r)
    then have r: "r \<in> set (db_failed db)" "fa_id r = i" by (auto simp: find_Some_iff)
    show ?thesis
    proof (cases "insert_job (restored_row now r) (db_jobs db)")
      case (Inl e)
      with Some \<open>pg_uuid env sid = Some i\<close> show ?thesis by (intro same) (simp_all add: PG_RetryFailed_def)
    next
      case (Inr jobs)
      with Some r \<open>pg_uuid env sid = Some i\<close> show ?thesis by (intro restored) (simp_all add: PG_RetryFailed_def)
    qed
  qed
qed

section \<open>One case analysis for all operations\<close>

text \<open>How an update may change a row: what identifies the job stays, the lease generation never
  decreases, and the row invariant is kept.\<close>

definition row_step :: "job_row \<Rightarrow> job_row \<Rightarrow> bool" where
  "row_step r r' \<longleftrightarrow> job_key r' = job_key r \<and> jr_lease_generation r \<le> jr_lease_generation r'
     \<and> (row_inv r \<longrightarrow> row_inv r')"

lemma row_step_refl [simp]: "row_step r r"
  by (simp add: row_step_def)

lemmas row_defs = claim_row_def heartbeat_row_def retry_row_def release_row_def

lemma claim_row_step: "claimable now req r \<Longrightarrow> jobs_check (claim_row now req r) \<Longrightarrow> row_step r (claim_row now req r)"
  by (auto simp: row_step_def row_inv_def job_key_def claim_row_def claimable_def Let_def jobs_check_def)

lemma heartbeat_row_step:
  "fenced now i l r \<Longrightarrow> jobs_check (heartbeat_row now' d r) \<Longrightarrow> row_step r (heartbeat_row now' d r)"
  by (auto simp: row_step_def row_inv_def job_key_def heartbeat_row_def fenced_def Let_def)

lemma retry_row_step:
  "safe_text m \<Longrightarrow> jobs_check (retry_row now d k m r) \<Longrightarrow> row_step r (retry_row now d k m r)"
  by (auto simp: row_step_def row_inv_def job_key_def retry_row_def)

lemma release_row_step: "jobs_check (release_row now r) \<Longrightarrow> row_step r (release_row now r)"
  by (auto simp: row_step_def row_inv_def job_key_def release_row_def)

lemma to_failed_key [simp]: "fail_key (to_failed now k m r) = job_key r"
  by (simp add: fail_key_def to_failed_def job_key_def)

lemma to_failed_inv:
  "row_inv r \<Longrightarrow> fa_attempts (to_failed now k m r) \<le> fa_max_attempts (to_failed now k m r)"
  "fa_failure_message (to_failed now k m r) = m"
  by (simp_all add: to_failed_def row_inv_def)

text \<open>The six ways an operation changes the tables.\<close>

inductive db_step :: "pg_env \<Rightarrow> time \<Rightarrow> store_op \<Rightarrow> jobs_db \<Rightarrow> jobs_db \<Rightarrow> bool" for env now op db where
  update: "(\<And>r. r \<in> set (db_jobs db) \<Longrightarrow> row_step r (g r)) \<Longrightarrow>
    db_step env now op db (db\<lparr>db_jobs := map g (db_jobs db)\<rparr>)"
| enqueue: "op = OpEnqueue req \<Longrightarrow> enqueue_row env now req = Some row \<Longrightarrow>
    insert_job row (db_jobs db) = Inr jobs \<Longrightarrow> db_step env now op db (db\<lparr>db_jobs := jobs\<rparr>)"
| ack: "op = OpAck l \<Longrightarrow> fence_id env l = Some i \<Longrightarrow>
    db_step env now op db (db\<lparr>db_jobs := filter (\<lambda>r. \<not> fenced now i l r) (db_jobs db)\<rparr>)"
| fail: "safe_text m \<Longrightarrow> move_to_failed p (to_failed now k m) db = Inr (moved, db') \<Longrightarrow> db_step env now op db db'"
| restore: "op = OpRetryFailed sid \<Longrightarrow> pg_uuid env sid = Some i \<Longrightarrow> r \<in> set (db_failed db) \<Longrightarrow> fa_id r = i \<Longrightarrow>
    insert_job (restored_row now r) (db_jobs db) = Inr jobs \<Longrightarrow>
    db_step env now op db (db\<lparr>db_jobs := jobs, db_failed := filter (\<lambda>r. fa_id r \<noteq> i) (db_failed db)\<rparr>)"
| forget: "op = OpForgetFailed sid \<Longrightarrow> pg_uuid env sid = Some i \<Longrightarrow>
    db_step env now op db (db\<lparr>db_failed := filter (\<lambda>r. fa_id r \<noteq> i) (db_failed db)\<rparr>)"

lemma step_same: "db_step env now op db db"
  using db_step.update [of db "\<lambda>r. r" env now op] by simp

lemma step_fenced:
  assumes "\<And>i r. fenced now i l r \<Longrightarrow> jobs_check (f r) \<Longrightarrow> row_step r (f r)"
  shows "db_step env now op db (snd (execFenced env l (update_query (\<lambda>i. fenced now i l) f) db))"
proof (cases rule: execFenced_update [where env = env and l = l and db = db and f = f
      and p = "\<lambda>i. fenced now i l"])
  case same
  then show ?thesis by (simp add: step_same)
next
  case (updated i)
  then show ?thesis
    using assms db_step.update [of db "\<lambda>r. if fenced now i l r then f r else r" env now op] by auto
qed

lemma step_Enqueue: "db_step env now (OpEnqueue req) db (snd (PG_Enqueue env st now nl req db))"
  by (cases rule: Enqueue_effect [where env = env and st = st and now = now and nl = nl and req = req and db = db])
    (auto intro: step_same db_step.enqueue)

lemma step_Claim: "db_wf db \<Longrightarrow> db_step env now op db (snd (PG_Claim st now locked req db))"
proof (cases rule: Claim_effect [where st = st and now = now and locked = locked and req = req and db = db])
  case (same e)
  then show ?thesis by (simp add: step_same)
next
  case claimed
  then show "db_wf db \<Longrightarrow> ?thesis"
    using claim_chosen [of db] claim_row_step by (auto intro!: db_step.update)
qed

lemma step_Heartbeat: "db_step env now op db (snd (PG_Heartbeat env now l d db))"
  using step_fenced [of now l "heartbeat_row now d" env op db] heartbeat_row_step
  by (simp add: PG_Heartbeat_def step_same)

lemma step_Ack: "db_step env now (OpAck l) db (snd (PG_Ack env now l db))"
  by (cases rule: Ack_effect [where env = env and now = now and l = l and db = db])
    (auto intro: step_same db_step.ack)

lemma step_Retry: "db_step env now op db (snd (PG_Retry env st now req db))"
  using step_fenced [of now "rr_Lease req" "retry_row now (rr_Delay req) (rr_ErrorKind req)
      (boundedSafeFailureMessage st (rr_ErrorKind req) (rr_Error req))" env op db]
    retry_row_step [OF boundedSafe_text]
  by (simp add: PG_Retry_def Let_def step_same)

lemma step_Release: "db_step env now op db (snd (PG_Release env now l db))"
  using step_fenced [of now l "release_row now" env op db] release_row_step
  by (simp add: PG_Release_def step_same split: sum.splits)

lemma step_Fail: "db_step env now op db (snd (PG_Fail env st now req db))"
  by (cases rule: Fail_effect [where env = env and st = st and now = now and req = req and db = db])
    (auto intro: step_same db_step.fail [OF boundedSafe_text])

lemma step_FailExhausted: "db_step env now op db (snd (PG_FailExhausted now locked qs ns lim db))"
proof -
  have "safe_text ''lease expired after final attempt''" by (simp add: safe_text_def safe_messages_def)
  then show ?thesis
    by (cases rule: FailExhausted_effect [where now = now and locked = locked and qs = qs and ns = ns
          and lim = lim and db = db]) (auto intro: step_same db_step.fail)
qed

lemma step_RetryFailed: "db_step env now (OpRetryFailed sid) db (snd (PG_RetryFailed env now sid db))"
  by (cases rule: RetryFailed_effect [where env = env and now = now and sid = sid and db = db])
    (auto intro: step_same db_step.restore)

lemma step_ForgetFailed: "db_step env now (OpForgetFailed sid) db (snd (PG_ForgetFailed env sid db))"
  by (cases "pg_uuid env sid") (auto simp: PG_ForgetFailed_def intro: step_same db_step.forget)

lemmas step_ops = step_Enqueue step_Claim step_Heartbeat step_Ack step_Retry step_Release step_Fail
  step_FailExhausted step_RetryFailed step_ForgetFailed

lemma store_exec_step: "db_wf db \<Longrightarrow> db_step env now op db (store_exec env st now op db)"
  by (cases op) (simp_all add: step_ops)

section \<open>The invariant holds in every history\<close>

lemma wf_rows: "db_wf db \<Longrightarrow> r \<in> set (db_jobs db) \<Longrightarrow> row_inv r"
  by (simp add: db_wf_def)

lemma wf_step:
  assumes "db_step env now op db db'" and "db_wf db"
  shows "db_wf db'"
  using assms(1)
proof cases
  case (update g)
  have "job_key (g r) = job_key r \<and> row_inv (g r)" if "r \<in> set (db_jobs db)" for r
    using update(2) [OF that] wf_rows [OF assms(2) that] by (simp add: row_step_def)
  with wf_update [OF assms(2)] update(1) show ?thesis by blast
next
  case (enqueue req row jobs)
  have "row_inv row"
    using enqueue_row_fresh [OF enqueue(3)] enqueue(4) by (intro fresh_row_inv) (simp_all add: insert_job_Inr)
  with wf_insert [OF assms(2) enqueue(4)] enqueue(1) show ?thesis by blast
next
  case (ack l i)
  then show ?thesis using wf_delete [OF assms(2)] by simp
next
  case (fail m p k moved)
  show ?thesis
    by (rule wf_move [OF assms(2) fail(2)])
      (use to_failed_inv(1) wf_rows [OF assms(2)] fail(1) in \<open>simp add: to_failed_inv(2)\<close>)
next
  case (restore sid i r jobs)
  have "row_inv (restored_row now r)"
    using restore(6) by (intro fresh_row_inv) (simp_all add: restored_row_fresh insert_job_Inr)
  from wf_forget [OF wf_insert [OF assms(2) restore(6) this]] restore(1) show ?thesis by simp
next
  case (forget sid i)
  then show ?thesis using wf_forget [OF assms(2)] by simp
qed

lemma reachable_wf: "store_reachable env st db \<Longrightarrow> db_wf db"
proof (induction rule: store_reachable.induct)
  case reach_empty
  then show ?case by (simp add: db_wf_def)
next
  case (reach_exec db now op)
  then show ?case using wf_step store_exec_step by blast
qed

section \<open>Conservation of jobs\<close>

definition contents where
  "contents db = mset (map job_key (db_jobs db)) + mset (map fail_key (db_failed db))"

lemma mset_map_partition: "mset (map f xs) = mset (map f (filter p xs)) + mset (map f (filter (\<lambda>x. \<not> p x) xs))"
  by (induction xs) auto

lemma filter_at_most_one:
  assumes "distinct (map f xs)" and "\<And>x. x \<in> set xs \<Longrightarrow> p x \<Longrightarrow> f x = i"
  shows "filter p xs = [] \<or> (\<exists>x \<in> set xs. p x \<and> filter p xs = [x])"
  using assms
proof (induction xs)
  case (Cons x xs)
  show ?case
  proof (cases "p x")
    case True
    then have "f x = i" using Cons.prems(2) by simp
    then have "\<not> p y" if "y \<in> set xs" for y
      using Cons.prems that by (metis distinct.simps(2) image_eqI list.set_intros(2) list.set_map list.simps(9))
    then have "filter p xs = []" by (simp add: filter_empty_conv)
    with True show ?thesis by simp
  next
    case False
    with Cons show ?thesis by auto
  qed
qed simp

lemma contents_update:
  "(\<And>r. r \<in> set (db_jobs db) \<Longrightarrow> job_key (g r) = job_key r) \<Longrightarrow>
   contents (db\<lparr>db_jobs := map g (db_jobs db)\<rparr>) = contents db"
  by (simp add: contents_def cong: map_cong)

lemma contents_move:
  assumes "move_to_failed p f db = Inr (moved, db')" and "\<And>r. fail_key (f r) = job_key r"
  shows "contents db' = contents db"
proof -
  obtain failed where ins: "insert_failed moved (db_failed db) = Inr failed"
    and moved: "moved = map f (filter p (db_jobs db))"
    and db': "db' = db\<lparr>db_jobs := filter (\<lambda>r. \<not> p r) (db_jobs db), db_failed := failed\<rparr>"
    using assms(1) by (auto simp: move_to_failed_Inr)
  have "failed = db_failed db @ moved" using insert_failed_Inr [OF ins] by simp
  then have "map fail_key failed = map fail_key (db_failed db) @ map job_key (filter p (db_jobs db))"
    using assms(2) moved by simp
  then show ?thesis
    using mset_map_partition [of job_key "db_jobs db" p] by (simp add: contents_def db')
qed

lemma contents_restore:
  assumes "db_wf db" and "r \<in> set (db_failed db)" and "insert_job (restored_row now r) (db_jobs db) = Inr jobs"
  shows "contents (db\<lparr>db_jobs := jobs, db_failed := filter (\<lambda>x. fa_id x \<noteq> fa_id r) (db_failed db)\<rparr>) = contents db"
proof -
  have one: "filter (\<lambda>x. fa_id x = fa_id r) (db_failed db) = [r]"
    using filter_at_most_one [of fa_id "db_failed db" "\<lambda>x. fa_id x = fa_id r" "fa_id r"] assms(1,2)
    by (auto simp: db_wf_def filter_empty_conv distinct_map inj_on_def)
  show ?thesis
    using mset_map_partition [of fail_key "db_failed db" "\<lambda>x. fa_id x = fa_id r"] assms(3)
    by (simp add: contents_def insert_job_Inr restored_row_fresh one)
qed

text \<open>What an operation may do to the contents: only an enqueue adds a job, and only an
  acknowledgement by the lease holder or an explicit forget removes one.\<close>

definition contents_change :: "time \<Rightarrow> store_op \<Rightarrow> jobs_db \<Rightarrow> jobs_db \<Rightarrow> bool" where
  "contents_change now op db db' \<longleftrightarrow>
     contents db' = contents db
     \<or> (\<exists>req row. op = OpEnqueue req \<and> jr_queue row = er_Queue req \<and> jr_name row = er_Name req
          \<and> contents db' = add_mset (job_key row) (contents db))
     \<or> (\<exists>l i r. op = OpAck l \<and> r \<in> set (db_jobs db) \<and> fenced now i l r
          \<and> contents db = add_mset (job_key r) (contents db'))
     \<or> (\<exists>sid r. op = OpForgetFailed sid \<and> r \<in> set (db_failed db)
          \<and> contents db = add_mset (fail_key r) (contents db'))"

lemma enqueue_row_names:
  "enqueue_row env now req = Some row \<Longrightarrow> jr_queue row = er_Queue req \<and> jr_name row = er_Name req"
  by (auto simp: enqueue_row_def split: option.splits if_splits)

lemma contents_step:
  assumes "db_step env now op db db'" and "db_wf db"
  shows "contents_change now op db db'"
  using assms(1)
proof cases
  case (update g)
  have "contents db' = contents db"
    unfolding update(1) by (rule contents_update) (use update(2) in \<open>simp add: row_step_def\<close>)
  then show ?thesis by (simp add: contents_change_def)
next
  case (enqueue req row jobs)
  then have "contents db' = add_mset (job_key row) (contents db)"
    by (simp add: contents_def insert_job_Inr)
  with enqueue(2) enqueue_row_names [OF enqueue(3)] show ?thesis unfolding contents_change_def by blast
next
  case (ack l i)
  have eq: "contents db = mset (map job_key (filter (fenced now i l) (db_jobs db))) + contents db'"
    using mset_map_partition [of job_key "db_jobs db" "fenced now i l"] ack(1) by (simp add: contents_def)
  have "filter (fenced now i l) (db_jobs db) = []
      \<or> (\<exists>r \<in> set (db_jobs db). fenced now i l r \<and> filter (fenced now i l) (db_jobs db) = [r])"
    using assms(2) by (intro filter_at_most_one [of jr_id _ _ i]) (auto simp: db_wf_def fenced_def)
  with eq ack(2) show ?thesis by (fastforce simp: contents_change_def)
next
  case (fail m p k moved)
  then show ?thesis using contents_move [OF fail(2)] by (simp add: contents_change_def)
next
  case (restore sid i r jobs)
  then show ?thesis using contents_restore [OF assms(2) restore(4,6)] by (simp add: contents_change_def)
next
  case (forget sid i)
  have eq: "contents db = mset (map fail_key (filter (\<lambda>r. fa_id r = i) (db_failed db))) + contents db'"
    using mset_map_partition [of fail_key "db_failed db" "\<lambda>r. fa_id r = i"] forget(1)
    by (simp add: contents_def)
  have "filter (\<lambda>r. fa_id r = i) (db_failed db) = []
      \<or> (\<exists>r \<in> set (db_failed db). fa_id r = i \<and> filter (\<lambda>r. fa_id r = i) (db_failed db) = [r])"
    using assms(2) by (intro filter_at_most_one [of fa_id _ _ i]) (auto simp: db_wf_def)
  with eq forget(2) show ?thesis by (fastforce simp: contents_change_def)
qed

section \<open>Claims\<close>

lemma scan_claims_Inr:
  "scan_claims st req rs = Inr ds \<longleftrightarrow> list_all2 (\<lambda>r d. scan_claim st req r = Inr d) rs ds"
proof (induction rs arbitrary: ds)
  case (Cons r rs)
  show ?case
    by (cases "scan_claim st req r"; cases "scan_claims st req rs")
      (auto simp: list_all2_Cons1 simp flip: Cons.IH)
qed auto

text \<open>What a delivery says of the row it was scanned from.\<close>

lemma scan_claim_fields:
  "scan_claim st req r = Inr d \<Longrightarrow> dl_ID d = jr_id r \<and> dl_Attempt d = jr_attempts r
     \<and> dl_MaxAttempts d = jr_max_attempts r \<and> dl_Priority d = jr_priority r \<and> dl_Payload d = jr_payload r
     \<and> dl_Queue d = jr_queue r \<and> dl_Name d = jr_name r \<and> Some (dl_LeaseExpires d) = jr_lease_expires_at r
     \<and> dl_Lease d = \<lparr>le_JobID = jr_id r, le_WorkerID = cr_WorkerID req, le_Generation = jr_lease_generation r\<rparr>
     \<and> is_ok (validateDelivery st d)"
  by (auto simp: scan_claim_def Let_def split: option.splits sum.splits)

lemma sorted_split:
  assumes "sorted (map k xs)" and "x \<in> set (take n xs)" and "y \<in> set xs" and "y \<notin> set (take n xs)"
  shows "k x \<le> k y \<and> length (take n xs) = n"
proof -
  have y: "y \<in> set (drop n xs)" using assms(3,4) by (metis Un_iff append_take_drop_id set_append)
  have "sorted (map k (take n xs) @ map k (drop n xs))"
    using assms(1) by (metis append_take_drop_id map_append)
  then have "k x \<le> k y" using assms(2) y by (auto simp: sorted_append)
  moreover have "n \<le> length xs" using y by (metis drop_eq_Nil empty_iff empty_set nat_le_linear)
  ultimately show ?thesis by simp
qed

lemma sorted_take_full: "y \<in> set xs \<Longrightarrow> y \<notin> set (take n xs) \<Longrightarrow> length (take n xs) = n"
  by (metis length_take min.absorb2 nat_le_linear take_all)

definition claim_order :: "time \<Rightarrow> string list \<Rightarrow> claim_request \<Rightarrow> job_row list \<Rightarrow> job_row list" where
  "claim_order now locked req jobs =
     filter (\<lambda>r. jr_id r \<notin> set locked) (sort_key claim_key (filter (claimable now req) jobs))"

lemma claim_order_sorted: "sorted (map claim_key (claim_order now locked req jobs))"
  by (simp add: claim_order_def sorted_filter)

lemma claim_order_set:
  "r \<in> set (claim_order now locked req jobs) \<longleftrightarrow> r \<in> set jobs \<and> claimable now req r \<and> jr_id r \<notin> set locked"
  by (auto simp: claim_order_def)

lemma claim_candidates_order:
  "claim_candidates now locked req jobs = map jr_id (take (nat (cr_Limit req)) (claim_order now locked req jobs))"
  by (simp add: claim_candidates_def claim_order_def)

lemma claim_order_ids: "distinct (map jr_id jobs) \<Longrightarrow> distinct (map jr_id (claim_order now locked req jobs))"
  by (auto simp: claim_order_def distinct_map inj_on_def distinct_sort)

lemma chosen_iff:
  assumes "db_wf db" and "r \<in> set (db_jobs db)"
  shows "jr_id r \<in> set (claim_candidates now locked req (db_jobs db)) \<longleftrightarrow>
    r \<in> set (take (nat (cr_Limit req)) (claim_order now locked req (db_jobs db)))"
proof
  assume "jr_id r \<in> set (claim_candidates now locked req (db_jobs db))"
  then obtain r' where r': "r' \<in> set (take (nat (cr_Limit req)) (claim_order now locked req (db_jobs db)))"
      "jr_id r = jr_id r'"
    by (auto simp: claim_candidates_order)
  then have "r' \<in> set (db_jobs db)" by (meson claim_order_set in_set_takeD)
  with row_unique [OF assms this r'(2)] r' show "r \<in> set (take (nat (cr_Limit req)) (claim_order now locked req (db_jobs db)))"
    by simp
qed (simp add: claim_candidates_order)

lemma Claim_ok:
  assumes "PG_Claim st now locked req db = (Inr ds, db')"
  defines "p \<equiv> \<lambda>r. jr_id r \<in> set (claim_candidates now locked req (db_jobs db))"
  shows "claim_invalid req = None"
    and "db' = db\<lparr>db_jobs := map (\<lambda>r. if p r then claim_row now req r else r) (db_jobs db)\<rparr>"
    and "scan_claims st req (filter p (db_jobs db')) = Inr ds"
  by (rule Claim_effect [of st now locked req db]; use assms in simp)+

text \<open>A successful claim in terms of the rows it took.\<close>

lemma Claim_rows:
  assumes "db_wf db" and "PG_Claim st now locked req db = (Inr ds, db')"
  defines "taken \<equiv> take (nat (cr_Limit req)) (claim_order now locked req (db_jobs db))"
  shows "db_jobs db' = map (\<lambda>r. if r \<in> set taken then claim_row now req r else r) (db_jobs db)"
    and "db_failed db' = db_failed db"
    and "list_all2 (\<lambda>r d. scan_claim st req (claim_row now req r) = Inr d)
           (filter (\<lambda>r. r \<in> set taken) (db_jobs db)) ds"
    and "claim_invalid req = None"
proof -
  let ?p = "\<lambda>r. jr_id r \<in> set (claim_candidates now locked req (db_jobs db))"
  have p: "?p r \<longleftrightarrow> r \<in> set taken" if "r \<in> set (db_jobs db)" for r
    unfolding taken_def by (rule chosen_iff [OF assms(1) that])
  have id_row: "jr_id (claim_row now req r) = jr_id r" for r by (simp add: claim_row_def Let_def)
  note rows = Claim_ok(2) [OF assms(2)] and scan = Claim_ok(3) [OF assms(2)]
  show jobs: "db_jobs db' = map (\<lambda>r. if r \<in> set taken then claim_row now req r else r) (db_jobs db)"
    using rows p by (simp cong: map_cong)
  show "db_failed db' = db_failed db" "claim_invalid req = None" using rows Claim_ok(1) [OF assms(2)] by simp_all
  have "filter ?p (map (\<lambda>r. if ?p r then claim_row now req r else r) xs) = map (claim_row now req) (filter ?p xs)"
    for xs by (induction xs) (auto simp: id_row)
  moreover have "filter ?p (db_jobs db) = filter (\<lambda>r. r \<in> set taken) (db_jobs db)"
    using p by (rule filter_cong [OF refl])
  ultimately have "filter ?p (db_jobs db') = map (claim_row now req) (filter (\<lambda>r. r \<in> set taken) (db_jobs db))"
    using rows by simp
  with scan show "list_all2 (\<lambda>r d. scan_claim st req (claim_row now req r) = Inr d)
      (filter (\<lambda>r. r \<in> set taken) (db_jobs db)) ds"
    by (simp add: scan_claims_Inr list_all2_map1)
qed

end
