(* ===== verification/Job_Store_Props.thy ===== *)
theory Job_Store_Props
  imports Job_Store_Inv
begin

text \<open>
  The properties of the PostgreSQL job store over all histories of its operations: what the tables
  always satisfy, that jobs are neither lost nor duplicated, what a claim takes, what a lease fences,
  deduplication, and which texts can be stored as failure messages.
\<close>

section \<open>A claim\<close>

lemma wf_distinct: "db_wf db \<Longrightarrow> distinct (map jr_id (db_jobs db))"
  by (simp add: db_wf_def)

lemma live_lease_hidden:
  assumes "row_inv r" and "jr_available_at r \<le> now" and "jr_lease_expires_at r = Some x"
  shows "x \<le> now"
  using assms by (auto simp: row_inv_def jobs_check_def)

lemma taken_rows:
  assumes "db_wf db" and taken_def: "taken = take n (claim_order now locked req (db_jobs db))"
  shows "set (filter (\<lambda>r. r \<in> set taken) (db_jobs db)) = set taken"
    and "length (filter (\<lambda>r. r \<in> set taken) (db_jobs db)) = length taken"
proof -
  have sub: "set taken \<subseteq> set (db_jobs db)"
    unfolding taken_def by (meson claim_order_set in_set_takeD subsetI)
  then show eq: "set (filter (\<lambda>r. r \<in> set taken) (db_jobs db)) = set taken" by auto
  have "distinct (map jr_id (claim_order now locked req (db_jobs db)))"
    by (rule claim_order_ids [OF wf_distinct [OF assms(1)]])
  then have "distinct taken" unfolding taken_def by (simp add: distinct_map)
  moreover have "distinct (filter (\<lambda>r. r \<in> set taken) (db_jobs db))"
    using wf_distinct [OF assms(1)] by (simp add: distinct_map)
  ultimately show "length (filter (\<lambda>r. r \<in> set taken) (db_jobs db)) = length taken"
    using eq by (metis distinct_card)
qed

lemma claim_row_fields:
  "jr_id (claim_row now req r) = jr_id r" "jr_attempts (claim_row now req r) = jr_attempts r + 1"
  "jr_max_attempts (claim_row now req r) = jr_max_attempts r"
  "jr_lease_generation (claim_row now req r) = jr_lease_generation r + 1"
  "jr_lease_owner (claim_row now req r) = Some (cr_WorkerID req)"
  "jr_lease_expires_at (claim_row now req r) = Some (now + milliseconds (cr_LeaseDuration req) * millisecond)"
  by (simp_all add: claim_row_def Let_def)

lemma claim_duration_pos: "claim_invalid req = None \<Longrightarrow> 0 < milliseconds (cr_LeaseDuration req)"
  by (rule milliseconds_pos) (simp add: claim_invalid_def split: if_splits)

lemma claimed_delivery:
  assumes "db_wf db" and "PG_Claim st now locked req db = (Inr ds, db')" and "d \<in> set ds"
  obtains r where "r \<in> set (db_jobs db)" "r \<in> set (take (nat (cr_Limit req)) (claim_order now locked req (db_jobs db)))"
    "scan_claim st req (claim_row now req r) = Inr d" "dl_ID d = jr_id r"
    "claim_row now req r \<in> set (db_jobs db')"
proof -
  let ?taken = "take (nat (cr_Limit req)) (claim_order now locked req (db_jobs db))"
  note rows = Claim_rows [OF assms(1,2)]
  let ?rows = "filter (\<lambda>r. r \<in> set ?taken) (db_jobs db)"
  obtain k where k: "k < length ds" "ds ! k = d" using assms(3) by (auto simp: in_set_conv_nth)
  define r where "r = ?rows ! k"
  have len: "length ?rows = length ds" using rows(3) by (rule list_all2_lengthD)
  have r: "r \<in> set ?rows" "scan_claim st req (claim_row now req r) = Inr d"
    using list_all2_nthD [OF rows(3), of k] k len nth_mem [of k ?rows] by (simp_all add: r_def)
  then have mem: "r \<in> set (db_jobs db)" "r \<in> set ?taken" by auto
  then have "claim_row now req r \<in> set (db_jobs db')" unfolding rows(1) by force
  with r mem scan_claim_fields [OF r(2)] show thesis by (intro that) (simp_all add: claim_row_fields)
qed

lemma claimed_ids:
  assumes "db_wf db" and "PG_Claim st now locked req db = (Inr ds, db')"
  defines "taken \<equiv> take (nat (cr_Limit req)) (claim_order now locked req (db_jobs db))"
  shows "dl_ID ` set ds = jr_id ` set taken" and "length ds = length taken" and "distinct (map dl_ID ds)"
proof -
  let ?rows = "filter (\<lambda>r. r \<in> set taken) (db_jobs db)"
  have l2: "list_all2 (\<lambda>r d. scan_claim st req (claim_row now req r) = Inr d) ?rows ds"
    unfolding taken_def by (rule Claim_rows(3) [OF assms(1,2)])
  then have "list_all2 (\<lambda>r d. jr_id r = dl_ID d) ?rows ds"
    by (rule list_all2_mono) (use scan_claim_fields in \<open>force simp: claim_row_fields\<close>)
  then have ids: "map jr_id ?rows = map dl_ID ds"
    by (simp add: list_all2_conv_all_nth list_eq_iff_nth_eq)
  then have "set (map dl_ID ds) = jr_id ` set ?rows" by (metis set_map)
  then show "dl_ID ` set ds = jr_id ` set taken"
    using taken_rows(1) [OF assms(1) taken_def [THEN meta_eq_to_obj_eq]] by simp
  show "length ds = length taken"
    using list_all2_lengthD [OF l2] taken_rows(2) [OF assms(1) taken_def [THEN meta_eq_to_obj_eq]] by simp
  show "distinct (map dl_ID ds)"
    unfolding ids [symmetric] using wf_distinct [OF assms(1)] by (rule distinct_map_filter')
qed

text \<open>C14: a claim returns at most the requested number of distinct jobs. Each was due, of a requested
  queue and name, not locked by another transaction, without a live lease and with an attempt left;
  its delivery counts one more attempt, and its lease is live in the new state. A due and unlocked
  job that was left out proves that the limit was reached, and comes after every claimed one in
  the order of priority, due time and ID.\<close>

theorem claim_correct:
  assumes "store_reachable env st db" and "PG_Claim st now locked req db = (Inr ds, db')"
  shows "int (length ds) \<le> cr_Limit req \<and> distinct (map dl_ID ds)
    \<and> (\<forall>d \<in> set ds. \<exists>r \<in> set (db_jobs db). dl_ID d = jr_id r \<and> claimable now req r \<and> jr_id r \<notin> set locked
         \<and> (\<forall>x. jr_lease_expires_at r = Some x \<longrightarrow> x \<le> now)
         \<and> dl_Attempt d = jr_attempts r + 1 \<and> dl_Attempt d \<le> dl_MaxAttempts d
         \<and> (\<exists>r' \<in> set (db_jobs db'). fenced now (dl_ID d) (dl_Lease d) r'))
    \<and> (\<forall>r \<in> set (db_jobs db). claimable now req r \<and> jr_id r \<notin> set locked \<and> jr_id r \<notin> dl_ID ` set ds \<longrightarrow>
         int (length ds) = cr_Limit req
         \<and> (\<forall>r' \<in> set (db_jobs db). jr_id r' \<in> dl_ID ` set ds \<longrightarrow> claim_key r' \<le> claim_key r))"
proof -
  have wf: "db_wf db" by (rule reachable_wf [OF assms(1)])
  let ?order = "claim_order now locked req (db_jobs db)"
  let ?taken = "take (nat (cr_Limit req)) ?order"
  have inv: "claim_invalid req = None" by (rule Claim_rows(4) [OF wf assms(2)])
  then have lim: "0 < cr_Limit req" by (simp add: claim_invalid_def split: if_splits)
  note ids = claimed_ids [OF wf assms(2)]
  have each: "\<exists>r \<in> set (db_jobs db). dl_ID d = jr_id r \<and> claimable now req r \<and> jr_id r \<notin> set locked
       \<and> (\<forall>x. jr_lease_expires_at r = Some x \<longrightarrow> x \<le> now)
       \<and> dl_Attempt d = jr_attempts r + 1 \<and> dl_Attempt d \<le> dl_MaxAttempts d
       \<and> (\<exists>r' \<in> set (db_jobs db'). fenced now (dl_ID d) (dl_Lease d) r')" if d: "d \<in> set ds" for d
  proof -
    obtain r where r: "r \<in> set (db_jobs db)" "r \<in> set ?taken" "scan_claim st req (claim_row now req r) = Inr d"
        "dl_ID d = jr_id r" "claim_row now req r \<in> set (db_jobs db')"
      using claimed_delivery [OF wf assms(2) d] by blast
    have c: "claimable now req r" "jr_id r \<notin> set locked"
      using r(2) by (meson claim_order_set in_set_takeD)+
    have "fenced now (dl_ID d) (dl_Lease d) (claim_row now req r)"
      using scan_claim_fields [OF r(3)] claim_duration_pos [OF inv] by (simp add: fenced_def claim_row_fields)
    moreover have "\<forall>x. jr_lease_expires_at r = Some x \<longrightarrow> x \<le> now"
      using live_lease_hidden [OF wf_rows [OF wf r(1)]] c(1) by (simp add: claimable_def)
    ultimately show ?thesis
      using r c scan_claim_fields [OF r(3)] by (intro bexI [of _ r]) (auto simp: claim_row_fields claimable_def)
  qed
  have rest: "int (length ds) = cr_Limit req
      \<and> (\<forall>r' \<in> set (db_jobs db). jr_id r' \<in> dl_ID ` set ds \<longrightarrow> claim_key r' \<le> claim_key r)"
    if "r \<in> set (db_jobs db)" "claimable now req r \<and> jr_id r \<notin> set locked \<and> jr_id r \<notin> dl_ID ` set ds" for r
  proof -
    have r: "r \<in> set ?order" "r \<notin> set ?taken" using that ids(1) by (auto simp: claim_order_set)
    have "length ?taken = nat (cr_Limit req)" by (rule sorted_take_full [OF r])
    moreover have "claim_key r' \<le> claim_key r" if r': "r' \<in> set (db_jobs db)" "jr_id r' \<in> dl_ID ` set ds" for r'
    proof -
      have "r' \<in> set ?taken" using r' ids(1) chosen_iff [OF wf r'(1)] by (simp add: claim_candidates_order)
      then show ?thesis using sorted_split [OF claim_order_sorted _ r] by blast
    qed
    ultimately show ?thesis using ids(2) lim by simp
  qed
  have "int (length ds) \<le> cr_Limit req" using ids(2) lim by simp
  with ids(3) each rest show ?thesis by blast
qed

section \<open>A concrete history\<close>

definition demo_env :: pg_env where
  "demo_env = \<lparr>pg_uuid = (\<lambda>s. if s = [] then None else Some s), pg_jsonb = Some, pg_timestamptz = Some\<rparr>"

definition demo_pg :: pg_store where
  "demo_pg = \<lparr>st_jobsTable = quote ''goforge_jobs'', st_failedTable = quote ''goforge_failed_jobs'',
     st_maxPayload = 262144, st_maxError = 8192\<rparr>"

definition demo_enqueue :: enqueue_request where
  "demo_enqueue = \<lparr>er_ID = ''j1'', er_Queue = ''mail'', er_Name = ''send.v1'', er_Payload = ''{}'', er_Priority = 0,
     er_Delay = 0, er_At = None, er_MaxAttempts = 2, er_Timeout = second, er_Backoff = [second],
     er_DedupKey = ''k''\<rparr>"

definition demo_row :: job_row where
  "demo_row = \<lparr>jr_id = ''j1'', jr_queue = ''mail'', jr_name = ''send.v1'', jr_payload = ''{}'', jr_priority = 0,
     jr_available_at = 10 * second, jr_attempts = 0, jr_max_attempts = 2, jr_timeout_ms = 1000,
     jr_backoff_ms = [1000], jr_lease_owner = None, jr_lease_generation = 0, jr_leased_at = None,
     jr_lease_expires_at = None, jr_dedup_key = Some ''k'', jr_last_error_kind = None, jr_last_error = None,
     jr_created_at = 10 * second, jr_updated_at = 10 * second\<rparr>"

definition demo_claim :: claim_request where
  "demo_claim = \<lparr>cr_Queues = [''mail''], cr_Names = [''send.v1''], cr_Limit = 5, cr_WorkerID = ''w'',
     cr_LeaseDuration = second\<rparr>"

definition demo_lease :: "int \<Rightarrow> lease" where
  "demo_lease n = \<lparr>le_JobID = ''j1'', le_WorkerID = ''w'', le_Generation = n\<rparr>"

definition demo_delivery :: "int \<Rightarrow> time \<Rightarrow> delivery" where
  "demo_delivery n t = \<lparr>dl_ID = ''j1'', dl_Queue = ''mail'', dl_Name = ''send.v1'', dl_Payload = ''{}'', dl_Priority = 0,
     dl_Attempt = n, dl_MaxAttempts = 2, dl_Timeout = second, dl_Backoff = [second], dl_DedupKey = ''k'',
     dl_AvailableAt = t + second, dl_LeasedAt = t, dl_LeaseExpires = t + second, dl_Lease = demo_lease n\<rparr>"

text \<open>The row of the demonstration job after \<open>n\<close> claims.\<close>

definition demo_like :: "int \<Rightarrow> job_row \<Rightarrow> bool" where
  "demo_like n r \<longleftrightarrow> job_key r = job_key demo_row \<and> jr_attempts r = n \<and> jr_lease_generation r = n \<and> jobs_check r"

lemma demo_names: "rmatch queue_rexp ''mail''" "rmatch versioned_name_rexp ''send.v1''" "json_valid ''{}''"
  "pg_text_ok ''k''" "pg_text_ok ''w''" "pg_text_ok ''mail''" "pg_text_ok ''send.v1''"
  by (simp add: queue_rexp_def, simp add: versioned_name_rexp_def,
      simp add: json_valid_def json_begin_value_def json_space_def json_push_def json_max_depth_def
        json_end_value_def json_pop_def, code_simp+)

lemma demo_text_permanent: "pg_text_ok ''permanent''"
  by code_simp

declare rmatch.simps [simp del]

lemma demo_ms: "milliseconds second = 1000" "milliseconds 0 = 0"
  by (simp_all add: milliseconds_def nonneg_sdiv)

lemma demo_enqueue_row: "enqueue_row demo_env (10 * second) demo_enqueue = Some demo_row"
  by (simp add: enqueue_row_def demo_env_def demo_enqueue_def demo_row_def demo_names demo_ms
      durationsToMilliseconds_def)

lemma demo_row_check: "jobs_check demo_row"
  by (simp add: jobs_check_def demo_row_def demo_names backoff_check_def dedup_check_def)

lemma demo_enqueue_valid: "enqueue_invalid demo_pg demo_enqueue = None"
  by (simp add: enqueue_invalid_def demo_enqueue_def demo_pg_def demo_names MaxNameBytes_def MaxQueueBytes_def
      MaxDedupKeyBytes_def)

lemma demo_enqueued: "PG_Enqueue demo_env demo_pg (10 * second) False demo_enqueue \<lparr>db_jobs = [], db_failed = []\<rparr>
    = (Inr \<lparr>dr_ID = ''j1'', dr_Enqueued = True\<rparr>, \<lparr>db_jobs = [demo_row], db_failed = []\<rparr>)"
proof -
  have "er_DedupKey demo_enqueue \<noteq> []" "er_ID demo_enqueue = ''j1''" "jr_id demo_row = ''j1''"
    by (simp_all add: demo_enqueue_def demo_row_def)
  then show ?thesis
    using demo_enqueue_row by (simp add: PG_Enqueue_def demo_enqueue_valid demo_row_check insert_job_def)
qed

lemma demo_reachable: "store_reachable demo_env demo_pg \<lparr>db_jobs = [demo_row], db_failed = []\<rparr>"
  using reach_exec [OF reach_empty, of demo_env demo_pg "10 * second" "OpEnqueue demo_enqueue"] demo_enqueued
  by simp

lemma demo_claim_valid: "claim_invalid demo_claim = None"
  by (simp add: claim_invalid_def demo_claim_def demo_names MaxQueueBytes_def MaxNameBytes_def)

lemma demo_backoff: "decodeDurations (int_array_text [1000]) = Inr [second]"
  using unmarshal_int_array [of "[1000]"]
  by (simp add: decodeDurations_def millisecondsToDurations_def in_int64_def min_int64_def max_int64_def wrap64_def)

lemma demo_scan:
  "0 < t \<Longrightarrow> demo_like n r \<Longrightarrow> 0 \<le> n \<Longrightarrow> n < 2 \<Longrightarrow>
   scan_claim demo_pg demo_claim (claim_row t demo_claim r) = Inr (demo_delivery (n + 1) t)"
  by (simp add: scan_claim_def claim_row_def demo_like_def job_key_def demo_row_def demo_claim_def demo_backoff demo_ms
      demo_delivery_def demo_lease_def validateDelivery_def demo_names demo_pg_def MaxQueueBytes_def
      MaxNameBytes_def MaxDedupKeyBytes_def is_zero_time_def validateLease_def wrap64_def Let_def)

lemma demo_claim_like: "demo_like n r \<Longrightarrow> demo_like (n + 1) (claim_row t demo_claim r)"
  by (auto simp: demo_like_def job_key_def claim_row_def demo_claim_def jobs_check_def Let_def)

lemma demo_claimed:
  assumes "0 < t" and "jr_available_at r \<le> t" and "demo_like n r" and "0 \<le> n" and "n < 2"
  shows "PG_Claim demo_pg t [] demo_claim \<lparr>db_jobs = [r], db_failed = fs\<rparr>
    = (Inr [demo_delivery (n + 1) t], \<lparr>db_jobs = [claim_row t demo_claim r], db_failed = fs\<rparr>)"
proof -
  have f: "jr_id r = ''j1''" "jr_queue r = ''mail''" "jr_name r = ''send.v1''" "jr_max_attempts r = 2" "jr_attempts r = n"
    using assms(3) by (simp_all add: demo_like_def job_key_def demo_row_def)
  have ids: "jr_id (claim_row t demo_claim r) = ''j1''" "cr_WorkerID demo_claim = ''w''"
    by (simp_all add: f claim_row_fields demo_claim_def)
  have cand: "claim_candidates t [] demo_claim [r] = [''j1'']"
    using assms(2,5) by (simp add: claim_candidates_def claimable_def f demo_claim_def)
  have "jobs_check (claim_row t demo_claim r)" using demo_claim_like [OF assms(3)] by (simp add: demo_like_def)
  then show ?thesis
    using demo_scan [OF assms(1,3,4,5)] by (simp add: PG_Claim_def demo_claim_valid demo_names update_jobs_def ids f cand)
qed

lemma demo_row_like: "demo_like 0 demo_row"
  using demo_row_check by (simp add: demo_like_def) (simp add: demo_row_def)

lemma demo_first_claim:
  "PG_Claim demo_pg (11 * second) [] demo_claim \<lparr>db_jobs = [demo_row], db_failed = []\<rparr>
     = (Inr [demo_delivery 1 (11 * second)],
        \<lparr>db_jobs = [claim_row (11 * second) demo_claim demo_row], db_failed = []\<rparr>)"
  using demo_claimed [OF _ _ demo_row_like, of "11 * second" "[]"] by (simp add: demo_row_def)

lemma demo_second_claim:
  "PG_Claim demo_pg (13 * second) [] demo_claim
     \<lparr>db_jobs = [claim_row (11 * second) demo_claim demo_row], db_failed = []\<rparr>
   = (Inr [demo_delivery 2 (13 * second)],
      \<lparr>db_jobs = [claim_row (13 * second) demo_claim (claim_row (11 * second) demo_claim demo_row)], db_failed = []\<rparr>)"
proof -
  have "jr_available_at (claim_row (11 * second) demo_claim demo_row) \<le> 13 * second"
    by (simp add: claim_row_def demo_claim_def demo_ms Let_def)
  with demo_claimed [OF _ this demo_claim_like [OF demo_row_like], of "[]"] show ?thesis by simp
qed

theorem claim_correct_witness:
  "\<exists>db'. PG_Claim demo_pg (11 * second) [] demo_claim \<lparr>db_jobs = [demo_row], db_failed = []\<rparr>
       = (Inr [demo_delivery 1 (11 * second)], db')
     \<and> (\<exists>r' \<in> set (db_jobs db'). fenced (11 * second) ''j1'' (demo_lease 1) r')"
proof -
  let ?d = "demo_delivery 1 (11 * second)"
  obtain db' where c: "PG_Claim demo_pg (11 * second) [] demo_claim \<lparr>db_jobs = [demo_row], db_failed = []\<rparr>
      = (Inr [?d], db')"
    using demo_first_claim by blast
  have "\<forall>d \<in> set [?d]. \<exists>r' \<in> set (db_jobs db'). fenced (11 * second) (dl_ID d) (dl_Lease d) r'"
    using claim_correct [OF demo_reachable c] by blast
  then have "\<exists>r' \<in> set (db_jobs db'). fenced (11 * second) (dl_ID ?d) (dl_Lease ?d) r'"
    unfolding list.set by blast
  moreover have "dl_ID ?d = ''j1''" "dl_Lease ?d = demo_lease 1" by (simp_all add: demo_delivery_def)
  ultimately show ?thesis using c by metis
qed

section \<open>The tables and their contents\<close>

text \<open>C15: in every state the store can reach, no two queued jobs share an ID and no two queued jobs of
  the same queue and name share a deduplication key; no job has used more attempts than its policy
  allows; and a leased job is not due before its lease expires.\<close>

theorem store_invariant:
  assumes "store_reachable env st db" and "r \<in> set (db_jobs db)"
  shows "(\<forall>r' \<in> set (db_jobs db). jr_id r' = jr_id r \<or> same_dedup r' r \<longrightarrow> r' = r)
    \<and> 0 \<le> jr_attempts r \<and> jr_attempts r \<le> jr_max_attempts r \<and> jr_attempts r \<le> jr_lease_generation r
    \<and> (jr_lease_owner r \<noteq> None \<longrightarrow> jr_lease_expires_at r = Some (jr_available_at r) \<and> 1 \<le> jr_attempts r)"
proof -
  have wf: "db_wf db" by (rule reachable_wf [OF assms(1)])
  have "r' = r" if "r' \<in> set (db_jobs db)" "jr_id r' = jr_id r \<or> same_dedup r' r" for r'
    using that row_unique [OF wf that(1) assms(2)] wf assms(2) unfolding db_wf_def by blast
  moreover have "0 \<le> jr_attempts r" using wf_rows [OF wf assms(2)] by (simp add: row_inv_def jobs_check_def)
  ultimately show ?thesis using wf_rows [OF wf assms(2)] unfolding row_inv_def by blast
qed

theorem store_invariant_witness:
  "demo_row \<in> set [demo_row] \<and> jr_attempts demo_row \<le> jr_max_attempts demo_row"
  using store_invariant [OF demo_reachable, of demo_row] by simp

text \<open>C16: jobs are neither lost nor duplicated. Whatever the outcome of an operation, the multiset of
  jobs in the two tables changes only in three ways: an enqueue adds one job of the requested queue
  and name, an acknowledgement removes one job whose lease it holds, and an explicit forget removes
  one terminal failure. Claims, heartbeats, retries, releases, failures and restored failures keep
  every job with its payload and policy.\<close>

theorem job_conservation:
  assumes "store_reachable env st db"
  shows "contents_change now op db (store_exec env st now op db)"
  using contents_step [OF store_exec_step] reachable_wf [OF assms] by blast

theorem job_conservation_witness:
  "contents_change (11 * second) (OpAck (demo_lease 1)) \<lparr>db_jobs = [demo_row], db_failed = []\<rparr>
     (store_exec demo_env demo_pg (11 * second) (OpAck (demo_lease 1)) \<lparr>db_jobs = [demo_row], db_failed = []\<rparr>)"
  using job_conservation [OF demo_reachable] by blast

section \<open>Leases\<close>

fun store_run :: "pg_env \<Rightarrow> pg_store \<Rightarrow> (time \<times> store_op) list \<Rightarrow> jobs_db \<Rightarrow> jobs_db" where
  "store_run env st [] db = db"
| "store_run env st ((now, op) # ops) db = store_run env st ops (store_exec env st now op db)"

text \<open>The operations that do not put a new row with the ID \<open>i\<close> into the queue.\<close>

fun same_incarnation :: "pg_env \<Rightarrow> string \<Rightarrow> store_op \<Rightarrow> bool" where
  "same_incarnation env i (OpEnqueue req) \<longleftrightarrow> pg_uuid env (er_ID req) \<noteq> Some i"
| "same_incarnation env i (OpRetryFailed sid) \<longleftrightarrow> pg_uuid env sid \<noteq> Some i"
| "same_incarnation env i op \<longleftrightarrow> True"

definition generation_from :: "string \<Rightarrow> int \<Rightarrow> jobs_db \<Rightarrow> bool" where
  "generation_from i g db \<longleftrightarrow> (\<forall>r \<in> set (db_jobs db). jr_id r = i \<longrightarrow> g \<le> jr_lease_generation r)"

lemma generation_step:
  assumes "db_step env now op db db'" and "same_incarnation env i op" and "generation_from i g db"
  shows "generation_from i g db'"
  using assms(1)
proof cases
  case (update h)
  have "g \<le> jr_lease_generation (h r)" if "r \<in> set (db_jobs db)" "jr_id (h r) = i" for r
    using update(2) [OF that(1)] that assms(3) by (force simp: row_step_def job_key_def generation_from_def)
  then show ?thesis unfolding update(1) by (auto simp: generation_from_def)
next
  case (enqueue req row jobs)
  then have "jr_id row \<noteq> i" using enqueue_row_fresh assms(2) by force
  with enqueue(1,4) assms(3) show ?thesis by (auto simp: generation_from_def insert_job_Inr)
next
  case (ack l j)
  with assms(3) show ?thesis by (auto simp: generation_from_def)
next
  case (fail m p k moved)
  with assms(3) show ?thesis by (auto simp: generation_from_def move_to_failed_Inr)
next
  case (restore sid j r jobs)
  then have "jr_id (restored_row now r) \<noteq> i" using assms(2) by (auto simp: restored_row_def)
  with restore(1,6) assms(3) show ?thesis by (auto simp: generation_from_def insert_job_Inr)
next
  case (forget sid j)
  with assms(3) show ?thesis by (auto simp: generation_from_def)
qed

lemma generation_run:
  "\<forall>(now, op) \<in> set ops. same_incarnation env i op \<Longrightarrow> db_wf db \<Longrightarrow> generation_from i g db \<Longrightarrow>
   db_wf (store_run env st ops db) \<and> generation_from i g (store_run env st ops db)"
proof (induction env st ops db rule: store_run.induct)
  case (2 env st now op ops db)
  have step: "db_step env now op db (store_exec env st now op db)" by (rule store_exec_step [OF 2(3)])
  from 2(2) have "same_incarnation env i op" "\<forall>(now, op) \<in> set ops. same_incarnation env i op" by simp_all
  with 2(1) [OF _ wf_step [OF step 2(3)] generation_step [OF step _ 2(4)]] show ?case by simp
qed simp

lemma claim_generation:
  assumes "db_wf db" and "PG_Claim st now locked req db = (Inr ds, db')" and "d \<in> set ds"
    and "generation_from (dl_ID d) g db"
  shows "g + 1 \<le> le_Generation (dl_Lease d)" and "generation_from (dl_ID d) (le_Generation (dl_Lease d)) db'"
    and "le_JobID (dl_Lease d) = dl_ID d" and "db_wf db'"
proof -
  obtain r where r: "r \<in> set (db_jobs db)" "scan_claim st req (claim_row now req r) = Inr d" "dl_ID d = jr_id r"
      "claim_row now req r \<in> set (db_jobs db')"
    using claimed_delivery [OF assms(1-3)] by blast
  have l: "dl_Lease d = \<lparr>le_JobID = jr_id r, le_WorkerID = cr_WorkerID req, le_Generation = jr_lease_generation r + 1\<rparr>"
    using scan_claim_fields [OF r(2)] by (simp add: claim_row_fields)
  show "g + 1 \<le> le_Generation (dl_Lease d)" "le_JobID (dl_Lease d) = dl_ID d"
    using assms(4) r l by (auto simp: generation_from_def)
  show wf': "db_wf db'"
    using wf_step [OF step_Claim [OF assms(1), of undefined now "OpClaim locked req" st locked req] assms(1)] assms(2)
    by simp
  have "jr_lease_generation r' = le_Generation (dl_Lease d)"
    if "r' \<in> set (db_jobs db')" "jr_id r' = dl_ID d" for r'
    using row_unique [OF wf' that(1) r(4)] that(2) r(3) l by (simp add: claim_row_fields)
  then show "generation_from (dl_ID d) (le_Generation (dl_Lease d)) db'"
    unfolding generation_from_def by simp
qed

text \<open>The operations a worker performs with a lease, and whether the store reports ownership.\<close>

fun lease_of :: "store_op \<Rightarrow> lease option" where
  "lease_of (OpHeartbeat l d) = Some l"
| "lease_of (OpAck l) = Some l"
| "lease_of (OpRetry req) = Some (rr_Lease req)"
| "lease_of (OpRelease l) = Some l"
| "lease_of (OpFail req) = Some (fr_Lease req)"
| "lease_of op = None"

fun lease_result :: "pg_env \<Rightarrow> pg_store \<Rightarrow> time \<Rightarrow> store_op \<Rightarrow> jobs_db \<Rightarrow> bool result" where
  "lease_result env st now (OpHeartbeat l d) db = fst (PG_Heartbeat env now l d db)"
| "lease_result env st now (OpAck l) db = fst (PG_Ack env now l db)"
| "lease_result env st now (OpRetry req) db = fst (PG_Retry env st now req db)"
| "lease_result env st now (OpRelease l) db = fst (PG_Release env now l db)"
| "lease_result env st now (OpFail req) db = fst (PG_Fail env st now req db)"
| "lease_result env st now op db = Inr False"

lemma not_fenced_exec:
  assumes "\<And>i r. fence_id env l = Some i \<Longrightarrow> r \<in> set (db_jobs db) \<Longrightarrow> \<not> fenced now i l r"
  shows "snd (execFenced env l (update_query (\<lambda>i. fenced now i l) f) db) = db"
    and "fst (execFenced env l (update_query (\<lambda>i. fenced now i l) f) db) \<noteq> Inr True"
proof -
  have "map (\<lambda>r. if fenced now i l r then f r else r) (db_jobs db) = db_jobs db"
    "filter (fenced now i l) (db_jobs db) = []" if "fence_id env l = Some i" for i
    using assms that by (simp_all add: map_idI filter_empty_conv)
  then show "snd (execFenced env l (update_query (\<lambda>i. fenced now i l) f) db) = db"
    "fst (execFenced env l (update_query (\<lambda>i. fenced now i l) f) db) \<noteq> Inr True"
    by (auto simp: execFenced_def update_query_def update_jobs_def split: option.splits)
qed

lemma not_fenced_ack:
  assumes "\<And>i r. fence_id env l = Some i \<Longrightarrow> r \<in> set (db_jobs db) \<Longrightarrow> \<not> fenced now i l r"
  shows "snd (PG_Ack env now l db) = db \<and> fst (PG_Ack env now l db) \<noteq> Inr True"
proof -
  have "filter (fenced now i l) (db_jobs db) = []" "filter (\<lambda>r. \<not> fenced now i l r) (db_jobs db) = db_jobs db"
    if "fence_id env l = Some i" for i
    using assms that by (simp_all add: filter_empty_conv filter_id_conv)
  then show ?thesis by (auto simp: PG_Ack_def execFenced_def split: sum.splits option.splits)
qed

lemma not_fenced_fail:
  assumes "\<And>i r. fence_id env (fr_Lease req) = Some i \<Longrightarrow> r \<in> set (db_jobs db) \<Longrightarrow> \<not> fenced now i (fr_Lease req) r"
  shows "snd (PG_Fail env st now req db) = db \<and> fst (PG_Fail env st now req db) \<noteq> Inr True"
proof (cases rule: Fail_effect [where env = env and st = st and now = now and req = req and db = db])
  case (failed i moved db')
  have "filter (fenced now i (fr_Lease req)) (db_jobs db) = []"
    "filter (\<lambda>r. \<not> fenced now i (fr_Lease req) r) (db_jobs db) = db_jobs db"
    using assms failed(1) by (simp_all add: filter_empty_conv filter_id_conv)
  with failed(2,3) show ?thesis by (auto simp: move_to_failed_def)
qed simp

lemma not_fenced_noop:
  assumes "lease_of op = Some l"
    and nf: "\<And>i r. fence_id env l = Some i \<Longrightarrow> r \<in> set (db_jobs db) \<Longrightarrow> \<not> fenced now i l r"
  shows "store_exec env st now op db = db \<and> lease_result env st now op db \<noteq> Inr True"
  using assms(1) not_fenced_exec [OF nf] not_fenced_ack [OF nf] not_fenced_fail [of env _ db now st] nf
  by (cases op)
    (auto simp: PG_Heartbeat_def PG_Retry_def PG_Release_def Let_def split: sum.splits)

lemma stale_not_fenced:
  assumes "generation_from i (g + 1) db" and "pg_uuid env (le_JobID l) = Some i" and "le_Generation l = g"
    and "fence_id env l = Some j" and "r \<in> set (db_jobs db)"
  shows "\<not> fenced now j l r"
  using assms by (auto simp: fence_id_def fenced_def generation_from_def split: if_splits)

text \<open>C17: a lease fences every mutation. Once a job was claimed again, by any worker and after any
  operations in between, the earlier lease is dead for as long as the job stays in the queue or among
  the failures: a heartbeat, acknowledgement, retry, release or failure with it reports that the
  lease is not owned (or an error) and changes nothing. The one assumption on the server is that
  it accepts the text form of an ID it returned.\<close>

theorem lease_fencing:
  assumes "store_reachable env st db"
    and "PG_Claim st now1 locked1 req1 db = (Inr ds1, db1)" and "d1 \<in> set ds1"
    and "\<forall>(now, op) \<in> set ops1. same_incarnation env (dl_ID d1) op"
    and "PG_Claim st now2 locked2 req2 (store_run env st ops1 db1) = (Inr ds2, db2)" and "d2 \<in> set ds2"
    and "dl_ID d2 = dl_ID d1"
    and "\<forall>(now, op) \<in> set ops2. same_incarnation env (dl_ID d1) op"
    and "pg_uuid env (dl_ID d1) = Some (dl_ID d1)" and "lease_of op = Some (dl_Lease d1)"
  shows "store_exec env st now op (store_run env st ops2 db2) = store_run env st ops2 db2
    \<and> lease_result env st now op (store_run env st ops2 db2) \<noteq> Inr True"
proof -
  have wf: "db_wf db" by (rule reachable_wf [OF assms(1)])
  have "0 \<le> jr_lease_generation r" if "r \<in> set (db_jobs db)" for r
    using wf_rows [OF wf that] by (simp add: row_inv_def jobs_check_def)
  then have "generation_from (dl_ID d1) 0 db" by (simp add: generation_from_def)
  note c1 = claim_generation [OF wf assms(2,3) this]
  note run1 = generation_run [OF assms(4) c1(4,2), of st]
  have "generation_from (dl_ID d2) (le_Generation (dl_Lease d1)) (store_run env st ops1 db1)"
    using run1 assms(7) by simp
  note c2 = claim_generation [OF conjunct1 [OF run1] assms(5,6) this]
  have "generation_from (dl_ID d1) (le_Generation (dl_Lease d1) + 1) db2"
    using c2(1,2) assms(7) by (force simp: generation_from_def)
  note run2 = generation_run [OF assms(8) c2(4) this, of st]
  show ?thesis
    by (rule not_fenced_noop [OF assms(10)])
      (rule stale_not_fenced [OF conjunct2 [OF run2]], use assms(9) c1(3) in simp_all)
qed

theorem lease_fencing_witness:
  "\<exists>db2. PG_Claim demo_pg (13 * second) [] demo_claim
       \<lparr>db_jobs = [claim_row (11 * second) demo_claim demo_row], db_failed = []\<rparr>
       = (Inr [demo_delivery 2 (13 * second)], db2)
     \<and> store_exec demo_env demo_pg (13 * second) (OpAck (demo_lease 1)) db2 = db2"
proof -
  let ?d1 = "demo_delivery 1 (11 * second)" and ?d2 = "demo_delivery 2 (13 * second)"
  obtain db2 where c2: "PG_Claim demo_pg (13 * second) [] demo_claim
      (store_run demo_env demo_pg [] \<lparr>db_jobs = [claim_row (11 * second) demo_claim demo_row], db_failed = []\<rparr>)
      = (Inr [?d2], db2)"
    using demo_second_claim by (simp only: store_run.simps)
  have "store_exec demo_env demo_pg (13 * second) (OpAck (demo_lease 1)) (store_run demo_env demo_pg [] db2)
        = store_run demo_env demo_pg [] db2
    \<and> lease_result demo_env demo_pg (13 * second) (OpAck (demo_lease 1)) (store_run demo_env demo_pg [] db2) \<noteq> Inr True"
    by (rule lease_fencing [OF demo_reachable demo_first_claim, where ?d1.0 = ?d1 and ?d2.0 = ?d2, OF _ _ c2])
      (simp_all add: demo_delivery_def demo_env_def)
  then show ?thesis using c2 unfolding store_run.simps by blast
qed

section \<open>Deduplication and failure messages\<close>

text \<open>The row an enqueue with the key of a queued job finds is that job.\<close>

lemma enqueue_finds_queued:
  assumes "store_reachable env st db" and "r \<in> set (db_jobs db)" and "jr_dedup_key r = Some (er_DedupKey req)"
    and "jr_queue r = er_Queue req" and "jr_name r = er_Name req" and "er_DedupKey req \<noteq> []"
    and "enqueue_row env now req = Some row"
  shows "find (same_dedup row) (db_jobs db) = Some r"
proof -
  have key: "jr_dedup_key row = Some (er_DedupKey req)" "jr_queue row = er_Queue req" "jr_name row = er_Name req"
    using assms(6,7) by (auto simp: enqueue_row_def split: option.splits if_splits)
  have dup: "same_dedup row r" using key assms(3-5) by (simp add: same_dedup_def)
  then obtain r' where r': "find (same_dedup row) (db_jobs db) = Some r'"
    using assms(2) by (cases "find (same_dedup row) (db_jobs db)") (auto simp: find_None_iff)
  then have "r' \<in> set (db_jobs db)" "same_dedup row r'" by (auto simp: find_Some_iff)
  moreover have "same_dedup r' r" using calculation(2) dup by (auto simp: same_dedup_def)
  ultimately have "r' = r"
    using reachable_wf [OF assms(1)] assms(2) unfolding db_wf_def by blast
  then show ?thesis using r' by simp
qed

lemma enqueue_queued:
  assumes "store_reachable env st db" and "r \<in> set (db_jobs db)" and "jr_dedup_key r = Some (er_DedupKey req)"
    and "jr_queue r = er_Queue req" and "jr_name r = er_Name req" and "er_DedupKey req \<noteq> []"
    and "PG_Enqueue env st now False req db = (Inr res, db')"
  shows "db' = db" and "dr_ID res = jr_id r"
proof -
  obtain row where "enqueue_row env now req = Some row"
    using assms(6,7) by (cases "enqueue_row env now req") (auto simp: PG_Enqueue_def split: option.splits)
  with enqueue_finds_queued [OF assms(1-6)] assms(6,7) show "db' = db" "dr_ID res = jr_id r"
    by (auto simp: PG_Enqueue_def split: option.splits if_splits)
qed

text \<open>C18: while a job with a deduplication key is queued, enqueueing another one with the same queue, name
  and key stores nothing and returns the ID of the queued job, reported as not enqueued.\<close>

theorem enqueue_deduplicates:
  assumes "store_reachable env st db" and "r \<in> set (db_jobs db)" and "jr_dedup_key r = Some (er_DedupKey req)"
    and "jr_queue r = er_Queue req" and "jr_name r = er_Name req" and "er_DedupKey req \<noteq> []"
    and "enqueue_invalid st req = None" and "enqueue_row env now req = Some row" and "jobs_check row"
  shows "PG_Enqueue env st now False req db = (Inr \<lparr>dr_ID = jr_id r, dr_Enqueued = (jr_id r = er_ID req)\<rparr>, db)"
  using assms(6-9) enqueue_finds_queued [OF assms(1-6,8)] by (simp add: PG_Enqueue_def)

lemma scan_failed_messages:
  "scan_failed st rs = Inr items \<Longrightarrow> item \<in> set items \<Longrightarrow> safe_text (fj_FailureMessage item)"
proof (induction rs arbitrary: items)
  case (Cons r rs)
  then show ?case by (auto simp: failed_item_def boundedSafe_text split: sum.splits)
qed simp

text \<open>C19: no text of a handler's error is ever stored or listed: every failure message of a queued or
  failed job, and of every item that the administration lists, is a prefix of one of the eight fixed
  messages.\<close>

theorem failure_messages_safe:
  assumes "store_reachable env st db"
  shows "(\<forall>r \<in> set (db_jobs db). \<forall>m. jr_last_error r = Some m \<longrightarrow> safe_text m)
    \<and> (\<forall>r \<in> set (db_failed db). safe_text (fa_failure_message r))
    \<and> (\<forall>items item. PG_ListFailed st limit db = Inr items \<and> item \<in> set items \<longrightarrow>
         safe_text (fj_FailureMessage item))"
proof (intro conjI ballI allI impI)
  have wf: "db_wf db" by (rule reachable_wf [OF assms])
  show "safe_text m" if "r \<in> set (db_jobs db)" "jr_last_error r = Some m" for r m
    using wf_rows [OF wf that(1)] that(2) by (simp add: row_inv_def)
  show "safe_text (fa_failure_message r)" if "r \<in> set (db_failed db)" for r
    using wf that unfolding db_wf_def fail_inv_def by blast
  show "safe_text (fj_FailureMessage item)"
    if "PG_ListFailed st limit db = Inr items \<and> item \<in> set items" for items item
    using that scan_failed_messages by (auto simp: PG_ListFailed_def Let_def split: if_splits)
qed

theorem enqueue_deduplicates_witness:
  "PG_Enqueue demo_env demo_pg (10 * second) False (demo_enqueue\<lparr>er_ID := ''j2''\<rparr>) \<lparr>db_jobs = [demo_row], db_failed = []\<rparr>
     = (Inr \<lparr>dr_ID = ''j1'', dr_Enqueued = False\<rparr>, \<lparr>db_jobs = [demo_row], db_failed = []\<rparr>)"
proof -
  let ?req = "demo_enqueue\<lparr>er_ID := ''j2''\<rparr>"
  have row: "enqueue_row demo_env (10 * second) ?req = Some (demo_row\<lparr>jr_id := ''j2''\<rparr>)"
    by (simp add: enqueue_row_def demo_env_def demo_enqueue_def demo_row_def demo_names demo_ms
      durationsToMilliseconds_def)
  have "enqueue_invalid demo_pg ?req = None"
    by (simp add: enqueue_invalid_def demo_enqueue_def demo_pg_def demo_names MaxNameBytes_def MaxQueueBytes_def
      MaxDedupKeyBytes_def)
  moreover have "jobs_check (demo_row\<lparr>jr_id := ''j2''\<rparr>)" using demo_row_check by (simp add: jobs_check_def)
  ultimately have "PG_Enqueue demo_env demo_pg (10 * second) False ?req \<lparr>db_jobs = [demo_row], db_failed = []\<rparr>
      = (Inr \<lparr>dr_ID = jr_id demo_row, dr_Enqueued = (jr_id demo_row = er_ID ?req)\<rparr>, \<lparr>db_jobs = [demo_row], db_failed = []\<rparr>)"
    by (intro enqueue_deduplicates [OF demo_reachable _ _ _ _ _ _ row])
      (simp_all add: demo_row_def demo_enqueue_def)
  then show ?thesis by (simp add: demo_row_def demo_enqueue_def)
qed

definition demo_retried :: jobs_db where
  "demo_retried = store_exec demo_env demo_pg (12 * second)
     (OpRetry \<lparr>rr_Lease = demo_lease 1, rr_Delay = 0, rr_ErrorKind = ''boom'', rr_Error = ''password=hunter2''\<rparr>)
     (store_exec demo_env demo_pg (11 * second) (OpClaim [] demo_claim) \<lparr>db_jobs = [demo_row], db_failed = []\<rparr>)"

theorem failure_messages_safe_witness:
  "safe_text (safeFailureMessage ''boom'' ''password=hunter2'')
   \<and> list_all (\<lambda>r. case jr_last_error r of Some m \<Rightarrow> safe_text m | None \<Rightarrow> True) (db_jobs demo_retried)"
proof -
  have "store_reachable demo_env demo_pg demo_retried"
    unfolding demo_retried_def by (intro reach_exec demo_reachable)
  from failure_messages_safe [OF this, of 0] show ?thesis
    by (auto simp: list_all_iff safeFailureMessage_def safe_text_def safe_messages_def split: option.splits)
qed

section \<open>Limits of the protocol\<close>

lemma release_true:
  assumes "PG_Release env now l db = (Inr True, db')"
  obtains i where "fence_id env l = Some i"
    "db' = db\<lparr>db_jobs := map (\<lambda>r. if fenced now i l r then release_row now r else r) (db_jobs db)\<rparr>"
  using assms
  by (auto simp: PG_Release_def execFenced_def update_query_def update_jobs_def split: sum.splits option.splits if_splits)

text \<open>C20: releasing a delivery of the final attempt strands the job: it stays in the queue without an
  owner and with no attempt left, so that no claim ever selects it and the sweep for exhausted
  leases, which only looks at owned jobs, never moves it to the failures.\<close>

theorem release_final_attempt_strands:
  assumes "PG_Release env now l db = (Inr True, db')" and "r \<in> set (db_jobs db)"
    and "fence_id env l = Some i" and "fenced now i l r" and "jr_attempts r = jr_max_attempts r"
  shows "\<exists>r' \<in> set (db_jobs db'). job_key r' = job_key r
    \<and> (\<forall>now' req. \<not> claimable now' req r') \<and> (\<forall>now' qs ns. \<not> exhausted now' qs ns r')"
proof -
  obtain j where "fence_id env l = Some j"
    and db': "db' = db\<lparr>db_jobs := map (\<lambda>r. if fenced now j l r then release_row now r else r) (db_jobs db)\<rparr>"
    by (rule release_true [OF assms(1)])
  then have "release_row now r \<in> set (db_jobs db')" using assms(2-4) by force
  then show ?thesis
    using assms(5) by (intro bexI) (auto simp: release_row_def job_key_def claimable_def exhausted_def)
qed

definition demo_final :: job_row where
  "demo_final = claim_row (13 * second) demo_claim (claim_row (11 * second) demo_claim demo_row)"

lemma demo_final_fields:
  "fenced (13 * second) ''j1'' (demo_lease 2) demo_final" "jr_attempts demo_final = jr_max_attempts demo_final"
  "jobs_check (release_row now demo_final)"
  using demo_claim_like [OF demo_claim_like [OF demo_row_like], of "13 * second" "11 * second"]
  by (simp_all add: demo_final_def fenced_def claim_row_def demo_claim_def demo_row_def demo_lease_def demo_ms Let_def
      jobs_check_def demo_like_def release_row_def)

lemma demo_fence_id: "fence_id demo_env (demo_lease n) = Some ''j1''"
  by (simp add: fence_id_def demo_lease_def demo_names demo_env_def)

theorem release_final_attempt_strands_witness:
  "\<exists>db'. PG_Release demo_env (13 * second) (demo_lease 2) \<lparr>db_jobs = [demo_final], db_failed = []\<rparr> = (Inr True, db')
     \<and> (\<exists>r' \<in> set (db_jobs db'). \<forall>now' req. \<not> claimable now' req r')"
proof -
  have "is_ok (validateLease (demo_lease 2))" by (simp add: validateLease_def demo_lease_def)
  then obtain db' where rel: "PG_Release demo_env (13 * second) (demo_lease 2) \<lparr>db_jobs = [demo_final], db_failed = []\<rparr>
      = (Inr True, db')"
    using demo_final_fields
    by (auto simp: PG_Release_def execFenced_def demo_fence_id update_query_def update_jobs_def is_ok_iff
        simp del: is_ok.simps)
  from release_final_attempt_strands [OF rel _ demo_fence_id demo_final_fields(1,2)] rel show ?thesis by auto
qed


text \<open>The text form of \<open>jsonb\<close> puts a space after a colon, so it can be longer than what was sent.\<close>

definition demo_object :: "bool \<Rightarrow> bytes" where
  "demo_object spaced = CHR ''{'' # CHR 0x22 # CHR ''a'' # CHR 0x22 # CHR '':'' # (if spaced then '' '' else []) @ ''1}''"

definition demo_jsonb_env :: pg_env where
  "demo_jsonb_env = demo_env\<lparr>pg_jsonb := (\<lambda>b. if b = demo_object False then Some (demo_object True) else Some b)\<rparr>"

definition demo_small :: pg_store where
  "demo_small = demo_pg\<lparr>st_maxPayload := 7\<rparr>"


end
