(* ===== verification/Job_Worker.thy ===== *)
theory Job_Worker
  imports Job_Core
begin

text \<open>
  The worker of the package \<open>job\<close> (\<^verbatim>\<open>src/job/worker.go\<close>), over any store. The goroutine that
  processes one delivery is a step function: its phase says which channels its \<open>select\<close> waits on, and an
  event is the readiness of one of them, so that every order in which the runtime can serve ready channels
  is a list of enabled events. The main loop \<open>Run\<close> is a step function of the same kind. Contexts are
  represented by the events they cause. Every step returns the events it hands to the emitter; the
  readings of the clock are arguments.
\<close>

section \<open>Configuration\<close>

record worker_config =
  wc_Queues :: "string list"
  wc_Concurrency :: int
  wc_PollInterval :: duration
  wc_LeaseDuration :: duration
  wc_HeartbeatInterval :: duration
  wc_OperationTimeout :: duration
  wc_CancellationTimeout :: duration
  wc_ShutdownTimeout :: duration
  wc_WorkerID :: string
  wc_MaxErrorBytes :: int

fun check_queues :: "string list \<Rightarrow> string list \<Rightarrow> unit result" where
  "check_queues seen [] = Inr ()"
| "check_queues seen (queue # rest) =
     (case validateQueue queue of
        Inl err \<Rightarrow> Inl err
      | Inr _ \<Rightarrow> if queue \<in> set seen then Inl (Errorf ''job: duplicate worker queue %q'' [queue])
                 else check_queues (queue # seen) rest)"

definition NewWorker :: "bool \<Rightarrow> bool \<Rightarrow> bytes result \<Rightarrow> worker_config \<Rightarrow> worker_config result" where
  "NewWorker store_nil registry_nil rnd c0 =
     (if store_nil then Inl (Errorf ''job: store is required'' [])
      else if registry_nil then Inl (Errorf ''job: registry is required'' [])
      else let queues = (if length (wc_Queues c0) = 0 then [''default''] else wc_Queues c0) in
      case check_queues [] queues of
        Inl err \<Rightarrow> Inl err
      | Inr _ \<Rightarrow>
      let concurrency = (if wc_Concurrency c0 = 0 then 4 else wc_Concurrency c0) in
      if concurrency < 1 \<or> concurrency > 10000
      then Inl (Errorf ''job: concurrency must be between 1 and 10000'' [])
      else let poll = (if wc_PollInterval c0 = 0 then second else wc_PollInterval c0) in
      if poll < millisecond then Inl (Errorf ''job: poll interval must be at least 1ms'' [])
      else let lease = (if wc_LeaseDuration c0 = 0 then minute else wc_LeaseDuration c0) in
      if lease < 100 * millisecond then Inl (Errorf ''job: lease duration must be at least 100ms'' [])
      else let heartbeat = (if wc_HeartbeatInterval c0 = 0 then lease sdiv 3 else wc_HeartbeatInterval c0) in
      if heartbeat < millisecond \<or> heartbeat \<ge> lease
      then Inl (Errorf ''job: heartbeat interval must be positive and shorter than the lease'' [])
      else let operation = (if wc_OperationTimeout c0 = 0
             then (let halfLease = lease sdiv 2 in if halfLease < 5 * second then halfLease else 5 * second)
             else wc_OperationTimeout c0) in
      if operation < millisecond \<or> operation \<ge> lease
      then Inl (Errorf ''job: operation timeout must be positive and shorter than the lease'' [])
      else let cancellation = (if wc_CancellationTimeout c0 = 0 then operation else wc_CancellationTimeout c0) in
      if cancellation < millisecond then Inl (Errorf ''job: cancellation timeout must be at least 1ms'' [])
      else let shutdown = (if wc_ShutdownTimeout c0 = 0 then 30 * second else wc_ShutdownTimeout c0) in
      if shutdown < 0 then Inl (Errorf ''job: shutdown timeout cannot be negative'' [])
      else let maxError = (if wc_MaxErrorBytes c0 = 0 then DefaultMaxErrorBytes else wc_MaxErrorBytes c0) in
      if maxError < 1 then Inl (Errorf ''job: max error bytes must be positive'' [])
      else (case (if wc_WorkerID c0 = [] then newID rnd else Inr (wc_WorkerID c0)) of
              Inl err \<Rightarrow> Inl err
            | Inr workerID \<Rightarrow>
                if length workerID > 128 \<or> TrimSpace workerID = []
                then Inl (Errorf ''job: invalid worker id'' [])
                else Inr \<lparr>wc_Queues = queues, wc_Concurrency = concurrency, wc_PollInterval = poll,
                          wc_LeaseDuration = lease, wc_HeartbeatInterval = heartbeat,
                          wc_OperationTimeout = operation, wc_CancellationTimeout = cancellation,
                          wc_ShutdownTimeout = shutdown, wc_WorkerID = workerID, wc_MaxErrorBytes = maxError\<rparr>))"

section \<open>Retry delays and messages\<close>

definition retryDelay :: "duration list \<Rightarrow> int \<Rightarrow> duration" where
  "retryDelay backoff0 attempt =
     (let backoff = (if length backoff0 = 0 then defaultBackoff else backoff0);
          index0 = attempt - 1;
          index1 = (if index0 < 0 then 0 else index0);
          index2 = (if index1 \<ge> int (length backoff) then int (length backoff) - 1 else index1)
      in backoff ! nat index2)"

function shrink_valid :: "string \<Rightarrow> string" where
  "shrink_valid val = (if ValidString val then val else shrink_valid (butlast val))"
  by pat_completeness auto
termination
proof (relation "measure length")
  fix val
  assume "\<not> ValidString val"
  then show "(butlast val, val) \<in> measure length" by (cases val) auto
qed simp

declare shrink_valid.simps [simp del]

definition truncateUTF8 :: "string \<Rightarrow> int \<Rightarrow> string" where
  "truncateUTF8 val limit =
     (if int (length val) \<le> limit then val else shrink_valid (take (nat limit) val))"

definition eventFor :: "event_kind \<Rightarrow> string \<Rightarrow> delivery \<Rightarrow> time \<Rightarrow> job_event" where
  "eventFor kind workerID d now =
     \<lparr>ev_Kind = kind, ev_JobID = dl_ID d, ev_Name = dl_Name d, ev_Queue = dl_Queue d, ev_WorkerID = workerID,
      ev_Attempt = dl_Attempt d, ev_Duration = 0, ev_RetryAfter = 0, ev_Outcome = [], ev_At = now\<rparr>"

section \<open>Completing a delivery\<close>

definition DeadlineExceeded :: goerr where
  "DeadlineExceeded = Sentinel ''context deadline exceeded''"

definition leaseLost :: "worker_config \<Rightarrow> delivery \<Rightarrow> time \<Rightarrow> job_event" where
  "leaseLost c d now = eventFor EventLeaseLost (wc_WorkerID c) d now"

definition abandoned :: "worker_config \<Rightarrow> delivery \<Rightarrow> string \<Rightarrow> time \<Rightarrow> job_event" where
  "abandoned c d outcome now = (eventFor EventAbandoned (wc_WorkerID c) d now)\<lparr>ev_Outcome := outcome\<rparr>"

definition Worker_fail ::
    "('x, 's) job_store \<Rightarrow> worker_config \<Rightarrow> delivery \<Rightarrow> string \<Rightarrow> string \<Rightarrow> time \<Rightarrow> 's \<Rightarrow>
     goerr option \<times> 's \<times> job_event list" where
  "Worker_fail S c d kind message0 now s =
     (let message = truncateUTF8 message0 (wc_MaxErrorBytes c) in
      case js_Fail S \<lparr>fr_Lease = dl_Lease d, fr_Kind = kind, fr_Error = message\<rparr> s of
        (Inl err, s1) \<Rightarrow> (Some (wrapStore ''fail terminal job'' err), s1, [])
      | (Inr owned, s1) \<Rightarrow>
          if \<not> owned then (None, s1, [leaseLost c d now])
          else (None, s1, [(eventFor EventFailed (wc_WorkerID c) d now)\<lparr>ev_Outcome := kind\<rparr>]))"

definition Worker_complete ::
    "('x, 's) job_store \<Rightarrow> worker_config \<Rightarrow> delivery \<Rightarrow> joberr option \<Rightarrow> duration \<Rightarrow> time \<Rightarrow> 's \<Rightarrow>
     goerr option \<times> 's \<times> job_event list" where
  "Worker_complete S c d handlerErr elapsed now s =
     (case handlerErr of
        None \<Rightarrow>
          (case js_Ack S (dl_Lease d) s of
             (Inl err, s1) \<Rightarrow> (Some (wrapStore ''acknowledge'' err), s1, [])
           | (Inr owned, s1) \<Rightarrow>
               if \<not> owned then (None, s1, [leaseLost c d now])
               else (None, s1, [(eventFor EventSucceeded (wc_WorkerID c) d now)\<lparr>ev_Duration := elapsed\<rparr>]))
      | Some err0 \<Rightarrow>
          let cls = classifyError err0;
              timeout = joberr_is err0 DeadlineExceeded;
              kind = (if timeout then ''timeout'' else cl_kind cls);
              message = truncateUTF8 (if timeout then ''handler deadline exceeded'' else cl_message cls)
                          (wc_MaxErrorBytes c)
          in if cl_permanent cls \<or> dl_Attempt d \<ge> dl_MaxAttempts d then Worker_fail S c d kind message now s
             else let delay = (case cl_delay cls of Some v \<Rightarrow> v | None \<Rightarrow> retryDelay (dl_Backoff d) (dl_Attempt d))
             in case js_Retry S \<lparr>rr_Lease = dl_Lease d, rr_Delay = delay, rr_ErrorKind = kind, rr_Error = message\<rparr> s of
                  (Inl err, s1) \<Rightarrow> (Some (wrapStore ''schedule retry'' err), s1, [])
                | (Inr owned, s1) \<Rightarrow>
                    if \<not> owned then (None, s1, [leaseLost c d now])
                    else (None, s1, [(eventFor EventRetryScheduled (wc_WorkerID c) d now)
                           \<lparr>ev_Duration := elapsed, ev_RetryAfter := delay, ev_Outcome := kind\<rparr>]))"

section \<open>Processing a delivery\<close>

record execution =
  ex_ID :: string
  ex_Name :: string
  ex_Queue :: string
  ex_Attempt :: int
  ex_MaxAttempts :: int
  ex_DedupKey :: string

definition execution_of :: "delivery \<Rightarrow> execution" where
  "execution_of d = \<lparr>ex_ID = dl_ID d, ex_Name = dl_Name d, ex_Queue = dl_Queue d, ex_Attempt = dl_Attempt d,
     ex_MaxAttempts = dl_MaxAttempts d, ex_DedupKey = dl_DedupKey d\<rparr>"

definition handler_timeout :: "policy \<Rightarrow> delivery \<Rightarrow> duration" where
  "handler_timeout p d = (if dl_Timeout d \<le> 0 then pol_Timeout p else dl_Timeout d)"

text \<open>
  The phases of the goroutine of a delivery. \<open>Running timedOut\<close> is the \<open>select\<close> loop: before the deadline it
  waits on the done channel of the handler's context and not on the cancellation timer, afterwards the
  other way round. \<open>AwaitCancellation\<close> is the wait after a lost lease.
  The events: \<open>Begin\<close> runs the goroutine up to the loop; \<open>ResultReady err expired elapsed\<close>: the handler
  returned \<open>err\<close>, where \<open>expired\<close> tells whether the error of its context is the exceeded deadline by then;
  \<open>Tick\<close>: the heartbeat ticker; \<open>HandlerDone expired\<close>: the handler's context is done;
  \<open>CancellationTimer\<close> and \<open>BaseDone\<close>: the cancellation timer fired, the base context is done.
\<close>

datatype proc_phase = Starting | Running bool | AwaitCancellation string | Returned "goerr option"

datatype proc_event =
    Begin
  | ResultReady "joberr option" bool duration
  | Tick
  | HandlerDone bool
  | CancellationTimer
  | BaseDone

fun enabled :: "proc_phase \<Rightarrow> proc_event \<Rightarrow> bool" where
  "enabled Starting e \<longleftrightarrow> e = Begin"
| "enabled (Running timedOut) e \<longleftrightarrow>
     (case e of Begin \<Rightarrow> False | HandlerDone expired \<Rightarrow> \<not> timedOut | CancellationTimer \<Rightarrow> timedOut | _ \<Rightarrow> True)"
| "enabled (AwaitCancellation outcome) e \<longleftrightarrow>
     (case e of ResultReady err expired elapsed \<Rightarrow> True | CancellationTimer \<Rightarrow> True | BaseDone \<Rightarrow> True | _ \<Rightarrow> False)"
| "enabled (Returned r) e \<longleftrightarrow> False"

definition cancellation_error :: "worker_config \<Rightarrow> goerr" where
  "cancellation_error c =
     Wrapf ''%w after %s'' [Duration_String (wc_CancellationTimeout c)] ErrHandlerCancellationTimeout"

definition awaitCancellation ::
    "worker_config \<Rightarrow> delivery \<Rightarrow> string \<Rightarrow> time \<Rightarrow> proc_event \<Rightarrow> proc_phase \<times> job_event list" where
  "awaitCancellation c d outcome now e =
     (case e of
        CancellationTimer \<Rightarrow> (Returned (Some (cancellation_error c)),
                              [abandoned c d (outcome @ ''_cancellation_timeout'') now])
      | _ \<Rightarrow> (Returned None, []))"

definition process_begin ::
    "('x, 's) job_store \<Rightarrow> worker_config \<Rightarrow> ('v, 'h) registry option \<Rightarrow> delivery \<Rightarrow> time \<Rightarrow> 's \<Rightarrow>
     proc_phase \<times> 's \<times> job_event list" where
  "process_begin S c registry d now s =
     (case Registry_lookup registry (dl_Name d) of
        None \<Rightarrow>
          (case js_Release S (dl_Lease d) s of
             (Inl err, s1) \<Rightarrow> (Returned (Some (wrapStore ''release unknown job'' err)), s1, [])
           | (Inr owned, s1) \<Rightarrow> (Returned None, s1, if \<not> owned then [leaseLost c d now] else []))
      | Some handler \<Rightarrow>
          (case rh_decode handler (dl_Payload d) of
             Inl err \<Rightarrow>
               (case Worker_fail S c d ''malformed_payload'' ''job payload could not be decoded'' now s of
                  (r, s1, evs) \<Rightarrow> (Returned r, s1, evs))
           | Inr payload \<Rightarrow> (Running False, s, [eventFor EventStarted (wc_WorkerID c) d now])))"

definition process_select ::
    "('x, 's) job_store \<Rightarrow> worker_config \<Rightarrow> delivery \<Rightarrow> time \<Rightarrow> bool \<Rightarrow> proc_event \<Rightarrow> 's \<Rightarrow>
     proc_phase \<times> 's \<times> job_event list" where
  "process_select S c d now timedOut e s =
     (case e of
        ResultReady err expired elapsed \<Rightarrow>
          let handlerErr = (if timedOut \<or> expired then Some (JErr DeadlineExceeded) else err) in
          (case Worker_complete S c d handlerErr elapsed now s of (r, s1, evs) \<Rightarrow> (Returned r, s1, evs))
      | Tick \<Rightarrow>
          (case js_Heartbeat S (dl_Lease d) (wc_LeaseDuration c) s of
             (Inl err, s1) \<Rightarrow> (Returned (Some (wrapStore ''heartbeat'' err)), s1, [])
           | (Inr owned, s1) \<Rightarrow>
               if \<not> owned then (AwaitCancellation ''lease_lost'', s1, [leaseLost c d now])
               else (Running timedOut, s1, []))
      | HandlerDone expired \<Rightarrow> if expired then (Running True, s, []) else (Returned None, s, [])
      | CancellationTimer \<Rightarrow>
          (Returned (Some (cancellation_error c)), s, [abandoned c d ''cancellation_timeout'' now])
      | _ \<Rightarrow> (Returned None, s, []))"

fun process_step ::
    "('x, 's) job_store \<Rightarrow> worker_config \<Rightarrow> ('v, 'h) registry option \<Rightarrow> delivery \<Rightarrow> time \<Rightarrow> proc_phase \<Rightarrow>
     proc_event \<Rightarrow> 's \<Rightarrow> proc_phase \<times> 's \<times> job_event list" where
  "process_step S c registry d now Starting e s = process_begin S c registry d now s"
| "process_step S c registry d now (Running timedOut) e s = process_select S c d now timedOut e s"
| "process_step S c registry d now (AwaitCancellation outcome) e s =
     (case awaitCancellation c d outcome now e of (p, evs) \<Rightarrow> (p, s, evs))"
| "process_step S c registry d now (Returned r) e s = (Returned r, s, [])"

text \<open>A run of the goroutine on a store with a clock; an event that is not enabled cannot happen.\<close>

fun process_run ::
    "(time \<Rightarrow> ('x, 's) job_store) \<Rightarrow> worker_config \<Rightarrow> ('v, 'h) registry option \<Rightarrow> delivery \<Rightarrow>
     (time \<times> proc_event) list \<Rightarrow> proc_phase \<Rightarrow> 's \<Rightarrow> (proc_phase \<times> 's \<times> job_event list) option" where
  "process_run S c registry d [] p s = Some (p, s, [])"
| "process_run S c registry d ((now, e) # es) p s =
     (if \<not> enabled p e then None
      else case process_step (S now) c registry d now p e s of
             (p1, s1, evs1) \<Rightarrow>
               map_option (\<lambda>(p2, s2, evs2). (p2, s2, evs1 @ evs2)) (process_run S c registry d es p1 s1))"

section \<open>The main loop\<close>

text \<open>
  \<open>LoopHead\<close> is the non-blocking \<open>select\<close> at the head of the loop, \<open>Launching ds\<close> the loop that starts a
  goroutine for each claimed delivery (sending into \<open>slots\<close> blocks while the channel is full), \<open>Polling\<close> the
  wait at the end of the loop, \<open>Draining e\<close> the wait for the goroutines once \<open>runErr\<close> is \<open>e\<close>, and \<open>Exited r\<close> the
  return of \<open>Run\<close>. The state holds the goroutines with their phases (\<open>slots\<close>), the buffered channel of
  their errors, the error of the caller's context, whether \<open>base\<close> is cancelled, and the events emitted.
  \<open>Others\<close> is a change of the store by other processes.
\<close>

datatype run_phase = LoopHead | Launching "delivery list" | Polling | Draining goerr | Exited "goerr option"

record 's run_state =
  rn_phase :: run_phase
  rn_slots :: "(delivery \<times> proc_phase) list"
  rn_processErrors :: "goerr list"
  rn_ctxErr :: "goerr option"
  rn_hardCancel :: bool
  rn_store :: 's
  rn_emitted :: "job_event list"

datatype 's run_event =
    CtxDone goerr
  | TakeCtx
  | TakeError
  | LoopDefault
  | Launch
  | PollTimer
  | Drained
  | ShutdownTimer
  | Proc nat proc_event
  | Others 's

definition worker_event :: "event_kind \<Rightarrow> worker_config \<Rightarrow> time \<Rightarrow> job_event" where
  "worker_event kind c now =
     \<lparr>ev_Kind = kind, ev_JobID = [], ev_Name = [], ev_Queue = [], ev_WorkerID = wc_WorkerID c, ev_Attempt = 0,
      ev_Duration = 0, ev_RetryAfter = 0, ev_Outcome = [], ev_At = now\<rparr>"

definition exhausted_event :: "worker_config \<Rightarrow> time \<Rightarrow> failed_job \<Rightarrow> job_event" where
  "exhausted_event c now failed =
     (worker_event EventFailed c now)\<lparr>ev_JobID := fj_ID failed, ev_Name := fj_Name failed,
        ev_Queue := fj_Queue failed, ev_Attempt := fj_Attempts failed, ev_Outcome := ''lease_exhausted''\<rparr>"

definition worker_claim :: "worker_config \<Rightarrow> string list \<Rightarrow> int \<Rightarrow> claim_request" where
  "worker_claim c names free = \<lparr>cr_Queues = wc_Queues c, cr_Names = names, cr_Limit = free,
     cr_WorkerID = wc_WorkerID c, cr_LeaseDuration = wc_LeaseDuration c\<rparr>"

text \<open>The two store calls of an iteration: the deliveries to start, or the error that ends the loop.\<close>

definition claim_iteration ::
    "('x, 's) job_store \<Rightarrow> worker_config \<Rightarrow> string list \<Rightarrow> int \<Rightarrow> time \<Rightarrow> 's \<Rightarrow>
     delivery list result \<times> 's \<times> job_event list" where
  "claim_iteration S c names free now s =
     (case js_FailExhausted S (wc_Queues c) names free s of
        (Inl err, s1) \<Rightarrow> (Inl (wrapStore ''fail exhausted leases'' err), s1, [])
      | (Inr exhausted, s1) \<Rightarrow>
          (case js_Claim S (worker_claim c names free) s1 of
             (Inl err, s2) \<Rightarrow> (Inl (wrapStore ''claim'' err), s2, map (exhausted_event c now) exhausted)
           | (Inr deliveries, s2) \<Rightarrow> (Inr deliveries, s2, map (exhausted_event c now) exhausted)))"

definition run_start :: "worker_config \<Rightarrow> time \<Rightarrow> 's \<Rightarrow> 's run_state" where
  "run_start c now s =
     \<lparr>rn_phase = LoopHead, rn_slots = [], rn_processErrors = [], rn_ctxErr = None, rn_hardCancel = False,
      rn_store = s, rn_emitted = [worker_event EventWorkerStarted c now]\<rparr>"

definition stop_run :: "worker_config \<Rightarrow> time \<Rightarrow> goerr \<Rightarrow> 's run_state \<Rightarrow> 's run_state" where
  "stop_run c now err w =
     w\<lparr>rn_phase := Draining err, rn_emitted := rn_emitted w @ [worker_event EventWorkerStopping c now]\<rparr>"

definition exit_run :: "worker_config \<Rightarrow> time \<Rightarrow> time \<Rightarrow> goerr \<Rightarrow> 's run_state \<Rightarrow> 's run_state" where
  "exit_run c started now runErr w =
     w\<lparr>rn_phase := Exited (case rn_ctxErr w of
                             Some e \<Rightarrow> if errors_is runErr e then None else Some runErr
                           | None \<Rightarrow> Some runErr),
       rn_emitted := rn_emitted w @ [(worker_event EventWorkerStopped c now)\<lparr>ev_Duration := time_sub now started\<rparr>]\<rparr>"

definition loop_default ::
    "('x, 's) job_store \<Rightarrow> worker_config \<Rightarrow> string list \<Rightarrow> time \<Rightarrow> 's run_state \<Rightarrow> 's run_state" where
  "loop_default S c names now w =
     (let free = wc_Concurrency c - int (length (rn_slots w)) in
      if free > 0 \<and> length names > 0
      then (case claim_iteration S c names free now (rn_store w) of
              (r, s1, evs) \<Rightarrow>
                let w1 = w\<lparr>rn_store := s1, rn_emitted := rn_emitted w @ evs\<rparr> in
                (case r of
                   Inl err \<Rightarrow> stop_run c now err w1
                 | Inr deliveries \<Rightarrow>
                     w1\<lparr>rn_phase := (if length deliveries > 0 then Launching deliveries else Polling)\<rparr>))
      else w\<lparr>rn_phase := Polling\<rparr>)"

text \<open>When \<open>process\<close> returns, the goroutine offers its error to the channel and leaves its slot.\<close>

definition proc_done :: "worker_config \<Rightarrow> nat \<Rightarrow> proc_phase \<Rightarrow> 's run_state \<Rightarrow> 's run_state" where
  "proc_done c i p w =
     (case p of
        Returned r \<Rightarrow>
          w\<lparr>rn_slots := take i (rn_slots w) @ drop (Suc i) (rn_slots w),
            rn_processErrors := (case r of
               Some err \<Rightarrow> if int (length (rn_processErrors w)) < wc_Concurrency c
                           then rn_processErrors w @ [err] else rn_processErrors w
             | None \<Rightarrow> rn_processErrors w)\<rparr>
      | _ \<Rightarrow> w\<lparr>rn_slots := (rn_slots w)[i := (fst (rn_slots w ! i), p)]\<rparr>)"

fun run_enabled :: "worker_config \<Rightarrow> 's run_state \<Rightarrow> 's run_event \<Rightarrow> bool" where
  "run_enabled c w (CtxDone e) \<longleftrightarrow> rn_ctxErr w = None"
| "run_enabled c w TakeCtx \<longleftrightarrow> rn_ctxErr w \<noteq> None \<and> rn_phase w \<in> {LoopHead, Polling}"
| "run_enabled c w TakeError \<longleftrightarrow> rn_processErrors w \<noteq> [] \<and> rn_phase w \<in> {LoopHead, Polling}"
| "run_enabled c w LoopDefault \<longleftrightarrow> rn_ctxErr w = None \<and> rn_processErrors w = [] \<and> rn_phase w = LoopHead"
| "run_enabled c w Launch \<longleftrightarrow>
     (case rn_phase w of
        Launching ds \<Rightarrow> ds = [] \<or> int (length (rn_slots w)) < wc_Concurrency c | _ \<Rightarrow> False)"
| "run_enabled c w PollTimer \<longleftrightarrow> rn_phase w = Polling"
| "run_enabled c w Drained \<longleftrightarrow> rn_slots w = [] \<and> (case rn_phase w of Draining e \<Rightarrow> True | _ \<Rightarrow> False)"
| "run_enabled c w ShutdownTimer \<longleftrightarrow> (case rn_phase w of Draining e \<Rightarrow> True | _ \<Rightarrow> False)"
| "run_enabled c w (Proc i e) \<longleftrightarrow> i < length (rn_slots w) \<and> enabled (snd (rn_slots w ! i)) e
     \<and> (e = BaseDone \<longrightarrow> rn_hardCancel w)
     \<and> (e = HandlerDone False \<longrightarrow> rn_hardCancel w)"
| "run_enabled c w (Others s) \<longleftrightarrow> True"

fun run_step ::
    "('x, 's) job_store \<Rightarrow> worker_config \<Rightarrow> ('v, 'h) registry option \<Rightarrow> time \<Rightarrow> time \<Rightarrow> 's run_state \<Rightarrow>
     's run_event \<Rightarrow> 's run_state" where
  "run_step S c registry started now w (CtxDone e) = w\<lparr>rn_ctxErr := Some e\<rparr>"
| "run_step S c registry started now w TakeCtx = stop_run c now (the (rn_ctxErr w)) w"
| "run_step S c registry started now w TakeError =
     stop_run c now (hd (rn_processErrors w)) (w\<lparr>rn_processErrors := tl (rn_processErrors w)\<rparr>)"
| "run_step S c registry started now w LoopDefault = loop_default S c (Registry_Names registry) now w"
| "run_step S c registry started now w Launch =
     (case rn_phase w of
        Launching (d # ds) \<Rightarrow>
          w\<lparr>rn_phase := Launching ds, rn_slots := rn_slots w @ [(d, Starting)],
            rn_emitted := rn_emitted w @ [eventFor EventClaimed (wc_WorkerID c) d now]\<rparr>
      | _ \<Rightarrow> w\<lparr>rn_phase := LoopHead\<rparr>)"
| "run_step S c registry started now w PollTimer = w\<lparr>rn_phase := LoopHead\<rparr>"
| "run_step S c registry started now w Drained =
     (case rn_phase w of Draining e \<Rightarrow> (exit_run c started now e w)\<lparr>rn_hardCancel := True\<rparr> | _ \<Rightarrow> w)"
| "run_step S c registry started now w ShutdownTimer =
     (case rn_phase w of Draining e \<Rightarrow> exit_run c started now e (w\<lparr>rn_hardCancel := True\<rparr>) | _ \<Rightarrow> w)"
| "run_step S c registry started now w (Proc i e) =
     (case rn_slots w ! i of
        (d, p) \<Rightarrow>
          (case process_step S c registry d now p e (rn_store w) of
             (p1, s1, evs) \<Rightarrow> proc_done c i p1 (w\<lparr>rn_store := s1, rn_emitted := rn_emitted w @ evs\<rparr>)))"
| "run_step S c registry started now w (Others s) = w\<lparr>rn_store := s\<rparr>"

fun run_trace ::
    "(time \<Rightarrow> ('x, 's) job_store) \<Rightarrow> worker_config \<Rightarrow> ('v, 'h) registry option \<Rightarrow> time \<Rightarrow>
     (time \<times> 's run_event) list \<Rightarrow> 's run_state \<Rightarrow> 's run_state option" where
  "run_trace S c registry started [] w = Some w"
| "run_trace S c registry started ((now, e) # es) w =
     (if run_enabled c w e
      then run_trace S c registry started es (run_step (S now) c registry started now w e) else None)"

section \<open>The configuration\<close>

definition config_ok :: "worker_config \<Rightarrow> bool" where
  "config_ok c \<longleftrightarrow> wc_Queues c \<noteq> [] \<and> distinct (wc_Queues c) \<and> list_all queue_ok (wc_Queues c)
     \<and> 1 \<le> wc_Concurrency c \<and> wc_Concurrency c \<le> 10000 \<and> millisecond \<le> wc_PollInterval c
     \<and> 100 * millisecond \<le> wc_LeaseDuration c
     \<and> millisecond \<le> wc_HeartbeatInterval c \<and> wc_HeartbeatInterval c < wc_LeaseDuration c
     \<and> millisecond \<le> wc_OperationTimeout c \<and> wc_OperationTimeout c < wc_LeaseDuration c
     \<and> millisecond \<le> wc_CancellationTimeout c \<and> 0 < wc_ShutdownTimeout c \<and> 1 \<le> wc_MaxErrorBytes c
     \<and> length (wc_WorkerID c) \<le> 128 \<and> TrimSpace (wc_WorkerID c) \<noteq> []"

lemma check_queues_iff:
  "check_queues seen qs = Inr u \<longleftrightarrow> distinct qs \<and> set qs \<inter> set seen = {} \<and> list_all queue_ok qs"
proof (induction qs arbitrary: seen)
  case (Cons q qs)
  show ?case
  proof (cases "validateQueue q")
    case (Inl e)
    then have "\<not> queue_ok q" using validateQueue_Inr [of q "()"] by simp
    with Inl show ?thesis by simp
  next
    case (Inr v)
    then have "queue_ok q" using validateQueue_Inr [of q v] by simp
    with Inr Cons.IH [of "q # seen"] show ?thesis by auto
  qed
qed simp

lemma TrimSpace_nonblank: "TrimSpace s \<noteq> [] \<Longrightarrow> s \<noteq> []"
  by (rule notI) (simp add: TrimSpace_def trim_lead.simps)

lemma default_pos: "0 < v \<Longrightarrow> 0 \<le> (if x = 0 then v else x) \<Longrightarrow> 0 < (if x = 0 then v else x :: int)"
  by (simp split: if_splits)

lemma NewWorker_ok:
  assumes "NewWorker store_nil registry_nil rnd c0 = Inr c"
  shows "config_ok c"
  using assms
  unfolding NewWorker_def Let_def guard_Inr case_Inr check_queues_iff config_ok_def de_Morgan_disj not_less not_le
  apply (elim conjE exE)
  apply (drule Inr_inject)
  apply hypsubst
  apply (simp (no_asm) only: worker_config.simps)
  apply (intro conjI; assumption?)
   apply (simp (no_asm))
  apply (erule default_pos [rotated])
  apply (simp (no_asm))
  done

lemma NewWorker_id:
  assumes "config_ok c"
  shows "NewWorker False False rnd c = Inr c"
proof -
  have q: "check_queues [] (wc_Queues c) = Inr ()" "wc_Queues c \<noteq> []"
    using assms by (simp_all add: check_queues_iff config_ok_def)
  have i: "wc_WorkerID c \<noteq> []" using assms by (auto simp: config_ok_def dest: TrimSpace_nonblank)
  have nz: "wc_Concurrency c \<noteq> 0" "wc_PollInterval c \<noteq> 0" "wc_LeaseDuration c \<noteq> 0" "wc_HeartbeatInterval c \<noteq> 0"
    "wc_OperationTimeout c \<noteq> 0" "wc_CancellationTimeout c \<noteq> 0" "wc_ShutdownTimeout c \<noteq> 0" "wc_MaxErrorBytes c \<noteq> 0"
    using assms by (auto simp: config_ok_def)
  show ?thesis
    using assms unfolding NewWorker_def Let_def guard_Inr case_Inr config_ok_def
    by (simp add: nz i q)
qed

lemma NewWorker_keeps:
  assumes "NewWorker store_nil registry_nil rnd c0 = Inr c"
  shows "wc_Queues c = (if wc_Queues c0 = [] then [''default''] else wc_Queues c0)"
    and "wc_Concurrency c = (if wc_Concurrency c0 = 0 then 4 else wc_Concurrency c0)"
    and "wc_LeaseDuration c = (if wc_LeaseDuration c0 = 0 then minute else wc_LeaseDuration c0)"
    and "wc_WorkerID c0 \<noteq> [] \<Longrightarrow> wc_WorkerID c = wc_WorkerID c0"
  using assms unfolding NewWorker_def Let_def guard_Inr case_Inr by auto

section \<open>Truncation\<close>

lemma shrink_valid_take:
  "\<exists>k \<le> length v. shrink_valid v = take k v \<and> ValidString (take k v)
     \<and> (\<forall>j \<le> length v. ValidString (take j v) \<longrightarrow> j \<le> k)"
proof (induction v rule: shrink_valid.induct)
  case (1 v)
  show ?case
  proof (cases "ValidString v")
    case True
    then show ?thesis by (intro exI [of _ "length v"]) (simp add: shrink_valid.simps)
  next
    case False
    then have ne: "v \<noteq> []" by auto
    from "1.IH" [OF False] obtain k where k: "k \<le> length v - 1" "shrink_valid (butlast v) = take k (butlast v)"
        "ValidString (take k (butlast v))" "\<forall>j \<le> length v - 1. ValidString (take j (butlast v)) \<longrightarrow> j \<le> k"
      by auto
    have take: "take j (butlast v) = take j v" if "j \<le> length v - 1" for j
      using that by (simp add: butlast_conv_take min_absorb1)
    have "j \<le> k" if "j \<le> length v" "ValidString (take j v)" for j
      using k(4) take that False by (cases "j = length v") auto
    with k False take [of k] show ?thesis
      by (intro exI [of _ k]) (auto simp: shrink_valid.simps [of v])
  qed
qed

text \<open>The function \<open>truncateUTF8\<close> returns the longest prefix of at most the limit that is valid UTF-8, or the text itself
  when it fits. Of a valid text it keeps all but at most three of the bytes that fit.\<close>

theorem truncateUTF8_longest:
  assumes "0 \<le> limit"
  shows "if int (length v) \<le> limit then truncateUTF8 v limit = v
    else \<exists>k. int k \<le> limit \<and> truncateUTF8 v limit = take k v \<and> ValidString (take k v)
      \<and> (\<forall>j. int j \<le> limit \<longrightarrow> ValidString (take j v) \<longrightarrow> j \<le> k) \<and> (ValidString v \<longrightarrow> limit \<le> int k + 3)"
proof (cases "int (length v) \<le> limit")
  case False
  let ?u = "take (nat limit) v"
  have len: "length ?u = nat limit" using False assms by simp
  obtain k where k: "k \<le> nat limit" "shrink_valid ?u = take k ?u" "ValidString (take k ?u)"
      "\<forall>j \<le> nat limit. ValidString (take j ?u) \<longrightarrow> j \<le> k"
    using shrink_valid_take [of ?u] len by auto
  have best: "j \<le> k" if "int j \<le> limit" "ValidString (take j v)" for j
    using k(4) that by (auto simp: min_absorb1 le_nat_iff assms)
  have "limit \<le> int k + 3" if valid: "ValidString v"
  proof -
    obtain j where "j \<le> nat limit" "nat limit < j + 4" "ValidString (take j v)"
      using ValidString_boundary [OF valid, of "nat limit"] len by (metis length_take min.cobounded1)
    with best [of j] show ?thesis by linarith
  qed
  with k best False assms show ?thesis
    by (auto simp: truncateUTF8_def min_absorb1 intro!: exI [of _ k])
qed (simp add: truncateUTF8_def)

theorem truncateUTF8_longest_witness: "truncateUTF8 ''abc'' 2 = ''ab'' \<and> ValidString (truncateUTF8 ''abc'' 2)"
proof
  show "truncateUTF8 ''abc'' 2 = ''ab''" by code_simp
  show "ValidString (truncateUTF8 ''abc'' 2)" using truncateUTF8_longest [of 2 "''abc''"] by auto
qed

lemma truncateUTF8_length: "0 \<le> limit \<Longrightarrow> int (length (truncateUTF8 v limit)) \<le> limit"
  using shrink_valid_take [of "take (nat limit) v"] by (auto simp: truncateUTF8_def)

lemma truncateUTF8_idem: "0 \<le> limit \<Longrightarrow> truncateUTF8 (truncateUTF8 v limit) limit = truncateUTF8 v limit"
  using truncateUTF8_length [of limit v] by (subst truncateUTF8_def) simp

section \<open>The store calls of a delivery\<close>

text \<open>A store that records the calls which change the job of a delivery, with their results.\<close>

datatype store_call =
    CallHeartbeat lease duration
  | CallAck lease
  | CallRetry retry_request
  | CallRelease lease
  | CallFail failure_request

definition logged ::
    "store_call \<Rightarrow> bool result \<times> 's \<Rightarrow> (store_call \<times> bool result) list \<Rightarrow>
     bool result \<times> 's \<times> (store_call \<times> bool result) list" where
  "logged call outcome log = (case outcome of (r, s) \<Rightarrow> (r, s, log @ [(call, r)]))"

definition log_store ::
    "('x, 's) job_store \<Rightarrow> ('x, 's \<times> (store_call \<times> bool result) list) job_store" where
  "log_store S =
     \<lparr>js_Enqueue = (\<lambda>x req (s, log). case js_Enqueue S x req s of (r, s') \<Rightarrow> (r, s', log)),
      js_Claim = (\<lambda>req (s, log). case js_Claim S req s of (r, s') \<Rightarrow> (r, s', log)),
      js_Heartbeat = (\<lambda>l d (s, log). logged (CallHeartbeat l d) (js_Heartbeat S l d s) log),
      js_Ack = (\<lambda>l (s, log). logged (CallAck l) (js_Ack S l s) log),
      js_Retry = (\<lambda>req (s, log). logged (CallRetry req) (js_Retry S req s) log),
      js_Release = (\<lambda>l (s, log). logged (CallRelease l) (js_Release S l s) log),
      js_Fail = (\<lambda>req (s, log). logged (CallFail req) (js_Fail S req s) log),
      js_FailExhausted = (\<lambda>qs ns n (s, log). case js_FailExhausted S qs ns n s of (r, s') \<Rightarrow> (r, s', log))\<rparr>"

text \<open>The single call that settles a delivery, given the outcome of its handler.\<close>

definition failure_kind :: "joberr \<Rightarrow> string" where
  "failure_kind e = (if joberr_is e DeadlineExceeded then ''timeout'' else cl_kind (classifyError e))"

definition failure_message :: "worker_config \<Rightarrow> joberr \<Rightarrow> string" where
  "failure_message c e = truncateUTF8
     (if joberr_is e DeadlineExceeded then ''handler deadline exceeded'' else cl_message (classifyError e))
     (wc_MaxErrorBytes c)"

definition settle_delay :: "delivery \<Rightarrow> joberr \<Rightarrow> duration" where
  "settle_delay d e = (case cl_delay (classifyError e) of
     Some v \<Rightarrow> v | None \<Rightarrow> retryDelay (dl_Backoff d) (dl_Attempt d))"

definition final_failure :: "delivery \<Rightarrow> joberr \<Rightarrow> bool" where
  "final_failure d e \<longleftrightarrow> cl_permanent (classifyError e) \<or> dl_MaxAttempts d \<le> dl_Attempt d"

definition settlement :: "worker_config \<Rightarrow> delivery \<Rightarrow> joberr option \<Rightarrow> store_call" where
  "settlement c d outcome =
     (case outcome of
        None \<Rightarrow> CallAck (dl_Lease d)
      | Some e \<Rightarrow>
          if final_failure d e
          then CallFail \<lparr>fr_Lease = dl_Lease d, fr_Kind = failure_kind e, fr_Error = failure_message c e\<rparr>
          else CallRetry \<lparr>rr_Lease = dl_Lease d, rr_Delay = settle_delay d e, rr_ErrorKind = failure_kind e,
                          rr_Error = failure_message c e\<rparr>)"

lemma log_store_sel [simp]:
  "js_Heartbeat (log_store S) l n (s, L) = logged (CallHeartbeat l n) (js_Heartbeat S l n s) L"
  "js_Ack (log_store S) l (s, L) = logged (CallAck l) (js_Ack S l s) L"
  "js_Retry (log_store S) rq (s, L) = logged (CallRetry rq) (js_Retry S rq s) L"
  "js_Release (log_store S) l (s, L) = logged (CallRelease l) (js_Release S l s) L"
  "js_Fail (log_store S) fq (s, L) = logged (CallFail fq) (js_Fail S fq s) L"
  by (simp_all add: log_store_def)

lemma fail_logged:
  assumes "Worker_fail (log_store S) c d kind message now (s, L) = (r, (s', L'), evs)"
  shows "\<exists>res. L' = L @ [(CallFail \<lparr>fr_Lease = dl_Lease d, fr_Kind = kind,
                                     fr_Error = truncateUTF8 message (wc_MaxErrorBytes c)\<rparr>, res)]"
  using assms by (auto simp: Worker_fail_def logged_def Let_def split: prod.splits sum.splits if_splits)

lemma complete_logged:
  assumes "0 \<le> wc_MaxErrorBytes c"
    and "Worker_complete (log_store S) c d outcome elapsed now (s, L) = (r, (s', L'), evs)"
  shows "\<exists>res. L' = L @ [(settlement c d outcome, res)]"
proof (cases outcome)
  case None
  with assms(2) show ?thesis
    by (auto simp: Worker_complete_def logged_def settlement_def split: prod.splits sum.splits if_splits)
next
  case (Some e)
  show ?thesis
  proof (cases "final_failure d e")
    case True
    then have "Worker_fail (log_store S) c d (failure_kind e) (failure_message c e) now (s, L) = (r, (s', L'), evs)"
      using assms(2) Some
      by (simp add: Worker_complete_def final_failure_def failure_kind_def failure_message_def Let_def)
    from fail_logged [OF this] show ?thesis
      using True Some assms(1) by (simp add: settlement_def failure_message_def truncateUTF8_idem)
  next
    case False
    with assms(2) Some show ?thesis
      by (auto simp: Worker_complete_def final_failure_def failure_kind_def failure_message_def settle_delay_def
          settlement_def logged_def Let_def split: prod.splits sum.splits if_splits)
  qed
qed

text \<open>What the calls of a run are, from a phase on: heartbeats, each but the last answered with the lease
  still owned, and then at most one call that settles the delivery, after which the goroutine has returned.\<close>

definition effective_outcome :: "(time \<times> proc_event) list \<Rightarrow> joberr option \<Rightarrow> bool \<Rightarrow> joberr option" where
  "effective_outcome es err expired =
     (if expired \<or> (\<exists>now. (now, HandlerDone True) \<in> set es) then Some (JErr DeadlineExceeded) else err)"

definition settling_call ::
    "worker_config \<Rightarrow> ('v, 'h) registry option \<Rightarrow> delivery \<Rightarrow> (time \<times> proc_event) list \<Rightarrow> store_call \<Rightarrow> bool" where
  "settling_call c registry d es call \<longleftrightarrow>
     (case Registry_lookup registry (dl_Name d) of
        None \<Rightarrow> call = CallRelease (dl_Lease d)
      | Some handler \<Rightarrow>
          (case rh_decode handler (dl_Payload d) of
             Inl e \<Rightarrow> call = CallFail \<lparr>fr_Lease = dl_Lease d, fr_Kind = ''malformed_payload'',
               fr_Error = truncateUTF8 ''job payload could not be decoded'' (wc_MaxErrorBytes c)\<rparr>
           | Inr payload \<Rightarrow> (\<exists>now err expired elapsed. last es = (now, ResultReady err expired elapsed)
               \<and> call = settlement c d (effective_outcome es err expired))))"

definition heartbeats :: "worker_config \<Rightarrow> delivery \<Rightarrow> (store_call \<times> bool result) list \<Rightarrow> bool" where
  "heartbeats c d log \<longleftrightarrow> list_all (\<lambda>(call, r). call = CallHeartbeat (dl_Lease d) (wc_LeaseDuration c)) log"

definition owned_all :: "(store_call \<times> bool result) list \<Rightarrow> bool" where
  "owned_all log \<longleftrightarrow> list_all (\<lambda>(call, r). r = Inr True) log"

lemma run_returned: "process_run S c registry d es (Returned r) s = Some (p, s', evs) \<Longrightarrow>
    es = [] \<and> p = Returned r \<and> s' = s"
  by (cases es) auto

lemma run_awaiting:
  assumes "process_run S c registry d es (AwaitCancellation out) s = Some (p, s', evs)"
  shows "s' = s"
proof (cases es)
  case (Cons x xs)
  obtain now e where x: "x = (now, e)" by (cases x)
  with assms Cons have "enabled (AwaitCancellation out) e" by (auto split: if_splits)
  then obtain r evs1 where "awaitCancellation c d out now e = (Returned r, evs1)"
    by (cases e) (simp_all add: awaitCancellation_def)
  with assms Cons x show ?thesis by (auto split: if_splits dest: run_returned)
qed (use assms in simp)

lemma select_cases:
  assumes "process_select S c d now timedOut e s = (p, s', evs)" and "enabled (Running timedOut) e"
  obtains (result) err expired elapsed r where "e = ResultReady err expired elapsed" "p = Returned r"
      "Worker_complete S c d (if timedOut \<or> expired then Some (JErr DeadlineExceeded) else err) elapsed now s
         = (r, s', evs)"
  | (failed) err where "e = Tick" "js_Heartbeat S (dl_Lease d) (wc_LeaseDuration c) s = (Inl err, s')"
      "p = Returned (Some (wrapStore ''heartbeat'' err))"
  | (lost) "e = Tick" "js_Heartbeat S (dl_Lease d) (wc_LeaseDuration c) s = (Inr False, s')"
      "p = AwaitCancellation ''lease_lost''"
  | (kept) "e = Tick" "js_Heartbeat S (dl_Lease d) (wc_LeaseDuration c) s = (Inr True, s')" "p = Running timedOut"
  | (deadline) "e = HandlerDone True" "p = Running True" "s' = s"
  | (stopped) r where "e \<in> {HandlerDone False, CancellationTimer, BaseDone}" "p = Returned r" "s' = s"
      "r \<in> {None, Some (cancellation_error c)}"
proof (cases e)
  case (ResultReady err expired elapsed)
  with assms show ?thesis by (auto simp: process_select_def Let_def split: prod.splits intro: result)
next
  case Tick
  with assms show ?thesis
    by (auto simp: process_select_def split: prod.splits sum.splits if_splits intro: failed lost kept)
next
  case (HandlerDone x)
  with assms show ?thesis by (auto simp: process_select_def split: if_splits intro: deadline stopped)
next
  case Begin
  with assms show ?thesis by simp
qed (use assms in \<open>auto simp: process_select_def intro: stopped\<close>)

definition calls_ok ::
    "worker_config \<Rightarrow> delivery \<Rightarrow> bool \<Rightarrow> (time \<times> proc_event) list \<Rightarrow> proc_phase \<Rightarrow> (store_call \<times> bool result) list \<Rightarrow> bool" where
  "calls_ok c d timedOut es p log \<longleftrightarrow>
     heartbeats c d log \<and> owned_all (butlast log)
     \<or> (\<exists>hbs res now err expired elapsed r. heartbeats c d hbs \<and> owned_all hbs \<and> p = Returned r \<and> es \<noteq> []
          \<and> last es = (now, ResultReady err expired elapsed)
          \<and> log = hbs @ [(settlement c d (if timedOut then Some (JErr DeadlineExceeded)
                            else effective_outcome es err expired), res)])"

lemma calls_ok_settled:
  "calls_ok c d t [(now, ResultReady err expired elapsed)] (Returned r)
     [(settlement c d (if t \<or> expired then Some (JErr DeadlineExceeded) else err), res)]"
  unfolding calls_ok_def
  by (rule disjI2, intro exI [of _ "[]"] exI [of _ res] exI [of _ now] exI [of _ err] exI [of _ expired]
      exI [of _ elapsed] exI [of _ r]) (auto simp: heartbeats_def owned_all_def effective_outcome_def)

lemma calls_ok_tick:
  assumes "calls_ok c d t es p log"
  shows "calls_ok c d t ((now, Tick) # es) p ((CallHeartbeat (dl_Lease d) (wc_LeaseDuration c), Inr True) # log)"
  using assms unfolding calls_ok_def
proof (elim disjE exE conjE, goal_cases)
  case 1
  then show ?case by (intro disjI1) (auto simp: heartbeats_def owned_all_def)
next
  case (2 hbs res now' err expired elapsed r)
  have "effective_outcome ((now, Tick) # es) err expired = effective_outcome es err expired"
    by (simp add: effective_outcome_def)
  with 2 show ?case
    by (intro disjI2 exI [of _ "(CallHeartbeat (dl_Lease d) (wc_LeaseDuration c), Inr True) # hbs"] exI [of _ res]
        exI [of _ now'] exI [of _ err] exI [of _ expired] exI [of _ elapsed] exI [of _ r])
      (simp add: heartbeats_def owned_all_def)
qed

lemma calls_ok_deadline:
  assumes "calls_ok c d True es p log"
  shows "calls_ok c d t ((now, HandlerDone True) # es) p log"
  using assms unfolding calls_ok_def
proof (elim disjE exE conjE, goal_cases)
  case (2 hbs res now' err expired elapsed r)
  have "effective_outcome ((now, HandlerDone True) # es) err expired = Some (JErr DeadlineExceeded)"
    by (auto simp: effective_outcome_def)
  with 2 show ?case
    by (intro disjI2 exI [of _ hbs] exI [of _ res] exI [of _ now'] exI [of _ err] exI [of _ expired]
        exI [of _ elapsed] exI [of _ r]) simp
qed simp

lemma calls_ok_quiet: "calls_ok c d t es p []"
  by (simp add: calls_ok_def heartbeats_def owned_all_def)

lemma calls_ok_last_tick: "calls_ok c d t es p [(CallHeartbeat (dl_Lease d) (wc_LeaseDuration c), res)]"
  by (simp add: calls_ok_def heartbeats_def owned_all_def)

lemma run_step_cases:
  assumes "process_run S c registry d ((now, e) # es) p0 s = Some (p, s', evs)"
  obtains p1 s1 evs1 evs2 where "enabled p0 e" "process_step (S now) c registry d now p0 e s = (p1, s1, evs1)"
    "process_run S c registry d es p1 s1 = Some (p, s', evs2)" "evs = evs1 @ evs2"
  using assms by (auto split: if_splits prod.splits)

lemma logged_eq: "logged call outcome L = (r, s', L') \<longleftrightarrow> outcome = (r, s') \<and> L' = L @ [(call, r)]"
  by (auto simp: logged_def split: prod.splits)

lemma run_running:
  assumes "0 \<le> wc_MaxErrorBytes c"
    and "process_run (\<lambda>now. log_store (S now)) c registry d es (Running t) (s, L) = Some (p, (s', L'), evs)"
  shows "\<exists>log. L' = L @ log \<and> calls_ok c d t es p log"
  using assms(2)
proof (induction es arbitrary: t s L evs)
  case Nil
  then show ?case by (simp add: calls_ok_quiet)
next
  case (Cons x es)
  obtain now e where x: "x = (now, e)" by (cases x)
  obtain p1 q1 evs1 evs2 where en: "enabled (Running t) e"
      and step: "process_step (log_store (S now)) c registry d now (Running t) e (s, L) = (p1, q1, evs1)"
      and nxt: "process_run (\<lambda>now. log_store (S now)) c registry d es p1 q1 = Some (p, (s', L'), evs2)"
    using Cons.prems x by (metis run_step_cases)
  obtain s1 L1 where q1: "q1 = (s1, L1)" by (cases q1)
  have sel: "process_select (log_store (S now)) c d now t e (s, L) = (p1, (s1, L1), evs1)" using step q1 by simp
  note rest = nxt [unfolded q1]
  from sel en show ?case
  proof (cases rule: select_cases)
    case (result err expired elapsed r)
    from complete_logged [OF assms(1) result(3)] rest result(1,2) x show ?thesis
      by (auto dest!: run_returned intro: calls_ok_settled)
  next
    case (failed err)
    with rest x show ?thesis by (auto dest!: run_returned simp: logged_eq intro: calls_ok_last_tick)
  next
    case lost
    with rest x show ?thesis by (auto dest!: run_awaiting simp: logged_eq intro: calls_ok_last_tick)
  next
    case kept
    with Cons.IH [of t s1 L1 evs2] rest x show ?thesis by (auto simp: logged_eq intro: calls_ok_tick)
  next
    case deadline
    with Cons.IH [of True s1 L1 evs2] rest x show ?thesis by (auto intro: calls_ok_deadline)
  next
    case (stopped r)
    with rest show ?thesis by (auto dest!: run_returned intro: calls_ok_quiet)
  qed
qed

lemma begin_cases:
  assumes "process_begin (log_store S) c registry d now (s, L) = (p, (s', L'), evs)"
  obtains (unknown) r res where "Registry_lookup registry (dl_Name d) = None" "p = Returned r"
      "L' = L @ [(CallRelease (dl_Lease d), res)]"
  | (malformed) handler e r res where "Registry_lookup registry (dl_Name d) = Some handler"
      "rh_decode handler (dl_Payload d) = Inl e" "p = Returned r"
      "L' = L @ [(CallFail \<lparr>fr_Lease = dl_Lease d, fr_Kind = ''malformed_payload'',
         fr_Error = truncateUTF8 ''job payload could not be decoded'' (wc_MaxErrorBytes c)\<rparr>, res)]"
  | (started) handler payload where "Registry_lookup registry (dl_Name d) = Some handler"
      "rh_decode handler (dl_Payload d) = Inr payload" "p = Running False" "L' = L"
proof (cases "Registry_lookup registry (dl_Name d)")
  case None
  with assms show ?thesis
    by (auto simp: process_begin_def logged_def split: prod.splits sum.splits if_splits intro: unknown)
next
  case (Some handler)
  show ?thesis
  proof (cases "rh_decode handler (dl_Payload d)")
    case (Inl e)
    with assms Some obtain r where "Worker_fail (log_store S) c d ''malformed_payload''
        ''job payload could not be decoded'' now (s, L) = (r, (s', L'), evs)" "p = Returned r"
      by (auto simp: process_begin_def split: prod.splits)
    with fail_logged [OF this(1)] Some Inl show ?thesis by (auto intro: malformed)
  next
    case (Inr payload)
    with assms Some show ?thesis by (auto simp: process_begin_def intro: started)
  qed
qed

text \<open>C23: the goroutine of a delivery settles it at most once, in every order in which its timers, its handler
  and its contexts can become ready. Its store calls are heartbeats for the delivery's own lease, each but
  the last answered with the lease still owned, and then at most one more call, only while the lease is
  owned, after which the goroutine has returned: a release when no handler is registered, a failure when
  the payload cannot be decoded, and otherwise the settlement that the handler's outcome calls for. An
  acknowledgement needs a handler that returned nil before its deadline; a permanent error or the last
  attempt fails the job and any other error retries it.\<close>

theorem process_settles_once:
  assumes "config_ok c"
    and "process_run (\<lambda>now. log_store (S now)) c registry d es Starting (s, []) = Some (p, (s', log), evs)"
  shows "\<exists>hbs fin. log = hbs @ fin \<and> heartbeats c d hbs \<and> owned_all (butlast hbs)
    \<and> (fin = [] \<or> (\<exists>call res r. fin = [(call, res)] \<and> settling_call c registry d es call
                      \<and> owned_all hbs \<and> p = Returned r))"
proof (cases es)
  case Nil
  with assms(2) show ?thesis by (auto simp: heartbeats_def owned_all_def)
next
  case (Cons x xs)
  obtain now e where x: "x = (now, e)" by (cases x)
  obtain p1 q1 evs1 evs2 where en: "enabled Starting e"
      and step: "process_step (log_store (S now)) c registry d now Starting e (s, []) = (p1, q1, evs1)"
      and nxt: "process_run (\<lambda>now. log_store (S now)) c registry d xs p1 q1 = Some (p, (s', log), evs2)"
    using assms(2) Cons x by (metis run_step_cases)
  obtain s1 L1 where q1: "q1 = (s1, L1)" by (cases q1)
  have beg: "process_begin (log_store (S now)) c registry d now (s, []) = (p1, (s1, L1), evs1)"
    using step q1 by simp
  note rest = nxt [unfolded q1]
  have one: ?thesis if "L1 = [(call, res)]" "p1 = Returned r" "settling_call c registry d es call" for call res r
    using run_returned rest that by (intro exI [of _ "[]"] exI [of _ L1]) (force simp: heartbeats_def owned_all_def)
  from beg show ?thesis
  proof (cases rule: begin_cases)
    case (unknown r res)
    then show ?thesis by (intro one) (auto simp: settling_call_def)
  next
    case (malformed handler e r res)
    then show ?thesis by (intro one) (auto simp: settling_call_def)
  next
    case (started handler payload)
    have "0 \<le> wc_MaxErrorBytes c" using assms(1) by (simp add: config_ok_def)
    from run_running [OF this rest [unfolded started(3)]] started(4)
    have "calls_ok c d False xs p log" by simp
    then show ?thesis unfolding calls_ok_def
    proof (elim disjE exE conjE, goal_cases)
      case 1
      then show ?case by (intro exI [of _ log] exI [of _ "[]"]) simp
    next
      case (2 hbs res now' err expired elapsed r)
      have "effective_outcome es err expired = effective_outcome xs err expired"
        using en Cons x by (simp add: effective_outcome_def)
      with 2 Cons started show ?case
        by (intro exI [of _ hbs] exI conjI) (auto simp: settling_call_def owned_all_def dest: in_set_butlastD
            intro!: disjI2 exI simp: list_all_iff)
    qed
  qed
qed

section \<open>The goroutine ends\<close>

fun rank :: "proc_phase \<Rightarrow> nat" where
  "rank Starting = 3"
| "rank (Running timedOut) = (if timedOut then 1 else 2)"
| "rank (AwaitCancellation outcome) = 1"
| "rank (Returned r) = 0"

lemma step_rank:
  assumes "enabled p e" and "process_step S c registry d now p e s = (p1, s1, evs)"
  shows "rank p1 + (if e = Tick then 0 else 1) \<le> rank p"
proof (cases p)
  case Starting
  with assms show ?thesis
    by (auto simp: process_begin_def split: option.splits sum.splits prod.splits if_splits)
next
  case (Running t)
  with assms have "process_select S c d now t e s = (p1, s1, evs)" "enabled (Running t) e" by simp_all
  then show ?thesis using Running assms(1) by (cases rule: select_cases) auto
next
  case (AwaitCancellation out)
  with assms show ?thesis by (cases e) (auto simp: awaitCancellation_def)
qed (use assms in simp)

lemma run_rank:
  "process_run S c registry d es p0 s = Some (p, s', evs) \<Longrightarrow>
   rank p + length (filter (\<lambda>(now, e). e \<noteq> Tick) es) \<le> rank p0"
proof (induction es arbitrary: p0 s evs)
  case (Cons x es)
  obtain now e where x: "x = (now, e)" by (cases x)
  obtain p1 s1 evs1 evs2 where "enabled p0 e" "process_step (S now) c registry d now p0 e s = (p1, s1, evs1)"
      "process_run S c registry d es p1 s1 = Some (p, s', evs2)"
    using Cons.prems x by (metis run_step_cases)
  with step_rank [OF this(1,2)] Cons.IH [of p1 s1 evs2] x show ?case by auto
qed simp

lemma run_append:
  "process_run S c registry d (es @ es') p s =
     (case process_run S c registry d es p s of
        None \<Rightarrow> None
      | Some (p1, s1, evs1) \<Rightarrow>
          map_option (\<lambda>(p2, s2, evs2). (p2, s2, evs1 @ evs2)) (process_run S c registry d es' p1 s1))"
proof (induction es arbitrary: p s)
  case Nil
  show ?case by (simp add: option.map_id)
next
  case (Cons x es)
  obtain now e where x: "x = (now, e)" by (cases x)
  obtain p1 s1 evs1 where step: "process_step (S now) c registry d now p e s = (p1, s1, evs1)" by (metis prod_cases3)
  show ?case
  proof (cases "process_run S c registry d es p1 s1")
    case (Some q)
    then show ?thesis
      using Cons.IH [of p1 s1] x step
      by (cases "process_run S c registry d es' (fst q) (fst (snd q))") (auto split: prod.splits)
  qed (use Cons.IH [of p1 s1] x step in simp)
qed

lemma begin_phase:
  "\<exists>p1 s1 evs. process_begin S c registry d now s = (p1, s1, evs) \<and> (p1 = Running False \<or> (\<exists>r. p1 = Returned r))"
  by (auto simp: process_begin_def split: option.splits sum.splits prod.splits)

lemma base_done_returns:
  assumes "p = Running t \<or> p = AwaitCancellation out"
  shows "enabled p BaseDone \<and> process_step S c registry d now p BaseDone s = (Returned None, s, [])"
  using assms by (auto simp: process_select_def awaitCancellation_def)

lemma base_done_run:
  assumes "p = Running t \<or> p = AwaitCancellation out"
  shows "process_run S c registry d [(now, BaseDone)] p s = Some (Returned None, s, [])"
  using base_done_returns [OF assms, of "S now" c registry d now s] by simp

lemma begin_run:
  assumes "process_begin (S now) c registry d now s = (p1, s1, evs1)"
    and "process_run S c registry d es p1 s1 = Some (p, s', evs2)"
  shows "process_run S c registry d ((now, Begin) # es) Starting s = Some (p, s', evs1 @ evs2)"
  using assms by simp

lemma run_completes:
  "\<exists>ext r s' evs. length ext \<le> 2 \<and> set (map snd ext) \<subseteq> {Begin, BaseDone}
     \<and> process_run S c registry d ext p s = Some (Returned r, s', evs)"
proof (cases p)
  case Starting
  obtain p1 s1 ev where b: "process_begin (S 0) c registry d 0 s = (p1, s1, ev)"
      "p1 = Running False \<or> (\<exists>r. p1 = Returned r)"
    using begin_phase [of "S 0" c registry d 0 s] by blast
  from b(2) show ?thesis
  proof
    assume "p1 = Running False"
    then have "process_run S c registry d [(0, BaseDone)] p1 s1 = Some (Returned None, s1, [])"
      by (intro base_done_run [of p1 False "[]"]) simp
    from begin_run [of S 0 c registry d s, OF b(1) this] Starting show ?thesis
      by (intro exI [of _ "[(0, Begin), (0, BaseDone)]"]) (simp del: process_run.simps)
  next
    assume "\<exists>r. p1 = Returned r"
    with begin_run [of S 0 c registry d s p1 s1 ev "[]", OF b(1)] Starting show ?thesis
      by (intro exI [of _ "[(0, Begin)]"]) auto
  qed
next
  case (Running t)
  then show ?thesis
    using base_done_run [of p t "[]" S c registry d 0 s]
    by (intro exI [of _ "[(0, BaseDone)]"]) (simp del: process_run.simps)
next
  case (AwaitCancellation out)
  then show ?thesis
    using base_done_run [of p False out S c registry d 0 s]
    by (intro exI [of _ "[(0, BaseDone)]"]) (simp del: process_run.simps)
next
  case (Returned r)
  then show ?thesis by (intro exI [of _ "[]"]) simp
qed


section \<open>Witnesses\<close>

text \<open>A worker's configuration is complete and consistent. Whatever the caller asked for, a configuration
  that \<open>NewWorker\<close> accepts has at least one queue, valid and listed once, a concurrency of 1 to 10000, and
  heartbeats and store operations that are shorter than the lease they protect; values the caller set are
  kept, and constructing a worker from the completed configuration changes nothing.\<close>

theorem NewWorker_valid:
  assumes "NewWorker store_nil registry_nil rnd c0 = Inr c"
  shows "config_ok c \<and> NewWorker False False rnd' c = Inr c
    \<and> wc_Queues c = (if wc_Queues c0 = [] then [''default''] else wc_Queues c0)
    \<and> wc_Concurrency c = (if wc_Concurrency c0 = 0 then 4 else wc_Concurrency c0)
    \<and> wc_LeaseDuration c = (if wc_LeaseDuration c0 = 0 then minute else wc_LeaseDuration c0)
    \<and> (wc_WorkerID c0 \<noteq> [] \<longrightarrow> wc_WorkerID c = wc_WorkerID c0)"
  using NewWorker_ok [OF assms] NewWorker_id NewWorker_keeps [OF assms] by blast

definition demo_zero :: worker_config where
  "demo_zero = \<lparr>wc_Queues = [], wc_Concurrency = 0, wc_PollInterval = 0, wc_LeaseDuration = 0,
     wc_HeartbeatInterval = 0, wc_OperationTimeout = 0, wc_CancellationTimeout = 0, wc_ShutdownTimeout = 0,
     wc_WorkerID = ''w1'', wc_MaxErrorBytes = 0\<rparr>"

definition demo_config :: worker_config where
  "demo_config = \<lparr>wc_Queues = [''default''], wc_Concurrency = 4, wc_PollInterval = second, wc_LeaseDuration = minute,
     wc_HeartbeatInterval = 20 * second, wc_OperationTimeout = 5 * second, wc_CancellationTimeout = 5 * second,
     wc_ShutdownTimeout = 30 * second, wc_WorkerID = ''w1'', wc_MaxErrorBytes = 8192\<rparr>"

lemma demo_NewWorker: "NewWorker False False (Inr []) demo_zero = Inr demo_config"
proof -
  have "check_queues [] [''default''] = Inr ()" by code_simp
  moreover have "list_all (in_cls cls_name) ''w1''" by code_simp
  then have "TrimSpace ''w1'' \<noteq> []" using TrimSpace_name by simp
  ultimately show ?thesis
    by (simp add: NewWorker_def demo_zero_def demo_config_def nonneg_sdiv DefaultMaxErrorBytes_def)
qed

theorem NewWorker_valid_witness:
  "config_ok demo_config \<and> NewWorker False False (Inr []) demo_config = Inr demo_config"
  using NewWorker_valid [OF demo_NewWorker, of "Inr []"] by blast

definition demo_job_store :: "(unit, nat) job_store" where
  "demo_job_store = demo_store\<lparr>js_Heartbeat := (\<lambda>l t n. (Inr True, n + 1)), js_Ack := (\<lambda>l n. (Inr True, n + 10))\<rparr>"

definition demo_delivered :: delivery where
  "demo_delivered = \<lparr>dl_ID = ''j1'', dl_Queue = ''mail'', dl_Name = ''mail.send.v1'', dl_Payload = ''1'', dl_Priority = 0,
     dl_Attempt = 1, dl_MaxAttempts = 5, dl_Timeout = second, dl_Backoff = [second], dl_DedupKey = [],
     dl_AvailableAt = second, dl_LeasedAt = second, dl_LeaseExpires = minute,
     dl_Lease = \<lparr>le_JobID = ''j1'', le_WorkerID = ''w1'', le_Generation = 1\<rparr>\<rparr>"

definition demo_registry :: "(string, unit) registry option" where
  "demo_registry = Some [(''mail.send.v1'', \<lparr>rh_policy = demo_policy, rh_decode = Inr, rh_handle = ()\<rparr>)]"

definition demo_events :: "(time \<times> proc_event) list" where
  "demo_events = [(1, Begin), (2, Tick), (3, ResultReady None False 5)]"

lemma demo_process:
  "\<exists>evs. process_run (\<lambda>now. log_store demo_job_store) demo_config demo_registry demo_delivered demo_events Starting (0, [])
     = Some (Returned None, (11, [(CallHeartbeat (dl_Lease demo_delivered) minute, Inr True),
                                  (CallAck (dl_Lease demo_delivered), Inr True)]), evs)"
  by (simp add: demo_events_def demo_registry_def demo_delivered_def demo_config_def demo_job_store_def
      process_begin_def process_select_def Worker_complete_def Registry_lookup_def logged_def)

theorem process_settles_once_witness:
  "\<exists>hbs fin. [(CallHeartbeat (dl_Lease demo_delivered) minute, Inr True), (CallAck (dl_Lease demo_delivered), Inr True)]
      = hbs @ fin \<and> heartbeats demo_config demo_delivered hbs \<and> owned_all (butlast hbs)
    \<and> (fin = [] \<or> (\<exists>call res r. fin = [(call, res)] \<and> settling_call demo_config demo_registry demo_delivered demo_events call
                      \<and> owned_all hbs \<and> Returned None = Returned r))"
proof -
  from demo_process obtain evs where run: "process_run (\<lambda>now. log_store demo_job_store) demo_config demo_registry
      demo_delivered demo_events Starting (0, [])
     = Some (Returned None, (11, [(CallHeartbeat (dl_Lease demo_delivered) minute, Inr True),
                                  (CallAck (dl_Lease demo_delivered), Inr True)]), evs)" by blast
  show ?thesis by (rule process_settles_once [OF NewWorker_ok [OF demo_NewWorker] run])
qed


end
