(* ===== verification/Job_Worker_Run.thy ===== *)
theory Job_Worker_Run
  imports Job_Worker Job_Store_Props
begin

text \<open>
  The main loop of the worker on the PostgreSQL store. The locale \<open>worker_store\<close> is what the loop relies on:
  a claim returns at most the requested number of deliveries, and every operation keeps the invariant of the
  store. It is interpreted with the model of \<^verbatim>\<open>src/job/postgres\<close> and its reachable states.
\<close>

section \<open>The contract of the store\<close>

locale worker_store =
  fixes S :: "time \<Rightarrow> ('x, 's) job_store"
    and inv :: "'s \<Rightarrow> bool"
  assumes claim_limit: "inv s \<Longrightarrow> js_Claim (S now) req s = (Inr ds, s') \<Longrightarrow> 0 < cr_Limit req \<Longrightarrow>
      int (length ds) \<le> cr_Limit req"
    and claim_inv: "inv s \<Longrightarrow> js_Claim (S now) req s = (r, s') \<Longrightarrow> inv s'"
    and exhausted_inv: "inv s \<Longrightarrow> js_FailExhausted (S now) qs ns n s = (r', s') \<Longrightarrow> inv s'"
    and heartbeat_inv: "inv s \<Longrightarrow> js_Heartbeat (S now) l t s = (b, s') \<Longrightarrow> inv s'"
    and ack_inv: "inv s \<Longrightarrow> js_Ack (S now) l s = (b, s') \<Longrightarrow> inv s'"
    and retry_inv: "inv s \<Longrightarrow> js_Retry (S now) rq s = (b, s') \<Longrightarrow> inv s'"
    and release_inv: "inv s \<Longrightarrow> js_Release (S now) l s = (b, s') \<Longrightarrow> inv s'"
    and fail_inv: "inv s \<Longrightarrow> js_Fail (S now) fq s = (b, s') \<Longrightarrow> inv s'"
begin

definition run_ok :: "worker_config \<Rightarrow> 's run_state \<Rightarrow> bool" where
  "run_ok c w \<longleftrightarrow> inv (rn_store w)
     \<and> int (length (rn_slots w)) + (case rn_phase w of Launching ds \<Rightarrow> int (length ds) | _ \<Rightarrow> 0) \<le> wc_Concurrency c"

lemma worker_fail_inv:
  assumes "inv s" and "Worker_fail (S now) c d kind msg t s = (r, s', evs)"
  shows "inv s'"
  using assms by (auto simp: Worker_fail_def Let_def split: prod.splits sum.splits if_splits dest: fail_inv)

lemma worker_complete_inv:
  assumes "inv s" and "Worker_complete (S now) c d outcome elapsed t s = (r, s', evs)"
  shows "inv s'"
proof (cases outcome)
  case None
  with assms show ?thesis
    by (auto simp: Worker_complete_def split: prod.splits sum.splits if_splits dest: ack_inv)
next
  case (Some e)
  show ?thesis
  proof (cases "final_failure d e")
    case True
    with assms(2) Some have "\<exists>kind msg. Worker_fail (S now) c d kind msg t s = (r, s', evs)"
      by (auto simp: Worker_complete_def final_failure_def Let_def)
    with assms(1) show ?thesis using worker_fail_inv by blast
  next
    case False
    with assms(2) Some obtain rq b where "js_Retry (S now) rq s = (b, s')"
      by (auto simp: Worker_complete_def final_failure_def Let_def split: prod.splits sum.splits if_splits)
    with assms(1) show ?thesis by (rule retry_inv)
  qed
qed

lemma process_begin_inv:
  assumes "inv s" and "process_begin (S now) c registry d t s = (p, s', evs)"
  shows "inv s'"
  using assms
  by (auto simp: process_begin_def split: option.splits sum.splits prod.splits dest: release_inv worker_fail_inv)

lemma process_step_inv:
  assumes "inv s" and "enabled p e" and "process_step (S now) c registry d t p e s = (p', s', evs)"
  shows "inv s'"
proof (cases p)
  case Starting
  with assms show ?thesis by (auto dest: process_begin_inv)
next
  case (Running timedOut)
  with assms have "process_select (S now) c d t timedOut e s = (p', s', evs)" "enabled (Running timedOut) e"
    by simp_all
  then show ?thesis
    by (cases rule: select_cases) (use assms(1) in \<open>auto dest: worker_complete_inv heartbeat_inv\<close>)
qed (use assms in \<open>auto split: prod.splits\<close>)

lemma claim_iteration_ok:
  assumes "inv s" and "claim_iteration (S now) c names free t s = (r, s', evs)" and "0 < free"
  shows "inv s'" and "r = Inr ds \<Longrightarrow> int (length ds) \<le> free"
  using assms claim_limit
  by (auto simp: claim_iteration_def worker_claim_def split: prod.splits sum.splits
      dest: exhausted_inv claim_inv)
     (metis claim_limit claim_request.select_convs(3) exhausted_inv)

lemma loop_default_ok:
  assumes "run_ok c w" and "rn_phase w = LoopHead"
  shows "run_ok c (loop_default (S now) c names t w)"
proof (cases "wc_Concurrency c - int (length (rn_slots w)) > 0 \<and> length names > 0")
  case True
  let ?free = "wc_Concurrency c - int (length (rn_slots w))"
  obtain r s1 evs where it: "claim_iteration (S now) c names ?free t (rn_store w) = (r, s1, evs)"
    by (metis prod_cases3)
  have ok: "inv s1" "\<And>ds. r = Inr ds \<Longrightarrow> int (length ds) \<le> ?free"
    using claim_iteration_ok [OF _ it] True assms(1) by (auto simp: run_ok_def)
  have free: "int (length (rn_slots w)) \<le> wc_Concurrency c" using True by simp
  show ?thesis
  proof (cases r)
    case (Inl err)
    with it True ok(1) free show ?thesis by (simp add: loop_default_def run_ok_def stop_run_def Let_def)
  next
    case (Inr ds)
    with it True ok(1) ok(2) [OF Inr] free show ?thesis by (simp add: loop_default_def run_ok_def Let_def)
  qed
next
  case False
  with assms show ?thesis by (auto simp: loop_default_def run_ok_def Let_def)
qed

lemma proc_done_ok:
  assumes "run_ok c w" and "i < length (rn_slots w)"
  shows "run_ok c (proc_done c i p w)"
  using assms by (cases p) (auto simp: run_ok_def proc_done_def split: run_phase.splits)

lemma run_step_ok:
  assumes "run_ok c w" and "run_enabled c w e" and "\<And>s. e = Others s \<Longrightarrow> inv s"
  shows "run_ok c (run_step (S now) c registry started t w e)"
proof (cases e)
  case (Proc i pe)
  obtain d p where slot: "rn_slots w ! i = (d, p)" by (cases "rn_slots w ! i")
  obtain p1 s1 evs where step: "process_step (S now) c registry d t p pe (rn_store w) = (p1, s1, evs)"
    by (metis prod_cases3)
  have "inv s1" using process_step_inv [OF _ _ step] assms Proc slot by (simp add: run_ok_def)
  then have "run_ok c (w\<lparr>rn_store := s1, rn_emitted := rn_emitted w @ evs\<rparr>)" using assms(1) by (simp add: run_ok_def)
  with Proc slot step assms(2) show ?thesis using proc_done_ok by simp
next
  case LoopDefault
  with assms loop_default_ok show ?thesis by simp
next
  case Launch
  with assms show ?thesis by (auto simp: run_ok_def split: run_phase.splits list.splits)
next
  case (Others s)
  with assms show ?thesis by (simp add: run_ok_def)
qed (use assms in \<open>auto simp: run_ok_def stop_run_def exit_run_def split: run_phase.splits\<close>)

lemma run_trace_ok:
  assumes "run_ok c w" and "run_trace S c registry started es w = Some w'"
    and "\<And>now s. (now, Others s) \<in> set es \<Longrightarrow> inv s"
  shows "run_ok c w'"
  using assms
proof (induction es arbitrary: w)
  case (Cons x es)
  obtain now e where x: "x = (now, e)" by (cases x)
  have "run_ok c (run_step (S now) c registry started now w e)"
    using Cons.prems x by (intro run_step_ok) (auto split: if_splits)
  moreover have "run_trace S c registry started es (run_step (S now) c registry started now w e) = Some w'"
    using Cons.prems(2) x by (simp split: if_splits)
  moreover have "inv s" if "(now', Others s) \<in> set es" for now' s
    using Cons.prems(3) [of now' s] that by simp
  ultimately show ?case by (rule Cons.IH)
qed simp

lemma run_start_ok: "config_ok c \<Longrightarrow> inv s \<Longrightarrow> run_ok c (run_start c now s)"
  by (simp add: run_ok_def run_start_def config_ok_def)

lemma launch_enabled: "run_ok c w \<Longrightarrow> rn_phase w = Launching ds \<Longrightarrow> run_enabled c w Launch"
  by (cases ds) (simp_all add: run_ok_def)

end

section \<open>The PostgreSQL store keeps the contract\<close>

lemma pg_job_store_sel [simp]:
  "js_Claim (pg_job_store env st now locked) = PG_Claim st now locked"
  "js_FailExhausted (pg_job_store env st now locked) = PG_FailExhausted now locked"
  "js_Heartbeat (pg_job_store env st now locked) = PG_Heartbeat env now"
  "js_Ack (pg_job_store env st now locked) = PG_Ack env now"
  "js_Retry (pg_job_store env st now locked) = PG_Retry env st now"
  "js_Release (pg_job_store env st now locked) = PG_Release env now"
  "js_Fail (pg_job_store env st now locked) = PG_Fail env st now"
  by (simp_all add: pg_job_store_def)

lemma reachable_exec:
  "store_reachable env st db \<Longrightarrow> store_exec env st now op db = db' \<Longrightarrow> store_reachable env st db'"
  using reach_exec by blast

lemma claimed_limit:
  assumes "store_reachable env st db" and "PG_Claim st now locked req db = (Inr ds, db')" and "0 < cr_Limit req"
  shows "int (length ds) \<le> cr_Limit req"
  using claimed_ids(2) [OF reachable_wf [OF assms(1)] assms(2)] assms(3) by simp

interpretation pgw: worker_store "\<lambda>now. pg_job_store env st now (locked now)" "store_reachable env st" for env st locked
proof unfold_locales
  show "int (length ds) \<le> cr_Limit req" if "store_reachable env st s"
      "js_Claim (pg_job_store env st now (locked now)) req s = (Inr ds, s')" "0 < cr_Limit req" for s now req ds s'
    using claimed_limit that by simp
  show "store_reachable env st s'" if "store_reachable env st s"
      "js_Claim (pg_job_store env st now (locked now)) req s = (r, s')" for s now req r s'
    by (rule reachable_exec [OF that(1), of now "OpClaim (locked now) req"]) (use that(2) in simp)
  show "store_reachable env st s'" if "store_reachable env st s"
      "js_FailExhausted (pg_job_store env st now (locked now)) qs ns n s = (r, s')" for s now qs ns n r s'
    by (rule reachable_exec [OF that(1), of now "OpFailExhausted (locked now) qs ns n"]) (use that(2) in simp)
  show "store_reachable env st s'" if "store_reachable env st s"
      "js_Heartbeat (pg_job_store env st now (locked now)) l t s = (b, s')" for s now l t b s'
    by (rule reachable_exec [OF that(1), of now "OpHeartbeat l t"]) (use that(2) in simp)
  show "store_reachable env st s'" if "store_reachable env st s"
      "js_Ack (pg_job_store env st now (locked now)) l s = (b, s')" for s now l b s'
    by (rule reachable_exec [OF that(1), of now "OpAck l"]) (use that(2) in simp)
  show "store_reachable env st s'" if "store_reachable env st s"
      "js_Retry (pg_job_store env st now (locked now)) rq s = (b, s')" for s now rq b s'
    by (rule reachable_exec [OF that(1), of now "OpRetry rq"]) (use that(2) in simp)
  show "store_reachable env st s'" if "store_reachable env st s"
      "js_Release (pg_job_store env st now (locked now)) l s = (b, s')" for s now l b s'
    by (rule reachable_exec [OF that(1), of now "OpRelease l"]) (use that(2) in simp)
  show "store_reachable env st s'" if "store_reachable env st s"
      "js_Fail (pg_job_store env st now (locked now)) fq s = (b, s')" for s now fq b s'
    by (rule reachable_exec [OF that(1), of now "OpFail fq"]) (use that(2) in simp)
qed


definition demo_no_registry :: "(unit, unit) registry option" where
  "demo_no_registry = None"

definition demo_run :: "(time \<times> 's run_event) list" where
  "demo_run = [(1, LoopDefault), (2, PollTimer), (3, CtxDone (Sentinel ''context canceled'')), (4, TakeCtx), (5, Drained)]"

lemma demo_run_trace:
  "\<exists>w. run_trace S demo_config demo_no_registry 0 demo_run (run_start demo_config 0 s) = Some w \<and> rn_phase w = Exited None"
  by (simp add: demo_run_def demo_no_registry_def run_start_def demo_config_def loop_default_def Registry_Names_def stop_run_def
      exit_run_def)


section \<open>The result of Run\<close>

definition worker_error :: "worker_config \<Rightarrow> goerr \<Rightarrow> bool" where
  "worker_error c e \<longleftrightarrow> (\<exists>operation err. e = wrapStore operation err) \<or> e = cancellation_error c"

lemma worker_error_wrap [simp]: "worker_error c (wrapStore operation err)" "worker_error c (cancellation_error c)"
  by (auto simp: worker_error_def)

lemma fail_error: "Worker_fail S c d kind msg now s = (Some e, s', evs) \<Longrightarrow> worker_error c e"
  by (auto simp: Worker_fail_def Let_def split: prod.splits sum.splits if_splits)

lemma complete_error: "Worker_complete S c d outcome elapsed now s = (Some e, s', evs) \<Longrightarrow> worker_error c e"
  by (auto simp: Worker_complete_def Let_def split: prod.splits sum.splits if_splits option.splits dest: fail_error)

lemma begin_error: "process_begin S c registry d now s = (Returned (Some e), s', evs) \<Longrightarrow> worker_error c e"
  by (auto simp: process_begin_def split: option.splits sum.splits prod.splits dest: fail_error)

lemma step_error:
  assumes "enabled p pe" and "process_step S c registry d now p pe s = (Returned (Some e), s', evs)"
  shows "worker_error c e"
proof (cases p)
  case (Running t)
  with assms have "process_select S c d now t pe s = (Returned (Some e), s', evs)" "enabled (Running t) pe" by simp_all
  then show ?thesis by (cases rule: select_cases) (auto dest: complete_error)
next
  case (AwaitCancellation out)
  with assms show ?thesis by (cases pe) (auto simp: awaitCancellation_def)
qed (use assms in \<open>auto dest: begin_error\<close>)

fun phase_ok :: "worker_config \<Rightarrow> goerr option \<Rightarrow> run_phase \<Rightarrow> bool" where
  "phase_ok c ctxErr (Draining e) \<longleftrightarrow> worker_error c e \<or> ctxErr = Some e"
| "phase_ok c ctxErr (Exited r) \<longleftrightarrow> (case r of None \<Rightarrow> ctxErr \<noteq> None | Some e \<Rightarrow> worker_error c e)"
| "phase_ok c ctxErr p \<longleftrightarrow> True"

definition result_ok :: "worker_config \<Rightarrow> 's run_state \<Rightarrow> bool" where
  "result_ok c w \<longleftrightarrow> list_all (worker_error c) (rn_processErrors w) \<and> phase_ok c (rn_ctxErr w) (rn_phase w)"

lemma iteration_error: "claim_iteration S c names free now s = (Inl e, s', evs) \<Longrightarrow> worker_error c e"
  by (auto simp: claim_iteration_def split: prod.splits sum.splits)

lemma loop_default_result:
  assumes "result_ok c w" and "rn_phase w = LoopHead"
  shows "result_ok c (loop_default S c names now w)"
  using assms
  by (auto simp: loop_default_def result_ok_def stop_run_def Let_def split: prod.splits sum.splits
      dest: iteration_error)

lemma exit_run_result:
  assumes "result_ok c w" and "rn_phase w = Draining e"
  shows "result_ok c (exit_run c started now e w)"
  using assms errors_is_refl [of e] by (auto simp: exit_run_def result_ok_def split: option.splits)

lemma result_ok_hard [simp]: "result_ok c (w\<lparr>rn_hardCancel := b\<rparr>) \<longleftrightarrow> result_ok c w"
  by (simp add: result_ok_def)

lemma proc_done_result:
  assumes "result_ok c w" and "\<And>e. p = Returned (Some e) \<Longrightarrow> worker_error c e"
  shows "result_ok c (proc_done c i p w)"
  using assms by (auto simp: result_ok_def proc_done_def split: proc_phase.splits option.splits)

lemma run_step_result:
  assumes "result_ok c w" and "run_enabled c w e"
  shows "result_ok c (run_step S c registry started now w e)"
proof (cases e)
  case (Proc i pe)
  obtain d p where slot: "rn_slots w ! i = (d, p)" by (cases "rn_slots w ! i")
  obtain p1 s1 evs where step: "process_step S c registry d now p pe (rn_store w) = (p1, s1, evs)"
    by (metis prod_cases3)
  have en: "enabled p pe" using assms(2) Proc slot by simp
  have "worker_error c err" if "p1 = Returned (Some err)" for err
    by (rule step_error [OF en step [unfolded that]])
  with assms(1) have "result_ok c (proc_done c i p1 (w\<lparr>rn_store := s1, rn_emitted := rn_emitted w @ evs\<rparr>))"
    by (intro proc_done_result) (simp_all add: result_ok_def)
  with Proc slot step show ?thesis by simp
next
  case LoopDefault
  with assms loop_default_result [of c w S] show ?thesis by simp
next
  case Drained
  then obtain x where "rn_phase w = Draining x" using assms(2) by (auto split: run_phase.splits)
  with Drained assms(1) exit_run_result [of c w x] show ?thesis by simp
next
  case ShutdownTimer
  then obtain x where "rn_phase w = Draining x" using assms(2) by (auto split: run_phase.splits)
  with ShutdownTimer assms(1) exit_run_result [of c "w\<lparr>rn_hardCancel := True\<rparr>" x] show ?thesis by simp
next
  case (CtxDone x)
  with assms show ?thesis by (cases "rn_phase w") (auto simp: result_ok_def split: option.splits)
next
  case TakeError
  with assms show ?thesis by (cases "rn_processErrors w") (auto simp: result_ok_def stop_run_def)
next
  case Launch
  with assms show ?thesis by (auto simp: result_ok_def split: run_phase.splits list.splits)
qed (use assms in \<open>auto simp: result_ok_def stop_run_def\<close>)

lemma run_trace_result:
  "result_ok c w \<Longrightarrow> run_trace S c registry started es w = Some w' \<Longrightarrow> result_ok c w'"
proof (induction es arbitrary: w)
  case (Cons x es)
  obtain now e where x: "x = (now, e)" by (cases x)
  from Cons x run_step_result [of c w e "S now" registry started now] show ?case by (auto split: if_splits)
qed simp

text \<open>C28: \<open>Run\<close> returns nil only after the caller's context ended, and the only errors it returns are a failed
  store operation, wrapped with its name, and a handler that did not stop after its cancellation. The end of
  the caller's context alone is never reported as an error.\<close>

theorem worker_result:
  assumes "run_trace S c registry started es (run_start c started s) = Some w" and "rn_phase w = Exited r"
  shows "case r of
      None \<Rightarrow> \<exists>e. rn_ctxErr w = Some e
    | Some e \<Rightarrow> (\<exists>operation err. e = wrapStore operation err) \<or> errors_is e ErrHandlerCancellationTimeout"
proof -
  have "result_ok c w"
    by (rule run_trace_result [OF _ assms(1)]) (simp add: result_ok_def run_start_def)
  with assms(2) show ?thesis
    by (auto simp: result_ok_def worker_error_def cancellation_error_def errors_is_refl split: option.splits)
qed

theorem worker_result_witness:
  "\<exists>w. run_trace (\<lambda>now. demo_job_store) demo_config demo_no_registry 0 demo_run (run_start demo_config 0 0) = Some w
     \<and> (\<exists>e. rn_ctxErr w = Some e)"
proof -
  obtain w where w: "run_trace (\<lambda>now. demo_job_store) demo_config demo_no_registry 0 demo_run (run_start demo_config 0 0) = Some w"
      "rn_phase w = Exited None"
    using demo_run_trace [of "\<lambda>now. demo_job_store" 0] by blast
  from worker_result [OF w] w(1) show ?thesis by simp
qed

section \<open>No job is lost\<close>

lemma pg_contents:
  assumes "store_reachable env st db"
  shows "contents_change now op db (store_exec env st now op db)"
  using contents_step [OF store_exec_step] reachable_wf [OF assms] by blast

lemma pg_keep:
  assumes "store_reachable env st db" and "store_exec env st now op db = db'"
    and "(\<exists>locked req. op = OpClaim locked req) \<or> (\<exists>l t. op = OpHeartbeat l t) \<or> (\<exists>rq. op = OpRetry rq)
      \<or> (\<exists>l. op = OpRelease l) \<or> (\<exists>fq. op = OpFail fq) \<or> (\<exists>locked qs ns n. op = OpFailExhausted locked qs ns n)"
  shows "contents db' = contents db"
  using pg_contents [OF assms(1), of now op] assms(2,3) by (auto simp: contents_change_def)

lemma pg_ack:
  assumes "store_reachable env st db" and "PG_Ack env now l db = (b, db')"
  shows "contents db' = contents db
    \<or> (\<exists>i r. r \<in> set (db_jobs db) \<and> fenced now i l r \<and> contents db = add_mset (job_key r) (contents db'))"
  using pg_contents [OF assms(1), of now "OpAck l"] assms(2) by (auto simp: contents_change_def)

lemma pg_fail_keeps:
  assumes "store_reachable env st db"
    and "Worker_fail (pg_job_store env st now locked) c d kind msg t db = (r, db', evs)"
  shows "contents db' = contents db"
proof -
  obtain fq b where "PG_Fail env st now fq db = (b, db')"
    using assms(2) by (auto simp: Worker_fail_def Let_def split: prod.splits sum.splits if_splits)
  then show ?thesis using pg_keep [OF assms(1), of now "OpFail fq"] by simp
qed

lemma pg_complete_keeps:
  assumes "store_reachable env st db"
    and "Worker_complete (pg_job_store env st now locked) c d (Some e) elapsed t db = (r, db', evs)"
  shows "contents db' = contents db"
proof (cases "final_failure d e")
  case True
  with assms(2) have "\<exists>kind msg. Worker_fail (pg_job_store env st now locked) c d kind msg t db = (r, db', evs)"
    by (auto simp: Worker_complete_def final_failure_def Let_def)
  with assms(1) show ?thesis using pg_fail_keeps by blast
next
  case False
  with assms(2) obtain rq b where "PG_Retry env st now rq db = (b, db')"
    by (auto simp: Worker_complete_def final_failure_def Let_def split: prod.splits sum.splits if_splits)
  then show ?thesis using pg_keep [OF assms(1), of now "OpRetry rq"] by simp
qed

definition ack_step :: "time \<Rightarrow> delivery \<Rightarrow> jobs_db \<Rightarrow> jobs_db \<Rightarrow> bool" where
  "ack_step now d db db' \<longleftrightarrow> (\<exists>i r. r \<in> set (db_jobs db) \<and> fenced now i (dl_Lease d) r
     \<and> contents db = add_mset (job_key r) (contents db'))"

lemma pg_process_step:
  assumes "store_reachable env st db" and "enabled p e"
    and "process_step (pg_job_store env st now locked) c registry d t p e db = (p', db', evs)"
  shows "contents db' = contents db
    \<or> p = Running False \<and> (\<exists>elapsed. e = ResultReady None False elapsed) \<and> ack_step now d db db'"
proof (cases p)
  case Starting
  then have "process_begin (pg_job_store env st now locked) c registry d t db = (p', db', evs)" using assms(3) by simp
  then have "(\<exists>b. PG_Release env now (dl_Lease d) db = (b, db')) \<or> db' = db
      \<or> (\<exists>kind msg r evs'. Worker_fail (pg_job_store env st now locked) c d kind msg t db = (r, db', evs'))"
    by (auto simp: process_begin_def split: option.splits sum.splits prod.splits)
  then show ?thesis
    using pg_keep [OF assms(1), of now "OpRelease (dl_Lease d)"] pg_fail_keeps [OF assms(1)] by auto
next
  case (Running t0)
  with assms have "process_select (pg_job_store env st now locked) c d t t0 e db = (p', db', evs)"
      "enabled (Running t0) e" by simp_all
  then show ?thesis
  proof (cases rule: select_cases)
    case (result err expired elapsed r)
    show ?thesis
    proof (cases "t0 \<or> expired \<or> err \<noteq> None")
      case True
      then obtain x where x: "(if t0 \<or> expired then Some (JErr DeadlineExceeded) else err) = Some x"
        by (cases "t0 \<or> expired") auto
      from pg_complete_keeps [OF assms(1) result(3) [unfolded x]] show ?thesis by simp
    next
      case False
      with result(3) obtain b where "PG_Ack env now (dl_Lease d) db = (b, db')"
        by (auto simp: Worker_complete_def split: prod.splits sum.splits if_splits)
      from pg_ack [OF assms(1) this] False result(1) Running show ?thesis by (auto simp: ack_step_def)
    qed
  qed (use pg_keep [OF assms(1), of now "OpHeartbeat (dl_Lease d) (wc_LeaseDuration c)"] in auto)
qed (use assms in \<open>auto split: prod.splits\<close>)

lemma pg_iteration_keeps:
  assumes "store_reachable env st db"
    and "claim_iteration (pg_job_store env st now locked) c names free t db = (r, db', evs)"
  shows "contents db' = contents db"
proof -
  obtain r1 db1 where ex: "PG_FailExhausted now locked (wc_Queues c) names free db = (r1, db1)" by (cases "PG_FailExhausted now locked (wc_Queues c) names free db")
  then have 1: "contents db1 = contents db" "store_reachable env st db1"
    using pg_keep [OF assms(1), of now "OpFailExhausted locked (wc_Queues c) names free"]
      reachable_exec [OF assms(1), of now "OpFailExhausted locked (wc_Queues c) names free"] by simp_all
  obtain r2 db2 where cl: "PG_Claim st now locked (worker_claim c names free) db1 = (r2, db2)"
    by (cases "PG_Claim st now locked (worker_claim c names free) db1")
  then have 2: "contents db2 = contents db1"
    using pg_keep [OF 1(2), of now "OpClaim locked (worker_claim c names free)"] by simp
  from assms(2) ex cl have "db' = db1 \<or> db' = db2"
    by (auto simp: claim_iteration_def split: sum.splits)
  with 1 2 show ?thesis by auto
qed

text \<open>C26: a worker on the PostgreSQL store executes every job at least once. No step of the worker, of any of its
  goroutines and in any state of its loop, removes a job from the two tables, except one: the goroutine of
  a delivery whose handler returned nil before its deadline acknowledges it, and that removes exactly the
  job whose live lease the delivery holds.\<close>

theorem worker_at_least_once:
  assumes "store_reachable env st (rn_store w)" and "run_enabled c w e" and "\<And>db. e \<noteq> Others db"
  shows "let db = rn_store w;
             db' = rn_store (run_step (pg_job_store env st now locked) c registry started now w e)
         in contents db' = contents db
           \<or> (\<exists>i d elapsed. e = Proc i (ResultReady None False elapsed) \<and> i < length (rn_slots w)
                \<and> rn_slots w ! i = (d, Running False) \<and> ack_step now d db db')"
proof (cases e)
  case (Proc i pe)
  obtain d p where slot: "rn_slots w ! i = (d, p)" by (cases "rn_slots w ! i")
  obtain p1 s1 evs where step: "process_step (pg_job_store env st now locked) c registry d now p pe (rn_store w)
      = (p1, s1, evs)" by (metis prod_cases3)
  have "enabled p pe" using assms(2) Proc slot by simp
  from pg_process_step [OF assms(1) this step] have "contents s1 = contents (rn_store w)
    \<or> p = Running False \<and> (\<exists>elapsed. pe = ResultReady None False elapsed) \<and> ack_step now d (rn_store w) s1" .
  moreover have "rn_store (run_step (pg_job_store env st now locked) c registry started now w e) = s1"
    using Proc slot step by (cases p1) (simp_all add: proc_done_def)
  ultimately show ?thesis using assms(2) Proc slot by auto
next
  case LoopDefault
  then show ?thesis
    using pg_iteration_keeps [OF assms(1), of now locked c "Registry_Names registry"
        "wc_Concurrency c - int (length (rn_slots w))" now]
    by (auto simp: loop_default_def stop_run_def Let_def split: prod.splits sum.splits)
next
  case (Others db)
  with assms(3) [of db] show ?thesis by simp
qed (auto simp: stop_run_def exit_run_def split: run_phase.splits list.splits)

definition demo_world :: "jobs_db run_state" where
  "demo_world = (run_start demo_config 0 \<lparr>db_jobs = [demo_row], db_failed = []\<rparr>)
     \<lparr>rn_slots := [(demo_delivered, Running False)]\<rparr>"

theorem worker_at_least_once_witness:
  "let e = Proc 0 (ResultReady (Some JPanic) False 1);
       w' = run_step (pg_job_store demo_env demo_pg (11 * second) []) demo_config demo_no_registry 0 (11 * second) demo_world e
   in contents (rn_store w') = contents (rn_store demo_world)"
proof -
  have "store_reachable demo_env demo_pg (rn_store demo_world)"
    using demo_reachable by (simp add: demo_world_def run_start_def)
  moreover have "run_enabled demo_config demo_world (Proc 0 (ResultReady (Some JPanic) False 1))"
    by (simp add: demo_world_def)
  ultimately show ?thesis
    using worker_at_least_once [of demo_env demo_pg demo_world demo_config "Proc 0 (ResultReady (Some JPanic) False 1)"
        "11 * second" "[]" demo_no_registry 0]
    by (simp only: Let_def) blast
qed

section \<open>Requests of the worker\<close>

text \<open>An error a handler can return: a requested delay comes from \<open>RetryAfter\<close>, which checks it.\<close>

fun handler_error :: "joberr \<Rightarrow> bool" where
  "handler_error (JErr e) \<longleftrightarrow> True"
| "handler_error (JWrap m e) \<longleftrightarrow> handler_error e"
| "handler_error (JJoin es) \<longleftrightarrow> list_all handler_error es"
| "handler_error (JPermanent e) \<longleftrightarrow> handler_error e"
| "handler_error (JRetryAfter e d) \<longleftrightarrow> delay_ok d \<and> handler_error e"
| "handler_error JPanic \<longleftrightarrow> True"

lemma RetryAfter_handler_error:
  "handler_error e \<Longrightarrow> Job_Core.RetryAfter (Some e) d = Some e' \<Longrightarrow> handler_error e'"
  by (auto simp: Job_Core.RetryAfter_def delay_ok_def split: if_splits)

lemma as_retryAfter_ok:
  "handler_error e \<Longrightarrow> as_retryAfter e = Some d \<Longrightarrow> delay_ok d"
  "list_all handler_error es \<Longrightarrow> as_retryAfter_list es = Some d \<Longrightarrow> delay_ok d"
  by (induction e and es rule: as_retryAfter_as_retryAfter_list.induct) (auto split: option.splits)

lemma retryDelay_mem:
  assumes "bs \<noteq> []"
  shows "retryDelay bs n \<in> set bs"
proof -
  have "0 < length bs" using assms by simp
  then show ?thesis by (auto simp: retryDelay_def Let_def nat_less_iff intro!: nth_mem)
qed

lemma kind_known: "cl_kind (classifyError e) \<in> {''panic'', ''permanent'', ''error''}"
  by (auto simp: classifyError_def split: option.splits)

lemma failure_kind_length: "failure_kind e \<noteq> [] \<and> length (failure_kind e) \<le> 64"
  using kind_known [of e] by (auto simp: failure_kind_def)

lemma settle_delay_ok:
  assumes "handler_error e" and "dl_Backoff d \<noteq> []" and "\<forall>b \<in> set (dl_Backoff d). 0 \<le> b"
  shows "0 \<le> settle_delay d e"
proof (cases "cl_delay (classifyError e)")
  case None
  with assms retryDelay_mem [of "dl_Backoff d" "dl_Attempt d"] show ?thesis by (simp add: settle_delay_def)
next
  case (Some v)
  then have "as_retryAfter e = Some v" by (auto simp: classifyError_def split: if_splits option.splits)
  with as_retryAfter_ok(1) [OF assms(1)] Some show ?thesis by (auto simp: settle_delay_def delay_ok_def)
qed

definition call_accepted :: "pg_store \<Rightarrow> store_call \<Rightarrow> bool" where
  "call_accepted st call \<longleftrightarrow>
     (case call of
        CallHeartbeat l t \<Rightarrow> is_ok (validateLease l) \<and> millisecond \<le> t
      | CallAck l \<Rightarrow> is_ok (validateLease l)
      | CallRelease l \<Rightarrow> is_ok (validateLease l)
      | CallRetry q \<Rightarrow> is_ok (validateLease (rr_Lease q)) \<and> 0 \<le> rr_Delay q \<and> length (rr_ErrorKind q) \<le> 64
          \<and> int (length (rr_Error q)) \<le> st_maxError st
      | CallFail q \<Rightarrow> is_ok (validateLease (fr_Lease q)) \<and> fr_Kind q \<noteq> [] \<and> length (fr_Kind q) \<le> 64
          \<and> int (length (fr_Error q)) \<le> st_maxError st)"

lemma settlement_accepted:
  assumes "config_ok c" and "wc_MaxErrorBytes c \<le> st_maxError st" and "validateDelivery st d = Inr u"
    and "\<And>e. outcome = Some e \<Longrightarrow> handler_error e"
  shows "call_accepted st (settlement c d outcome)"
proof -
  have d: "is_ok (validateLease (dl_Lease d))" "dl_Backoff d \<noteq> []" "\<forall>b \<in> set (dl_Backoff d). 0 \<le> b"
    using assms(3) unfolding validateDelivery_def by (auto split: if_splits simp: not_less)
  have "0 \<le> wc_MaxErrorBytes c" using assms(1) by (simp add: config_ok_def)
  then have m: "int (length (failure_message c e)) \<le> st_maxError st" for e
    using assms(2) truncateUTF8_length [of "wc_MaxErrorBytes c"] unfolding failure_message_def by (meson order_trans)
  show ?thesis
  proof (cases outcome)
    case None
    with d show ?thesis by (simp add: settlement_def call_accepted_def)
  next
    case (Some e)
    with d m failure_kind_length [of e] settle_delay_ok [OF assms(4) [OF Some] d(2,3)] show ?thesis
      by (simp add: settlement_def call_accepted_def)
  qed
qed

fun pg_call :: "pg_env \<Rightarrow> pg_store \<Rightarrow> time \<Rightarrow> store_call \<Rightarrow> jobs_db \<Rightarrow> bool result \<times> jobs_db" where
  "pg_call env st now (CallHeartbeat l t) = PG_Heartbeat env now l t"
| "pg_call env st now (CallAck l) = PG_Ack env now l"
| "pg_call env st now (CallRetry q) = PG_Retry env st now q"
| "pg_call env st now (CallRelease l) = PG_Release env now l"
| "pg_call env st now (CallFail q) = PG_Fail env st now q"

text \<open>An error of the store's own argument checks, as opposed to one of the database.\<close>

fun rejected :: "bool result \<Rightarrow> bool" where
  "rejected (Inl (Errorf format args)) \<longleftrightarrow> True"
| "rejected r \<longleftrightarrow> False"

lemma execFenced_rejected:
  assumes "\<And>i e. query i db = Inl e \<Longrightarrow> \<exists>x. e = Sentinel x"
  shows "\<not> rejected (fst (execFenced env l query db))"
  using assms by (auto simp: execFenced_def pg_bad_parameter_def split: option.splits sum.splits) force

lemma update_query_error: "update_query p f i db = Inl e \<Longrightarrow> \<exists>x. e = Sentinel x"
  by (auto simp: update_query_def update_jobs_def pg_check_violation_def split: if_splits sum.splits)

lemma accepted_not_rejected:
  assumes "call_accepted st call"
  shows "\<not> rejected (fst (pg_call env st now call db))"
proof (cases call)
  case (CallHeartbeat l t)
  with assms show ?thesis
    by (simp add: call_accepted_def PG_Heartbeat_def execFenced_rejected update_query_error)
next
  case (CallAck l)
  with assms show ?thesis
    by (cases "validateLease l") (auto simp: call_accepted_def PG_Ack_def intro!: execFenced_rejected)
next
  case (CallRetry q)
  with assms show ?thesis
    by (auto simp: call_accepted_def PG_Retry_def Let_def pg_bad_parameter_def
        intro!: execFenced_rejected update_query_error)
next
  case (CallRelease l)
  with assms show ?thesis
    by (cases "validateLease l")
      (auto simp: call_accepted_def PG_Release_def intro!: execFenced_rejected update_query_error)
next
  case (CallFail q)
  with assms show ?thesis
    by (auto simp: call_accepted_def PG_Fail_def Let_def split: option.splits sum.splits)
qed

lemma worker_claim_valid:
  assumes "config_ok c" and "list_all name_ok names" and "names \<noteq> []" and "0 < free" and "free \<le> wc_Concurrency c"
  shows "claim_invalid (worker_claim c names free) = None"
  using assms TrimSpace_nonblank [of "wc_WorkerID c"]
  by (auto simp: claim_invalid_def worker_claim_def config_ok_def list_all_iff queue_ok_def name_ok_def not_less)

lemma claimed_valid:
  assumes "PG_Claim st now locked req db = (Inr ds, db')" and "d \<in> set ds"
  shows "validateDelivery st d = Inr ()"
proof -
  from Claim_ok(3) [OF assms(1)] assms(2) obtain r where "scan_claim st req r = Inr d"
    by (auto simp: scan_claims_Inr list_all2_conv_all_nth in_set_conv_nth)
  then have "is_ok (validateDelivery st d)" using scan_claim_fields by blast
  then show ?thesis by (cases "validateDelivery st d") auto
qed



end
