(* ===== verification/Schedule_Cron.thy ===== *)
theory Schedule_Cron
  imports Go_Regexp Go_Strings
begin

text \<open>
  Cron expressions of the package \<open>schedule\<close> (\<^verbatim>\<open>src/schedule/cron.go\<close>). The parser of the cron library and
  the search for the next instant of a parsed expression are arguments; so is the calendar of a time zone,
  of which the code uses the year of an instant and the first instant of a year. The text handed to the
  library is ASCII by then, and the letters of \<open>CRON_TZ\<close> are the upper case of no other code point, so that
  case conversion is modelled on ASCII letters.
\<close>

section \<open>Case conversion\<close>

definition to_upper :: "string \<Rightarrow> string" where
  "to_upper = map (\<lambda>c. if 97 \<le> (of_char c :: nat) \<and> of_char c \<le> (122 :: nat) then char_of (of_char c - 32 :: nat) else c)"

definition to_lower :: "string \<Rightarrow> string" where
  "to_lower = map (\<lambda>c. if 65 \<le> (of_char c :: nat) \<and> of_char c \<le> (90 :: nat) then char_of (of_char c + 32 :: nat) else c)"

fun contains :: "string \<Rightarrow> string \<Rightarrow> bool" where
  "contains p [] \<longleftrightarrow> p = []"
| "contains p (c # s) \<longleftrightarrow> starts_with p (c # s) \<or> contains p s"

section \<open>Fields\<close>

definition numericCronField :: rexp where
  "numericCronField = (let c = Cls [(CHR ''0'', CHR ''9''), (CHR ''*'', CHR ''*''), (CHR ''/'', CHR ''/''),
     (CHR '','', CHR '',''), (CHR ''-'', CHR ''-'')] in seqs [c, Star c])"

definition namedCronField :: rexp where
  "namedCronField = (let c = Cls [(CHR ''A'', CHR ''Z''), (CHR ''a'', CHR ''z''), (CHR ''0'', CHR ''9''),
     (CHR ''*'', CHR ''*''), (CHR ''/'', CHR ''/''), (CHR '','', CHR '',''), (CHR ''-'', CHR ''-'')]
   in seqs [c, Star c])"

type_synonym cron_names = "(string \<times> int) list"

definition monthNames :: cron_names where
  "monthNames = [(''jan'', 1), (''feb'', 2), (''mar'', 3), (''apr'', 4), (''may'', 5), (''jun'', 6),
     (''jul'', 7), (''aug'', 8), (''sep'', 9), (''oct'', 10), (''nov'', 11), (''dec'', 12)]"

definition weekdayNames :: cron_names where
  "weekdayNames = [(''sun'', 0), (''mon'', 1), (''tue'', 2), (''wed'', 3), (''thu'', 4), (''fri'', 5), (''sat'', 6)]"

definition cronAtom :: "string \<Rightarrow> int \<Rightarrow> int \<Rightarrow> cron_names \<Rightarrow> int result" where
  "cronAtom val minimum maximum names =
     (case map_of names (to_lower val) of
        Some named \<Rightarrow> Inr named
      | None \<Rightarrow>
          (case Atoi val of
             Some parsed \<Rightarrow>
               if parsed < minimum \<or> parsed > maximum
               then Inl (Errorf ''value %q is outside %d-%d'' [val, Itoa minimum, Itoa maximum]) else Inr parsed
           | None \<Rightarrow> Inl (Errorf ''value %q is outside %d-%d'' [val, Itoa minimum, Itoa maximum])))"

text \<open>The loop over the days of a range that ends on Sunday as day 7. The counter is a 64-bit integer and wraps
  around for huge steps; \<open>None\<close> would be running out of fuel, which \<open>cron_days_enough\<close> excludes.\<close>

fun cron_days :: "nat \<Rightarrow> int \<Rightarrow> int \<Rightarrow> int \<Rightarrow> string list option" where
  "cron_days 0 current stop step = None"
| "cron_days (Suc n) current stop step =
     (if current > stop then Some []
      else if current = 7 then Some [Itoa 0]
      else map_option ((#) (Itoa current)) (cron_days n (wrap64 (current + step)) stop step))"

definition cron_step :: "string list \<Rightarrow> int result" where
  "cron_step stepParts =
     (if length stepParts = 2
      then (case Atoi (stepParts ! 1) of
              Some parsed \<Rightarrow> if parsed < 1 then Inl (Errorf ''step must be a positive integer'' []) else Inr parsed
            | None \<Rightarrow> Inl (Errorf ''step must be a positive integer'' []))
      else Inr 1)"

definition cron_range ::
    "string list \<Rightarrow> bool \<Rightarrow> int \<Rightarrow> int \<Rightarrow> cron_names \<Rightarrow> (int \<times> int) result" where
  "cron_range rangeParts stepped minimum maximum names =
     (case cronAtom (rangeParts ! 0) minimum maximum names of
        Inl err \<Rightarrow> Inl err
      | Inr start \<Rightarrow>
          if length rangeParts = 2
          then (case cronAtom (rangeParts ! 1) minimum maximum names of
                  Inl err \<Rightarrow> Inl err
                | Inr stop \<Rightarrow> if start > stop then Inl (Errorf ''range start exceeds end'' []) else Inr (start, stop))
          else Inr (start, if stepped then maximum else start))"

text \<open>The items that one item of a list contributes to the canonical field.\<close>

definition normalize_part ::
    "string \<Rightarrow> int \<Rightarrow> int \<Rightarrow> cron_names \<Rightarrow> bool \<Rightarrow> string list result" where
  "normalize_part part minimum maximum names sundaySeven =
     (if part = [] then Inl (Errorf ''empty list item'' [])
      else let stepParts = split_on (CHR ''/'') part; stepped = (length stepParts = 2) in
      if length stepParts > 2 \<or> stepParts ! 0 = [] then Inl (Errorf ''invalid step %q'' [part])
      else case cron_step stepParts of
        Inl err \<Rightarrow> Inl err
      | Inr step \<Rightarrow>
          let base = stepParts ! 0 in
          if base = ''*'' then Inr [if stepped then ''*/'' @ Itoa step else ''*'']
          else let rangeParts = split_on (CHR ''-'') base in
          if length rangeParts > 2 then Inl (Errorf ''invalid range %q'' [base])
          else (case cron_range rangeParts stepped minimum maximum names of
                  Inl err \<Rightarrow> Inl err
                | Inr (start, stop) \<Rightarrow>
                    if sundaySeven \<and> (start = 7 \<or> stop = 7)
                    then (case cron_days 20 start stop step of
                            Some days \<Rightarrow> Inr days
                          | None \<Rightarrow> Inl (Errorf ''fuel'' []))
                    else Inr [Itoa start @ (if length rangeParts = 2 then ''-'' @ Itoa stop else [])
                                @ (if stepped then ''/'' @ Itoa step else [])]))"

fun normalize_parts ::
    "string list \<Rightarrow> int \<Rightarrow> int \<Rightarrow> cron_names \<Rightarrow> bool \<Rightarrow> string list result" where
  "normalize_parts [] minimum maximum names sundaySeven = Inr []"
| "normalize_parts (part # parts) minimum maximum names sundaySeven =
     (case normalize_part part minimum maximum names sundaySeven of
        Inl err \<Rightarrow> Inl err
      | Inr items \<Rightarrow>
          (case normalize_parts parts minimum maximum names sundaySeven of
             Inl err \<Rightarrow> Inl err
           | Inr rest \<Rightarrow> Inr (items @ rest)))"

definition normalizeCronField ::
    "string \<Rightarrow> int \<Rightarrow> int \<Rightarrow> cron_names \<Rightarrow> bool \<Rightarrow> string result" where
  "normalizeCronField val minimum maximum names sundaySeven =
     (case normalize_parts (split_on (CHR '','') val) minimum maximum names sundaySeven of
        Inl err \<Rightarrow> Inl err
      | Inr normalized \<Rightarrow> Inr (join_with '','' normalized))"

section \<open>Expressions\<close>

record location =
  loc_year :: "time \<Rightarrow> int"
  loc_new_year :: "int \<Rightarrow> time"

datatype lib_schedule = SpecSchedule "location \<Rightarrow> time \<Rightarrow> time" | OtherSchedule

record cron_expression =
  ce_canonical :: string
  ce_schedule :: "(time \<Rightarrow> time) option"
  ce_location :: "location option"

definition cron_bounds :: "(int \<times> int \<times> cron_names) list" where
  "cron_bounds = [(0, 59, []), (0, 23, []), (1, 31, []), (1, 12, monthNames), (0, 7, weekdayNames)]"

fun cron_fields :: "nat \<Rightarrow> string list \<Rightarrow> (int \<times> int \<times> cron_names) list \<Rightarrow> string list result" where
  "cron_fields index (field # remaining) ((minimum, maximum, names) # bounds) =
     (if \<not> rmatch (if names \<noteq> [] then namedCronField else numericCronField) field
      then Inl (Errorf ''schedule: invalid cron field %d'' [Itoa (int index + 1)])
      else case normalizeCronField field minimum maximum names (index = 4) of
        Inl err \<Rightarrow> Inl (Wrapf ''schedule: invalid cron field %d: %w'' [Itoa (int index + 1)] err)
      | Inr normalized \<Rightarrow>
          (case cron_fields (Suc index) remaining bounds of
             Inl err \<Rightarrow> Inl err
           | Inr rest \<Rightarrow> Inr (normalized # rest)))"
| "cron_fields index remaining bounds = Inr []"

text \<open>The first of January 2000, in nanoseconds since the first of January of the year 1.\<close>

definition epoch_2000 :: time where
  "epoch_2000 = 730119 * 24 * hour"

definition parseCron ::
    "(string \<Rightarrow> lib_schedule result) \<Rightarrow> string \<Rightarrow> location \<Rightarrow> cron_expression result" where
  "parseCron parse val location =
     (let words = Fields val in
      if length words \<noteq> 5 then Inl (Errorf ''schedule: cron expression must contain exactly five fields'' [])
      else if starts_with ''@'' (TrimSpace val) \<or> contains ''CRON_TZ'' (to_upper val)
      then Inl (Errorf ''schedule: cron descriptors and embedded time zones are not supported'' [])
      else case cron_fields 0 words cron_bounds of
        Inl err \<Rightarrow> Inl err
      | Inr normalized \<Rightarrow>
          let canonical = join_with '' '' normalized in
          (case parse canonical of
             Inl err \<Rightarrow> Inl (Wrapf ''schedule: invalid cron expression: %w'' [] err)
           | Inr OtherSchedule \<Rightarrow>
               Inl (Errorf ''schedule: cron expression did not produce a standard schedule'' [])
           | Inr (SpecSchedule spec) \<Rightarrow>
               if is_zero_time (spec location epoch_2000)
               then Inl (Errorf ''schedule: cron expression has no possible occurrence'' [])
               else Inr \<lparr>ce_canonical = canonical, ce_schedule = Some (spec location), ce_location = Some location\<rparr>))"

function next_chunk :: "location \<Rightarrow> (time \<Rightarrow> time) \<Rightarrow> time \<Rightarrow> int \<Rightarrow> int \<Rightarrow> time" where
  "next_chunk location schedule after year final =
     (if year \<le> final
      then (let probe = loc_new_year location year - second; found = schedule probe in
            if \<not> is_zero_time found \<and> found > after then found
            else next_chunk location schedule after (year + 5) final)
      else 0)"
  by pat_completeness auto
termination
  by (relation "measure (\<lambda>(l, s, a, year, final). nat (final + 1 - year))") auto

declare next_chunk.simps [simp del]

definition cron_next :: "location \<Rightarrow> cron_expression \<Rightarrow> time \<Rightarrow> time" where
  "cron_next utc expression after =
     (case ce_schedule expression of
        None \<Rightarrow> 0
      | Some schedule \<Rightarrow>
          if \<not> is_zero_time (schedule after) then schedule after
          else let location = (case ce_location expression of Some l \<Rightarrow> l | None \<Rightarrow> utc);
                   year = loc_year location after
               in next_chunk location schedule after (year + 5) (year + 400))"

section \<open>The search for the next instant\<close>

text \<open>The library's search: the first occurrence after an instant, unless it lies more than five calendar years
  ahead, in which case it returns the zero time. Of the calendar: years begin in order, at least a second
  apart.\<close>

definition search_law :: "location \<Rightarrow> (time \<Rightarrow> bool) \<Rightarrow> (time \<Rightarrow> time) \<Rightarrow> bool" where
  "search_law l occurs schedule \<longleftrightarrow> \<not> occurs 0 \<and> (\<forall>t.
     if \<exists>x. occurs x \<and> t < x \<and> loc_year l x \<le> loc_year l t + 5
     then occurs (schedule t) \<and> t < schedule t \<and> (\<forall>x. occurs x \<and> t < x \<longrightarrow> schedule t \<le> x)
     else schedule t = 0)"

definition calendar_law :: "location \<Rightarrow> bool" where
  "calendar_law l \<longleftrightarrow> (\<forall>t y. t < loc_new_year l y \<longleftrightarrow> loc_year l t < y)
     \<and> (\<forall>y. loc_new_year l y + second \<le> loc_new_year l (y + 1))"

definition first_after :: "(time \<Rightarrow> bool) \<Rightarrow> time \<Rightarrow> time \<Rightarrow> bool" where
  "first_after occurs t o' \<longleftrightarrow> occurs o' \<and> t < o' \<and> (\<forall>x. occurs x \<and> t < x \<longrightarrow> o' \<le> x)"

lemma search_found:
  assumes "search_law l occurs schedule" and "occurs x" and "t < x" and "loc_year l x \<le> loc_year l t + 5"
  shows "first_after occurs t (schedule t)" and "schedule t \<noteq> 0"
proof -
  have "\<exists>x. occurs x \<and> t < x \<and> loc_year l x \<le> loc_year l t + 5" using assms by blast
  then show "first_after occurs t (schedule t)"
    using assms(1) unfolding search_law_def first_after_def by presburger
  then show "schedule t \<noteq> 0" using assms(1) unfolding search_law_def first_after_def by metis
qed

lemma search_sound:
  assumes "search_law l occurs schedule" and "schedule t \<noteq> 0"
  shows "first_after occurs t (schedule t)"
  using assms unfolding search_law_def first_after_def by metis

lemma new_year_iff: "calendar_law l \<Longrightarrow> t < loc_new_year l y \<longleftrightarrow> loc_year l t < y"
  by (simp add: calendar_law_def)

lemma new_year_gap: "calendar_law l \<Longrightarrow> loc_new_year l (y - 1) + second \<le> loc_new_year l y"
  unfolding calendar_law_def by (drule conjunct2, drule spec [of _ "y - 1"]) simp

lemma probe_year:
  assumes "calendar_law l"
  shows "loc_year l (loc_new_year l y - second) = y - 1"
  using new_year_iff [OF assms, of "loc_new_year l y - second" y] new_year_gap [OF assms, of y]
    new_year_iff [OF assms, of "loc_new_year l y - second" "y - 1"] by linarith

text \<open>Searching on in chunks of five years: when nothing occurs between \<open>after\<close> and the start of \<open>year\<close>, the
  chunks find the first occurrence, if there is one up to the year \<open>final\<close>.\<close>

lemma next_chunk_first:
  assumes "search_law l occurs schedule" and "calendar_law l"
    and "\<And>x. occurs x \<Longrightarrow> after < x \<Longrightarrow> year \<le> loc_year l x"
    and "loc_year l after + 2 \<le> year"
  shows "if \<exists>x. occurs x \<and> after < x \<and> loc_year l x \<le> final
         then first_after occurs after (next_chunk l schedule after year final)
         else next_chunk l schedule after year final = 0 \<or> first_after occurs after (next_chunk l schedule after year final)"
  using assms(3,4)
proof (induction "nat (final + 1 - year)" arbitrary: year rule: less_induct)
  case less
  let ?probe = "loc_new_year l year - second"
  have new: "t < loc_new_year l year \<longleftrightarrow> loc_year l t < year" for t
    by (rule new_year_iff [OF assms(2)])
  have before: "after < ?probe"
  proof -
    have "after < loc_new_year l (year - 1)" using less.prems(2) new_year_iff [OF assms(2), of after "year - 1"] by linarith
    with new_year_gap [OF assms(2), of year] show ?thesis by linarith
  qed
  have same: "first_after occurs after o'" if "first_after occurs ?probe o'" "after < o'" for o'
  proof -
    have "?probe < x" if "occurs x" "after < x" for x
      using less.prems(1) [OF that] new [of x] by linarith
    with that show ?thesis unfolding first_after_def by blast
  qed
  show ?case
  proof (cases "year \<le> final")
    case False
    then have "next_chunk l schedule after year final = 0" by (simp add: next_chunk.simps)
    moreover have "\<not> (\<exists>x. occurs x \<and> after < x \<and> loc_year l x \<le> final)"
      using less.prems(1) False by force
    ultimately show ?thesis by auto
  next
    case True
    show ?thesis
    proof (cases "schedule ?probe \<noteq> 0 \<and> schedule ?probe > after")
      case found: True
      then have "first_after occurs after (schedule ?probe)" using search_sound [OF assms(1)] same by blast
      with found True show ?thesis by (simp add: next_chunk.simps [of l schedule after year] is_zero_time_def)
    next
      case missed: False
      have later: "year + 5 \<le> loc_year l x" if x: "occurs x" "after < x" for x
      proof (rule ccontr)
        assume "\<not> year + 5 \<le> loc_year l x"
        then have near: "loc_year l x \<le> loc_year l ?probe + 5" using probe_year [OF assms(2)] by simp
        have "?probe < x" using less.prems(1) [OF x] new [of x] by linarith
        from search_found [OF assms(1) x(1) this near]
        have first: "first_after occurs ?probe (schedule ?probe)" "schedule ?probe \<noteq> 0" by blast+
        have "after < schedule ?probe" using first(1) before unfolding first_after_def by linarith
        with first missed show False by blast
      qed
      have "next_chunk l schedule after year final = next_chunk l schedule after (year + 5) final"
        using True missed by (auto simp: next_chunk.simps [of l schedule after year] is_zero_time_def Let_def)
      moreover have "nat (final + 1 - (year + 5)) < nat (final + 1 - year)" using True by simp
      ultimately show ?thesis using less.hyps [of "year + 5"] later less.prems(2) by simp
    qed
  qed
qed

lemma cron_next_ok:
  assumes "search_law l occurs schedule" and "calendar_law l"
    and "ce_schedule e = Some schedule" and "ce_location e = Some l"
  shows "((\<exists>x. occurs x \<and> after < x \<and> loc_year l x \<le> loc_year l after + 400) \<longrightarrow> first_after occurs after (cron_next utc e after))
    \<and> (cron_next utc e after = 0 \<or> first_after occurs after (cron_next utc e after))"
proof (cases "schedule after = 0")
  case False
  then have "cron_next utc e after = schedule after" using assms(3) by (simp add: cron_next_def is_zero_time_def)
  with search_sound [OF assms(1) False] show ?thesis by simp
next
  case True
  let ?y = "loc_year l after"
  have next_eq: "cron_next utc e after = next_chunk l schedule after (?y + 5) (?y + 400)"
    using True assms(3,4) by (simp add: cron_next_def is_zero_time_def Let_def)
  have far: "?y + 5 \<le> loc_year l x" if "occurs x" "after < x" for x
    using search_found(2) [OF assms(1) that] True by fastforce
  have "if \<exists>x. occurs x \<and> after < x \<and> loc_year l x \<le> ?y + 400
      then first_after occurs after (cron_next utc e after)
      else cron_next utc e after = 0 \<or> first_after occurs after (cron_next utc e after)"
    unfolding next_eq by (rule next_chunk_first [OF assms(1,2) far]) simp_all
  then show ?thesis by presburger
qed


text \<open>Years of 365 days and an expression that occurs once, nine years after the zero time.\<close>

abbreviation demo_year :: time where
  "demo_year \<equiv> 365 * 24 * hour"

definition demo_location :: location where
  "demo_location = \<lparr>loc_year = (\<lambda>t. t div demo_year), loc_new_year = (\<lambda>y. y * demo_year)\<rparr>"

definition demo_search :: "time \<Rightarrow> time" where
  "demo_search t = (if t < 9 * demo_year \<and> 9 \<le> t div demo_year + 5 then 9 * demo_year else 0)"

definition demo_expression :: cron_expression where
  "demo_expression = \<lparr>ce_canonical = ''0 0 29 2 *'', ce_schedule = Some demo_search, ce_location = Some demo_location\<rparr>"

lemma demo_laws: "search_law demo_location (\<lambda>o'. o' = 9 * demo_year) demo_search" "calendar_law demo_location"
  by (auto simp: search_law_def calendar_law_def demo_location_def demo_search_def)


end
