(* ===== verification/Schedule.thy ===== *)
theory Schedule
  imports Schedule_Cron Job_Core
begin

text \<open>
  The package \<open>schedule\<close>: types (\<^verbatim>\<open>src/schedule/types.go\<close>), definitions (\<^verbatim>\<open>definition.go\<close>), the registry
  (\<^verbatim>\<open>registry.go\<close>) and the scheduler (\<^verbatim>\<open>scheduler.go\<close>). Loading a time zone, encoding a payload or a
  fingerprint as JSON and the hash function are arguments. A schedule store is a record of its methods over
  a state; the callback that dispatches an occurrence works on the same state. The readings that one call of
  the callback makes of its context, of the random source and of the clock are the record \<open>call_env\<close>.
\<close>

section \<open>Types\<close>

definition DefaultMisfireGrace :: duration where "DefaultMisfireGrace = 15 * minute"
definition DefaultPollInterval :: duration where "DefaultPollInterval = 15 * second"
definition DefaultOperationTimeout :: duration where "DefaultOperationTimeout = 5 * second"
definition ScheduleMaxNameBytes :: nat where "ScheduleMaxNameBytes = 128"

definition ErrDefinitionConflict :: goerr where
  "ErrDefinitionConflict = Sentinel ''schedule: durable definition conflicts with code''"

text \<open>An outcome is a string in the code; \<open>OutcomeOther\<close> is any string but the five constants.\<close>

datatype outcome =
    OutcomeNotDue | OutcomeEnqueued | OutcomeOverlapSuppressed | OutcomeMisfireSkipped | OutcomeContended
  | OutcomeOther string

fun outcome_text :: "outcome \<Rightarrow> string" where
  "outcome_text OutcomeNotDue = ''not_due''"
| "outcome_text OutcomeEnqueued = ''enqueued''"
| "outcome_text OutcomeOverlapSuppressed = ''overlap_suppressed''"
| "outcome_text OutcomeMisfireSkipped = ''misfire_skipped''"
| "outcome_text OutcomeContended = ''contended''"
| "outcome_text (OutcomeOther s) = s"

record occurrence =
  oc_Schedule :: string
  oc_ScheduledAt :: time
  oc_TimeZone :: string
  oc_location :: "location option"

text \<open>\<open>sr_InUTC\<close> tells whether the location of \<open>ScheduledAt\<close> is \<open>time.UTC\<close>.\<close>

record sched_result =
  sr_Name :: string
  sr_Outcome :: outcome
  sr_ScheduledAt :: time
  sr_InUTC :: bool
  sr_JobID :: string

record sched_status =
  sg_Name :: string
  sg_Expression :: string
  sg_TimeZone :: string
  sg_JobName :: string
  sg_Queue :: string
  sg_MisfireGrace :: duration
  sg_Fingerprint :: string
  sg_NextRunAt :: time
  sg_LastEvaluatedAt :: "time option"
  sg_LastCursorAt :: "time option"
  sg_LastOccurrenceAt :: "time option"
  sg_LastJobID :: string
  sg_LastOutcome :: string
  sg_CreatedAt :: "time option"
  sg_UpdatedAt :: "time option"

section \<open>Payload factories\<close>

definition staticPayloadStrategy :: string where "staticPayloadStrategy = ''static-json-v1''"
definition dynamicPayloadStrategy :: string where "dynamicPayloadStrategy = ''dynamic-factory-v1''"
definition scheduleOverlapPolicy :: string where "scheduleOverlapPolicy = ''forbid''"

record 'p factory =
  fc_build :: "(occurrence \<Rightarrow> 'p result) option"
  fc_strategy :: string
  fc_staticJSON :: bytes
  fc_err :: "goerr option"

definition failed_factory :: "goerr \<Rightarrow> 'p factory" where
  "failed_factory err = \<lparr>fc_build = None, fc_strategy = [], fc_staticJSON = [], fc_err = Some err\<rparr>"

definition Static :: "('p \<Rightarrow> bytes result) \<Rightarrow> (bytes \<Rightarrow> 'p result) \<Rightarrow> 'p \<Rightarrow> 'p factory" where
  "Static marshal unmarshal payload =
     (case marshal payload of
        Inl err \<Rightarrow> failed_factory (Wrapf ''schedule: encode static payload: %w'' [] err)
      | Inr encoded \<Rightarrow>
          (case unmarshal encoded of
             Inl err \<Rightarrow> failed_factory (Wrapf ''schedule: decode static payload snapshot: %w'' [] err)
           | Inr snapshot \<Rightarrow>
               if marshal snapshot \<noteq> Inr encoded
               then failed_factory (Errorf ''schedule: static payload must round-trip through canonical JSON'' [])
               else \<lparr>fc_build = Some (\<lambda>_. case unmarshal encoded of
                                Inl err \<Rightarrow> Inl (Wrapf ''decode static payload: %w'' [] err)
                              | Inr p \<Rightarrow> Inr p),
                     fc_strategy = staticPayloadStrategy, fc_staticJSON = encoded, fc_err = None\<rparr>))"

definition Dynamic :: "(occurrence \<Rightarrow> 'p result) option \<Rightarrow> 'p factory" where
  "Dynamic f =
     (case f of
        None \<Rightarrow> failed_factory (Errorf ''schedule: dynamic payload factory is required'' [])
      | Some g \<Rightarrow> \<lparr>fc_build = Some g, fc_strategy = dynamicPayloadStrategy, fc_staticJSON = [], fc_err = None\<rparr>)"

section \<open>Definitions\<close>

definition timeZonePattern :: rexp where
  "timeZonePattern =
     (let word = Cls [(CHR ''A'', CHR ''Z''), (CHR ''a'', CHR ''z''), (CHR ''0'', CHR ''9''), (CHR ''.'', CHR ''.''),
            (CHR ''_'', CHR ''_''), (CHR ''+'', CHR ''+''), (CHR ''-'', CHR ''-'')];
          part = seqs [lit ''/'', word, Star word]
      in seqs [Cls [(CHR ''A'', CHR ''Z''), (CHR ''a'', CHR ''z'')], Star word, part, Star part])"

definition loadTimeZone :: "(string \<Rightarrow> location result) \<Rightarrow> location \<Rightarrow> string \<Rightarrow> location result" where
  "loadTimeZone load utc name =
     (if name \<noteq> TrimSpace name \<or> name = [] \<or> name = ''Local''
      then Inl (Errorf ''schedule: time zone must be UTC or an explicit IANA name'' [])
      else if name = ''UTC'' then Inr utc
      else if length name > 128 \<or> \<not> rmatch timeZonePattern name
      then Inl (Errorf ''schedule: invalid IANA time zone %q'' [name])
      else if list_ex (\<lambda>part. part = ''.'' \<or> part = ''..'') (split_on (CHR ''/'') name)
      then Inl (Errorf ''schedule: invalid IANA time zone %q'' [name])
      else case load name of
        Inl err \<Rightarrow> Inl (Wrapf ''schedule: load IANA time zone %q: %w'' [name] err)
      | Inr l \<Rightarrow> Inr l)"

record definition_settings =
  ds_timeZone :: string
  ds_location :: location
  ds_misfireGrace :: duration

type_synonym schedule_option = "(definition_settings \<Rightarrow> definition_settings result) option"

definition TimeZone :: "(string \<Rightarrow> location result) \<Rightarrow> location \<Rightarrow> string \<Rightarrow> schedule_option" where
  "TimeZone load utc name = Some (\<lambda>settings.
     case loadTimeZone load utc name of
       Inl err \<Rightarrow> Inl err
     | Inr l \<Rightarrow> Inr (settings\<lparr>ds_timeZone := name, ds_location := l\<rparr>))"

definition MisfireGrace :: "duration \<Rightarrow> schedule_option" where
  "MisfireGrace grace = Some (\<lambda>settings.
     if grace < minute \<or> grace > 365 * 24 * hour \<or> grace smod minute \<noteq> 0
     then Inl (Errorf ''schedule: misfire grace must be a whole minute between 1m and 365d'' [])
     else Inr (settings\<lparr>ds_misfireGrace := grace\<rparr>))"

fun apply_schedule_options :: "schedule_option list \<Rightarrow> definition_settings \<Rightarrow> definition_settings result" where
  "apply_schedule_options [] st = Inr st"
| "apply_schedule_options (None # os) st = Inl (Errorf ''schedule: nil definition option'' [])"
| "apply_schedule_options (Some f # os) st =
     (case f st of Inl err \<Rightarrow> Inl err | Inr st' \<Rightarrow> apply_schedule_options os st')"

record fingerprint_input =
  fp_Version :: int
  fp_Name :: string
  fp_Expression :: string
  fp_TimeZone :: string
  fp_MisfireGraceNS :: int
  fp_JobName :: string
  fp_Queue :: string
  fp_MaxAttempts :: int
  fp_TimeoutNS :: int
  fp_BackoffNS :: "int list"
  fp_PayloadStrategy :: string
  fp_StaticPayload :: bytes
  fp_OverlapPolicy :: string

definition definitionFingerprint ::
    "(fingerprint_input \<Rightarrow> bytes result) \<Rightarrow> (bytes \<Rightarrow> bytes) \<Rightarrow> string \<Rightarrow> string \<Rightarrow> definition_settings \<Rightarrow> string \<Rightarrow>
     policy \<Rightarrow> 'p factory \<Rightarrow> string result" where
  "definitionFingerprint marshal sha256 name expression settings jobName p f =
     (case marshal \<lparr>fp_Version = 1, fp_Name = name, fp_Expression = expression, fp_TimeZone = ds_timeZone settings,
             fp_MisfireGraceNS = ds_misfireGrace settings, fp_JobName = jobName, fp_Queue = pol_Queue p,
             fp_MaxAttempts = pol_MaxAttempts p, fp_TimeoutNS = pol_Timeout p, fp_BackoffNS = pol_Backoff p,
             fp_PayloadStrategy = fc_strategy f, fp_StaticPayload = fc_staticJSON f,
             fp_OverlapPolicy = scheduleOverlapPolicy\<rparr> of
        Inl err \<Rightarrow> Inl (Wrapf ''schedule: encode definition fingerprint: %w'' [] err)
      | Inr encoded \<Rightarrow> Inr (hex_encode (sha256 encoded)))"

record call_env =
  cx_before :: "goerr option"
  cx_after :: "goerr option"
  cx_rnd :: "bytes result"
  cx_now :: time

type_synonym ('x, 's) dispatch_callback =
  "'x \<Rightarrow> occurrence \<Rightarrow> call_env \<Rightarrow> 's \<Rightarrow> dispatch_result result \<times> job_event list \<times> 's"

record ('x, 's) schedule_definition =
  sd_name :: string
  sd_expression :: cron_expression
  sd_timeZone :: string
  sd_location :: location
  sd_misfireGrace :: duration
  sd_jobName :: string
  sd_policy :: policy
  sd_fingerprint :: string
  sd_materialize :: "(('x, 's) dispatcher \<Rightarrow> ('x, 's) dispatch_callback) option"

definition schedule_dispatch ::
    "job_definition \<Rightarrow> ('p \<Rightarrow> bytes result) \<Rightarrow> (occurrence \<Rightarrow> 'p result) \<Rightarrow> string \<Rightarrow> ('x, 's) dispatcher \<Rightarrow>
     ('x, 's) dispatch_callback" where
  "schedule_dispatch target marshal build name dispatcher executor oc cx s =
     (case cx_before cx of
        Some err \<Rightarrow> (Inl err, [], s)
      | None \<Rightarrow>
          (case build oc of
             Inl err \<Rightarrow> (Inl (Wrapf ''schedule: build payload for %s: %w'' [name] err), [], s)
           | Inr payload \<Rightarrow>
               (case cx_after cx of
                  Some err \<Rightarrow> (Inl err, [], s)
                | None \<Rightarrow> Dispatch target (Dispatcher_Using (Some executor) dispatcher) (marshal payload) (cx_rnd cx)
                            (cx_now cx) [Deduplicate (''goforge:schedule:'' @ name)] s)))"

definition Schedule_Define ::
    "(string \<Rightarrow> lib_schedule result) \<Rightarrow> location \<Rightarrow> (fingerprint_input \<Rightarrow> bytes result) \<Rightarrow> (bytes \<Rightarrow> bytes) \<Rightarrow>
     ('p \<Rightarrow> bytes result) \<Rightarrow> string \<Rightarrow> string \<Rightarrow> job_definition \<Rightarrow> 'p factory \<Rightarrow> schedule_option list \<Rightarrow>
     ('x, 's) schedule_definition result" where
  "Schedule_Define parse utc marshal_input sha256 marshal name expression target f options =
     (if name \<noteq> TrimSpace name \<or> length name = 0 \<or> length name > ScheduleMaxNameBytes
         \<or> \<not> rmatch versioned_name_rexp name
      then Inl (Errorf ''schedule: invalid versioned name %q'' [name])
      else if def_name target = [] then Inl (Errorf ''schedule: valid job definition is required'' [])
      else case fc_err f of
        Some err \<Rightarrow> Inl err
      | None \<Rightarrow>
          (case fc_build f of
             None \<Rightarrow> Inl (Errorf ''schedule: valid payload factory is required'' [])
           | Some build \<Rightarrow>
          if fc_strategy f \<noteq> staticPayloadStrategy \<and> fc_strategy f \<noteq> dynamicPayloadStrategy
          then Inl (Errorf ''schedule: valid payload factory is required'' [])
          else case apply_schedule_options options
              \<lparr>ds_timeZone = ''UTC'', ds_location = utc, ds_misfireGrace = DefaultMisfireGrace\<rparr> of
            Inl err \<Rightarrow> Inl err
          | Inr settings \<Rightarrow>
              (case parseCron parse expression (ds_location settings) of
                 Inl err \<Rightarrow> Inl err
               | Inr parsed \<Rightarrow>
                   (case definitionFingerprint marshal_input sha256 name (ce_canonical parsed) settings
                           (def_name target) (def_policy target) f of
                      Inl err \<Rightarrow> Inl err
                    | Inr fingerprint \<Rightarrow>
                        Inr \<lparr>sd_name = name, sd_expression = parsed, sd_timeZone = ds_timeZone settings,
                             sd_location = ds_location settings, sd_misfireGrace = ds_misfireGrace settings,
                             sd_jobName = def_name target, sd_policy = def_policy target,
                             sd_fingerprint = fingerprint,
                             sd_materialize = Some (schedule_dispatch target marshal build name)\<rparr>))))"

definition Definition_Next :: "location \<Rightarrow> ('x, 's) schedule_definition \<Rightarrow> time \<Rightarrow> time" where
  "Definition_Next utc d after = cron_next utc (sd_expression d) after"

definition Definition_occurrence :: "('x, 's) schedule_definition \<Rightarrow> time \<Rightarrow> occurrence result" where
  "Definition_occurrence d at =
     (if is_zero_time at \<or> at \<noteq> time_truncate at minute
      then Inl (Errorf ''schedule: occurrence must be a non-zero whole minute'' [])
      else Inr \<lparr>oc_Schedule = sd_name d, oc_ScheduledAt = at, oc_TimeZone = sd_timeZone d,
                oc_location = Some (sd_location d)\<rparr>)"

section \<open>The registry\<close>

type_synonym ('x, 's) schedule_registry = "(string, ('x, 's) schedule_definition) gomap"

definition Schedule_NewRegistry :: "('x, 's) schedule_registry" where
  "Schedule_NewRegistry = []"

definition Schedule_Register ::
    "('x, 's) schedule_definition \<Rightarrow> ('x, 's) schedule_registry option \<Rightarrow>
     unit result \<times> ('x, 's) schedule_registry option" where
  "Schedule_Register d registry =
     (case registry of
        None \<Rightarrow> (Inl (Errorf ''schedule: registry is required'' []), None)
      | Some definitions \<Rightarrow>
          if sd_name d = [] \<or> sd_materialize d = None
          then (Inl (Errorf ''schedule: valid definition is required'' []), registry)
          else if map_of definitions (sd_name d) \<noteq> None
          then (Inl (Errorf ''schedule: duplicate registration: %s'' [sd_name d]), registry)
          else (Inr (), Some (AList.update (sd_name d) d definitions)))"

definition Definitions :: "('x, 's) schedule_registry option \<Rightarrow> ('x, 's) schedule_definition list" where
  "Definitions registry =
     (case registry of None \<Rightarrow> [] | Some definitions \<Rightarrow> sort_key sd_name (map snd definitions))"

definition Schedule_Names :: "('x, 's) schedule_registry option \<Rightarrow> string list" where
  "Schedule_Names registry = map sd_name (Definitions registry)"

section \<open>The scheduler\<close>

text \<open>The state \<open>'t\<close> of a schedule store contains the state \<open>'s\<close> that the dispatch callback works on, which is
  the database of the current transaction.\<close>

record ('x, 's, 't) schedule_store =
  ss_Materialize :: "('x, 's) schedule_definition \<Rightarrow> ('x, 's) dispatch_callback option \<Rightarrow> call_env \<Rightarrow> 't \<Rightarrow>
     sched_result result \<times> job_event list \<times> 't"
  ss_List :: "('x, 's) schedule_definition list \<Rightarrow> 't \<Rightarrow> sched_status list result"

record scheduler_config =
  sf_PollInterval :: duration
  sf_OperationTimeout :: duration

record ('x, 's, 't) scheduler =
  sc_store :: "('x, 's, 't) schedule_store"
  sc_registry :: "('x, 's) schedule_registry"
  sc_dispatcher :: "('x, 's) dispatcher"
  sc_config :: scheduler_config

text \<open>The observer is absent (\<open>None\<close>) or an interface value that is nil inside or not.\<close>

definition NewScheduler ::
    "('x, 's, 't) schedule_store option \<Rightarrow> ('x, 's) schedule_registry option \<Rightarrow> bool option \<Rightarrow> ('x, 's) dispatcher \<Rightarrow>
     scheduler_config \<Rightarrow> ('x, 's, 't) scheduler result" where
  "NewScheduler store registry observer_nil dispatcher c0 =
     (case store of
        None \<Rightarrow> Inl (Errorf ''schedule: store is required'' [])
      | Some st \<Rightarrow>
     (case registry of
        None \<Rightarrow> Inl (Errorf ''schedule: registry is required'' [])
      | Some reg \<Rightarrow>
          if observer_nil = Some True then Inl (Errorf ''schedule: observer cannot be typed nil'' [])
          else (case Dispatcher_Validate dispatcher of
            Inl err \<Rightarrow> Inl (Wrapf ''schedule: dispatcher is required: %w'' [] err)
          | Inr _ \<Rightarrow>
              let poll = (if sf_PollInterval c0 = 0 then DefaultPollInterval else sf_PollInterval c0);
                  operation = (if sf_OperationTimeout c0 = 0 then DefaultOperationTimeout
                               else sf_OperationTimeout c0)
              in if poll < second \<or> poll > minute
                 then Inl (Errorf ''schedule: poll interval must be between 1s and 1m'' [])
                 else if operation < 100 * millisecond \<or> operation > minute
                 then Inl (Errorf ''schedule: operation timeout must be between 100ms and 1m'' [])
                 else Inr \<lparr>sc_store = st, sc_registry = reg, sc_dispatcher = dispatcher,
                           sc_config = \<lparr>sf_PollInterval = poll, sf_OperationTimeout = operation\<rparr>\<rparr>)))"

definition validateResult :: "('x, 's) schedule_definition \<Rightarrow> sched_result \<Rightarrow> unit result" where
  "validateResult d r =
     (if sr_Name r \<noteq> sd_name d
      then Inl (Errorf ''schedule: store returned result for %q while materializing %q'' [sr_Name r, sd_name d])
      else if sr_Outcome r \<in> {OutcomeNotDue, OutcomeMisfireSkipped, OutcomeContended}
      then (if \<not> is_zero_time (sr_ScheduledAt r) \<or> sr_JobID r \<noteq> []
            then Inl (Errorf ''schedule: %s result cannot contain an occurrence or job'' [outcome_text (sr_Outcome r)])
            else Inr ())
      else if sr_Outcome r \<in> {OutcomeEnqueued, OutcomeOverlapSuppressed}
      then (if sr_JobID r = [] \<or> is_zero_time (sr_ScheduledAt r)
               \<or> sr_ScheduledAt r \<noteq> time_truncate (sr_ScheduledAt r) minute \<or> \<not> sr_InUTC r
            then Inl (Errorf ''schedule: %s result requires a UTC whole-minute occurrence and job id''
                    [outcome_text (sr_Outcome r)])
            else Inr ())
      else Inl (Errorf ''schedule: store returned invalid outcome %q'' [outcome_text (sr_Outcome r)]))"

record sched_event =
  se_Name :: string
  se_Outcome :: outcome
  se_ScheduledAt :: time
  se_JobID :: string
  se_At :: time

definition scheduler_callback ::
    "('x, 's) dispatcher \<Rightarrow> ('x, 's) schedule_definition \<Rightarrow> ('x, 's) dispatch_callback" where
  "scheduler_callback dispatcher d executor raw cx s =
     (case Definition_occurrence d (oc_ScheduledAt raw) of
        Inl err \<Rightarrow> (Inl err, [], s)
      | Inr oc \<Rightarrow> the (sd_materialize d) dispatcher executor oc cx s)"

text \<open>The loop of \<open>RunOnce\<close> over the definitions, each with the readings its callback makes: the results so
  far, the error that ended the loop, and the schedule events and job events emitted.\<close>

fun run_definitions ::
    "('x, 's, 't) schedule_store \<Rightarrow> ('x, 's) dispatcher \<Rightarrow> (nat \<Rightarrow> call_env) \<Rightarrow> nat \<Rightarrow> ('x, 's) schedule_definition list \<Rightarrow> 't \<Rightarrow>
     sched_result list \<times> goerr option \<times> sched_event list \<times> job_event list \<times> 't" where
  "run_definitions S dispatcher cx i [] s = ([], None, [], [], s)"
| "run_definitions S dispatcher cx i (d # ds) s =
     (case ss_Materialize S d (Some (scheduler_callback dispatcher d)) (cx i) s of
        (Inl err, jevs, s1) \<Rightarrow> ([], Some (Wrapf ''schedule: materialize %s: %w'' [sd_name d] err), [], jevs, s1)
      | (Inr r, jevs, s1) \<Rightarrow>
          (case validateResult d r of
             Inl err \<Rightarrow> ([], Some err, [], jevs, s1)
           | Inr _ \<Rightarrow>
               (case run_definitions S dispatcher cx (Suc i) ds s1 of
                  (rs, err, evs, jevs', s2) \<Rightarrow>
                    if sr_Outcome r \<noteq> OutcomeNotDue
                    then (r # rs, err,
                          \<lparr>se_Name = sr_Name r, se_Outcome = sr_Outcome r, se_ScheduledAt = sr_ScheduledAt r,
                           se_JobID = sr_JobID r, se_At = cx_now (cx i)\<rparr> # evs, jevs @ jevs', s2)
                    else (rs, err, evs, jevs @ jevs', s2))))"

definition RunOnce ::
    "('x, 's, 't) scheduler option \<Rightarrow> goerr option \<Rightarrow> (nat \<Rightarrow> call_env) \<Rightarrow> 't \<Rightarrow>
     sched_result list \<times> goerr option \<times> sched_event list \<times> job_event list \<times> 't" where
  "RunOnce sc ctxErr cx s =
     (case sc of
        None \<Rightarrow> ([], Some (Errorf ''schedule: scheduler is required'' []), [], [], s)
      | Some c \<Rightarrow>
          (case ctxErr of
             Some err \<Rightarrow> ([], Some err, [], [], s)
           | None \<Rightarrow> run_definitions (sc_store c) (sc_dispatcher c) cx 0 (Definitions (Some (sc_registry c))) s))"

text \<open>An iteration of \<open>Run\<close>: the error of its context when \<open>RunOnce\<close> looks at it, and again after an error;
  and whether the context, and not the timer, ends the wait.\<close>

record poll =
  po_ctxErr :: "goerr option"
  po_ctxErrAfter :: "goerr option"
  po_cx :: "nat \<Rightarrow> call_env"
  po_done :: bool

fun Scheduler_Run :: "('x, 's, 't) scheduler option \<Rightarrow> poll list \<Rightarrow> 't \<Rightarrow> goerr option option \<times> 't" where
  "Scheduler_Run None ps s = (Some (Some (Errorf ''schedule: scheduler is required'' [])), s)"
| "Scheduler_Run (Some c) [] s = (None, s)"
| "Scheduler_Run (Some c) (p # ps) s =
     (case RunOnce (Some c) (po_ctxErr p) (po_cx p) s of
        (rs, Some err, evs, jevs, s1) \<Rightarrow>
          (Some (if po_ctxErrAfter p \<noteq> None then None else Some err), s1)
      | (rs, None, evs, jevs, s1) \<Rightarrow>
          if po_done p then (Some None, s1) else Scheduler_Run (Some c) ps s1)"

end
