(* ===== verification/Database.thy ===== *)
theory Database
  imports Go_Prelude
begin

text \<open>
  The transaction helper (\<^verbatim>\<open>src/database/transaction.go\<close>). The work is a function on the database that
  returns its result and the state it leaves inside the transaction. Starting the transaction may fail; a
  failed commit may or may not have been applied by the server. A failing rollback only adds its text to the
  error and is not modelled, nor is a panic of the work, which rolls back and goes on.
\<close>

definition Transaction ::
    "goerr option \<Rightarrow> (goerr \<times> bool) option \<Rightarrow> ('d \<Rightarrow> 'a result \<times> 'd) \<Rightarrow> 'd \<Rightarrow> 'a result \<times> 'd" where
  "Transaction begin_error commit_error work db =
     (case begin_error of
        Some err \<Rightarrow> (Inl (Wrapf ''begin transaction: %w'' [] err), db)
      | None \<Rightarrow>
          (case work db of
             (Inl err, db') \<Rightarrow> (Inl err, db)
           | (Inr x, db') \<Rightarrow>
               (case commit_error of
                  Some (err, applied) \<Rightarrow>
                    (Inl (Wrapf ''commit transaction: %w'' [] err), if applied then db' else db)
                | None \<Rightarrow> (Inr x, db'))))"

lemma Transaction_cases:
  assumes "Transaction begin_error commit_error work db = (r, db')"
  obtains (refused) e where "r = Inl e" "db' = db"
  | (ambiguous) x e where "work db = (Inr x, db')" "r = Inl e" "\<exists>err. commit_error = Some (err, True)"
  | (committed) x where "work db = (Inr x, db')" "r = Inr x" "commit_error = None"
proof -
  obtain r1 db1 where work: "work db = (r1, db1)" by (cases "work db")
  show ?thesis
  proof (cases "begin_error = None \<and> is_ok r1")
    case True
    then obtain x where "r1 = Inr x" by (auto simp: is_ok_iff)
    with True work assms committed ambiguous refused show ?thesis
      by (cases commit_error) (auto simp: Transaction_def split: if_splits)
  next
    case False
    with work assms have "(\<exists>e. r = Inl e) \<and> db' = db"
      by (auto simp: Transaction_def is_ok_iff split: option.splits sum.splits)
    then show ?thesis using refused by blast
  qed
qed

end
