(* ===== verification/Schedule_Store.thy ===== *)
theory Schedule_Store
  imports Schedule Job_Store Database
begin

text \<open>
  The PostgreSQL schedule store (\<^verbatim>\<open>src/schedule/postgres/store.go\<close>, \<^verbatim>\<open>postgres.go\<close>, \<^verbatim>\<open>schema.go\<close>). The table
  is a list of rows, a statement is a function on it, and the database of a transaction is the table together
  with the state \<open>'s\<close> that the dispatch callback changes in the same transaction. The environment of a call says
  which statements fail, which rows other transactions hold locked (the row lock skips them), whether another
  transaction inserts the row meanwhile, and what the clock of the database reads. Timestamps have the
  microsecond resolution of the clock and whole minutes, so that storing them is exact. The formatted time in
  the text of a dispatch error is left out.
\<close>

section \<open>Construction\<close>

type_synonym schedule_pg_option = "(string \<Rightarrow> string result) option"

definition WithTable :: "string \<Rightarrow> schedule_pg_option" where
  "WithTable table = Some (\<lambda>_. if \<not> validIdentifier table
     then Inl (Errorf ''schedule/postgres: invalid table name %q'' [table]) else Inr table)"

fun apply_table_options :: "schedule_pg_option list \<Rightarrow> string \<Rightarrow> string result" where
  "apply_table_options [] table = Inr table"
| "apply_table_options (None # os) table = Inl (Errorf ''schedule/postgres: nil option'' [])"
| "apply_table_options (Some f # os) table =
     (case f table of Inl err \<Rightarrow> Inl err | Inr table' \<Rightarrow> apply_table_options os table')"

definition Schedule_PG_New :: "bool \<Rightarrow> schedule_pg_option list \<Rightarrow> string result" where
  "Schedule_PG_New db_nil options =
     (if db_nil then Inl (Errorf ''schedule/postgres: database is required'' [])
      else case apply_table_options options ''goforge_schedules'' of
        Inl err \<Rightarrow> Inl err
      | Inr table \<Rightarrow> Inr (quote table))"

section \<open>The table\<close>

record durable_schedule =
  dr_name :: string
  dr_fingerprint :: string
  dr_expression :: string
  dr_timeZone :: string
  dr_jobName :: string
  dr_queue :: string
  dr_graceMS :: int
  dr_overlapPolicy :: string
  dr_nextRunAt :: time
  dr_lastEvaluatedAt :: "time option"
  dr_lastCursorAt :: "time option"
  dr_lastOccurrenceAt :: "time option"
  dr_lastJobID :: "string option"
  dr_lastOutcome :: "string option"
  dr_createdAt :: time
  dr_updatedAt :: time

definition fingerprint_ok :: "string \<Rightarrow> bool" where
  "fingerprint_ok s \<longleftrightarrow> length s = 64 \<and> list_all (in_cls [(CHR ''0'', CHR ''9''), (CHR ''a'', CHR ''f'')]) s"

definition schedules_check :: "durable_schedule \<Rightarrow> bool" where
  "schedules_check r \<longleftrightarrow>
     1 \<le> length (dr_name r) \<and> length (dr_name r) \<le> 128 \<and> rmatch versioned_name_rexp (dr_name r)
     \<and> fingerprint_ok (dr_fingerprint r)
     \<and> 1 \<le> length (dr_expression r) \<and> length (dr_expression r) \<le> 256
     \<and> 1 \<le> length (dr_timeZone r) \<and> length (dr_timeZone r) \<le> 128
     \<and> 1 \<le> length (dr_jobName r) \<and> length (dr_jobName r) \<le> 128 \<and> rmatch versioned_name_rexp (dr_jobName r)
     \<and> 1 \<le> length (dr_queue r) \<and> length (dr_queue r) \<le> 64 \<and> rmatch queue_rexp (dr_queue r)
     \<and> 60000 \<le> dr_graceMS r \<and> dr_graceMS r \<le> 31536000000 \<and> dr_overlapPolicy r = ''forbid''
     \<and> (case dr_lastJobID r of Some i \<Rightarrow> 1 \<le> length i \<and> length i \<le> 1024 | None \<Rightarrow> True)
     \<and> dr_updatedAt r \<ge> dr_createdAt r
     \<and> (case dr_lastOutcome r of
          None \<Rightarrow> dr_lastEvaluatedAt r = None \<and> dr_lastCursorAt r = None \<and> dr_lastOccurrenceAt r = None
                  \<and> dr_lastJobID r = None
        | Some o' \<Rightarrow>
            dr_lastEvaluatedAt r \<noteq> None \<and> dr_lastCursorAt r \<noteq> None
            \<and> (if o' = ''misfire_skipped'' then dr_lastOccurrenceAt r = None \<and> dr_lastJobID r = None
               else o' \<in> {''enqueued'', ''overlap_suppressed''}
                 \<and> dr_lastOccurrenceAt r \<noteq> None \<and> dr_lastJobID r \<noteq> None))"

definition stored_grace :: "durable_schedule \<Rightarrow> duration" where
  "stored_grace r = wrap64 (dr_graceMS r * millisecond)"

record 's sched_db =
  sdb_rows :: "durable_schedule list"
  sdb_jobs :: 's

text \<open>\<open>te_query\<close> gives the error of the statement with that number, in the order of the code.\<close>

record tx_env =
  te_ctxErr :: "goerr option"
  te_begin :: "goerr option"
  te_commit :: "(goerr \<times> bool) option"
  te_query :: "nat \<Rightarrow> goerr option"
  te_locked :: "string list"
  te_inserted :: "durable_schedule option"
  te_lockedAfter :: "string list"
  te_initClock :: time
  te_clock :: time

section \<open>Validation and statements\<close>

definition sched_validateDefinition :: "('x, 's) schedule_definition \<Rightarrow> unit result" where
  "sched_validateDefinition d =
     (if length (sd_name d) = 0 \<or> length (sd_name d) > ScheduleMaxNameBytes \<or> \<not> rmatch versioned_name_rexp (sd_name d)
      then Inl (Errorf ''schedule/postgres: valid definition is required'' [])
      else if length (ce_canonical (sd_expression d)) = 0 \<or> length (ce_canonical (sd_expression d)) > 256
         \<or> length (sd_timeZone d) = 0 \<or> length (sd_timeZone d) > 128
         \<or> length (sd_jobName d) = 0 \<or> length (sd_jobName d) > MaxNameBytes \<or> \<not> rmatch versioned_name_rexp (sd_jobName d)
         \<or> length (pol_Queue (sd_policy d)) = 0 \<or> length (pol_Queue (sd_policy d)) > MaxQueueBytes
         \<or> \<not> rmatch queue_rexp (pol_Queue (sd_policy d))
         \<or> \<not> fingerprint_ok (sd_fingerprint d)
         \<or> sd_misfireGrace d < minute \<or> sd_misfireGrace d > 365 * 24 * hour \<or> sd_misfireGrace d smod minute \<noteq> 0
      then Inl (Errorf ''schedule/postgres: invalid durable definition %s'' [sd_name d])
      else Inr ())"

definition sched_find :: "durable_schedule list \<Rightarrow> string \<Rightarrow> durable_schedule option" where
  "sched_find rows name = find (\<lambda>r. dr_name r = name) rows"

definition Store_lock ::
    "goerr option \<Rightarrow> string list \<Rightarrow> durable_schedule list \<Rightarrow> string \<Rightarrow> durable_schedule option result" where
  "Store_lock failure locked rows name =
     (case failure of
        Some err \<Rightarrow> Inl (Wrapf ''schedule/postgres: find %s: %w'' [name] err)
      | None \<Rightarrow> Inr (if name \<in> set locked then None else sched_find rows name))"

definition Store_exists :: "goerr option \<Rightarrow> durable_schedule list \<Rightarrow> string \<Rightarrow> bool result" where
  "Store_exists failure rows name =
     (case failure of
        Some err \<Rightarrow> Inl (Wrapf ''schedule/postgres: inspect contention for %s: %w'' [name] err)
      | None \<Rightarrow> Inr (sched_find rows name \<noteq> None))"

definition databaseClock :: "goerr option \<Rightarrow> time \<Rightarrow> time result" where
  "databaseClock failure now =
     (case failure of
        Some err \<Rightarrow> Inl (Wrapf ''schedule/postgres: read database clock: %w'' [] err)
      | None \<Rightarrow> Inr now)"

definition nextAfter :: "string \<Rightarrow> (time \<Rightarrow> time) \<Rightarrow> time \<Rightarrow> time result" where
  "nextAfter name nextf after =
     (let following = nextf after in
      if is_zero_time following \<or> \<not> following > after \<or> following \<noteq> time_truncate following minute
      then Inl (Errorf ''schedule/postgres: %s returned an invalid next occurrence'' [name])
      else Inr following)"

definition initial_cursor :: "string \<Rightarrow> (time \<Rightarrow> time) \<Rightarrow> time \<Rightarrow> time result" where
  "initial_cursor name nextf now =
     (let currentMinute = time_truncate now minute;
          cursor = nextf (currentMinute - 1)
      in if is_zero_time cursor \<or> cursor \<noteq> time_truncate cursor minute \<or> cursor < currentMinute
         then Inl (Errorf ''schedule/postgres: %s returned an invalid initialization occurrence'' [name])
         else if cursor \<noteq> currentMinute then nextAfter name nextf now else Inr cursor)"

definition initial_row :: "('x, 's) schedule_definition \<Rightarrow> time \<Rightarrow> time \<Rightarrow> durable_schedule" where
  "initial_row d cursor now =
     \<lparr>dr_name = sd_name d, dr_fingerprint = sd_fingerprint d, dr_expression = ce_canonical (sd_expression d),
      dr_timeZone = sd_timeZone d, dr_jobName = sd_jobName d, dr_queue = pol_Queue (sd_policy d),
      dr_graceMS = milliseconds (sd_misfireGrace d), dr_overlapPolicy = scheduleOverlapPolicy, dr_nextRunAt = cursor,
      dr_lastEvaluatedAt = None, dr_lastCursorAt = None, dr_lastOccurrenceAt = None, dr_lastJobID = None,
      dr_lastOutcome = None, dr_createdAt = now, dr_updatedAt = now\<rparr>"

text \<open>The rows that the insertion sees: a concurrent insertion of the same name has been committed by then.\<close>

definition seen_rows :: "tx_env \<Rightarrow> string \<Rightarrow> durable_schedule list \<Rightarrow> durable_schedule list" where
  "seen_rows env name rows =
     (case te_inserted env of
        Some r \<Rightarrow> if dr_name r = name \<and> sched_find rows name = None then rows @ [r] else rows
      | None \<Rightarrow> rows)"

definition Store_initialize ::
    "tx_env \<Rightarrow> (time \<Rightarrow> time) \<Rightarrow> ('x, 's) schedule_definition \<Rightarrow> durable_schedule list \<Rightarrow> durable_schedule list result" where
  "Store_initialize env nextf d rows =
     (case databaseClock (te_query env 2) (te_initClock env) of
        Inl err \<Rightarrow> Inl err
      | Inr now \<Rightarrow>
          (case initial_cursor (sd_name d) nextf now of
             Inl err \<Rightarrow> Inl err
           | Inr cursor \<Rightarrow>
               let seen = seen_rows env (sd_name d) rows in
               (case te_query env 3 of
                  Some err \<Rightarrow> Inl (Wrapf ''schedule/postgres: initialize %s: %w'' [sd_name d] err)
                | None \<Rightarrow>
                    if sched_find seen (sd_name d) \<noteq> None then Inr seen
                    else if \<not> schedules_check (initial_row d cursor now)
                    then Inl (Wrapf ''schedule/postgres: initialize %s: %w'' [sd_name d] pg_check_violation)
                    else Inr (seen @ [initial_row d cursor now]))))"

definition stored_matches :: "('x, 's) schedule_definition \<Rightarrow> durable_schedule \<Rightarrow> unit result" where
  "stored_matches d r =
     (if dr_fingerprint r \<noteq> sd_fingerprint d \<or> dr_expression r \<noteq> ce_canonical (sd_expression d)
         \<or> dr_timeZone r \<noteq> sd_timeZone d \<or> dr_jobName r \<noteq> sd_jobName d \<or> dr_queue r \<noteq> pol_Queue (sd_policy d)
         \<or> stored_grace r \<noteq> sd_misfireGrace d \<or> dr_overlapPolicy r \<noteq> scheduleOverlapPolicy
      then Inl (Wrapf ''%w: %s stores fingerprint %s, code has %s''
              [sd_name d, dr_fingerprint r, sd_fingerprint d] ErrDefinitionConflict)
      else Inr ())"

section \<open>Selecting an occurrence\<close>

text \<open>The binary search over the minutes of the window; the value is the last minute whose next occurrence
  lies in the window, or -1.\<close>

function search_minutes ::
    "(time \<Rightarrow> time) \<Rightarrow> time \<Rightarrow> time \<Rightarrow> int \<Rightarrow> int \<Rightarrow> int \<Rightarrow> int result" where
  "search_minutes nextf lower stop low high best =
     (if low \<le> high
      then let middle = low + (high - low) sdiv 2;
               candidate = lower + wrap64 (middle * minute);
               found = nextf (candidate - 1)
           in if is_zero_time found then search_minutes nextf lower stop low (middle - 1) best
              else if found < candidate \<or> found \<noteq> time_truncate found minute
              then Inl (Errorf ''next occurrence is not a monotone whole UTC minute'' [])
              else if found > stop then search_minutes nextf lower stop low (middle - 1) best
              else search_minutes nextf lower stop (middle + 1) high middle
      else Inr best)"
  by pat_completeness auto
termination
  by (relation "measure (\<lambda>(n, l, s, low, high, b). nat (high + 1 - low))") (auto simp: nonneg_sdiv)

declare search_minutes.simps [simp del]

definition latestOccurrence :: "(time \<Rightarrow> time) option \<Rightarrow> time \<Rightarrow> time \<Rightarrow> time option result" where
  "latestOccurrence next_opt start stop =
     (case next_opt of
        None \<Rightarrow> Inl (Errorf ''invalid occurrence search'' [])
      | Some nextf \<Rightarrow>
          if is_zero_time start \<or> is_zero_time stop \<or> start > stop
          then Inl (Errorf ''invalid occurrence search'' [])
          else let truncated = time_truncate start minute;
                   lower = (if truncated < start then truncated + minute else truncated);
                   upper = time_truncate stop minute
               in if lower > upper then Inr None
                  else let minutes = time_sub upper lower sdiv minute in
                  (case search_minutes nextf lower stop 0 minutes (- 1) of
                     Inl err \<Rightarrow> Inl err
                   | Inr best \<Rightarrow>
                       if best < 0 then Inr None
                       else let candidate = lower + wrap64 (best * minute); found = nextf (candidate - 1) in
                       if is_zero_time found \<or> found < start \<or> found > stop \<or> found < candidate
                          \<or> found \<noteq> time_truncate found minute
                       then Inl (Errorf ''next occurrence failed final inclusive-window validation'' [])
                       else Inr (Some found)))"

section \<open>Materialize\<close>

definition advanced_row ::
    "durable_schedule \<Rightarrow> time \<Rightarrow> time \<Rightarrow> time \<Rightarrow> string \<Rightarrow> outcome \<Rightarrow> durable_schedule \<Rightarrow> durable_schedule" where
  "advanced_row stored nextRunAt evaluatedAt occurrenceAt jobID out r =
     r\<lparr>dr_nextRunAt := nextRunAt, dr_lastEvaluatedAt := Some evaluatedAt, dr_lastCursorAt := Some (dr_nextRunAt stored),
       dr_lastOccurrenceAt := (if is_zero_time occurrenceAt then None else Some occurrenceAt),
       dr_lastJobID := (if jobID = [] then None else Some jobID), dr_lastOutcome := Some (outcome_text out),
       dr_updatedAt := evaluatedAt\<rparr>"

definition Store_advance ::
    "goerr option \<Rightarrow> goerr option \<Rightarrow> durable_schedule \<Rightarrow> time \<Rightarrow> time \<Rightarrow> time \<Rightarrow> string \<Rightarrow> outcome \<Rightarrow>
     durable_schedule list \<Rightarrow> durable_schedule list result" where
  "Store_advance failure unconfirmed stored nextRunAt evaluatedAt occurrenceAt jobID out rows =
     (let selected = (\<lambda>r. dr_name r = dr_name stored \<and> dr_fingerprint r = dr_fingerprint stored
                        \<and> dr_nextRunAt r = dr_nextRunAt stored);
          update = advanced_row stored nextRunAt evaluatedAt occurrenceAt jobID out
      in case failure of
           Some err \<Rightarrow> Inl (Wrapf ''schedule/postgres: advance %s: %w'' [dr_name stored] err)
         | None \<Rightarrow>
             if \<not> pg_text_ok jobID
             then Inl (Wrapf ''schedule/postgres: advance %s: %w'' [dr_name stored] pg_bad_parameter)
             else if \<exists>r \<in> set rows. selected r \<and> \<not> schedules_check (update r)
             then Inl (Wrapf ''schedule/postgres: advance %s: %w'' [dr_name stored] pg_check_violation)
             else (case unconfirmed of
               Some err \<Rightarrow> Inl (Wrapf ''schedule/postgres: confirm advance %s: %w'' [dr_name stored] err)
             | None \<Rightarrow>
                 let affected = length (filter selected rows) in
                 if affected \<noteq> 1
                 then Inl (Errorf ''schedule/postgres: advance %s affected %d rows'' [dr_name stored, Itoa (int affected)])
                 else Inr (map (\<lambda>r. if selected r then update r else r) rows)))"

text \<open>The row of the definition, locked and initialized when it is new; \<open>None\<close> when another transaction has it.\<close>

definition locked_row ::
    "tx_env \<Rightarrow> (time \<Rightarrow> time) \<Rightarrow> ('x, 's) schedule_definition \<Rightarrow> durable_schedule list \<Rightarrow>
     (durable_schedule option \<times> durable_schedule list) result" where
  "locked_row env nextf d rows =
     (case Store_lock (te_query env 0) (te_locked env) rows (sd_name d) of
        Inl err \<Rightarrow> Inl err
      | Inr (Some stored) \<Rightarrow> Inr (Some stored, rows)
      | Inr None \<Rightarrow>
          (case Store_exists (te_query env 1) rows (sd_name d) of
             Inl err \<Rightarrow> Inl err
           | Inr present \<Rightarrow>
               if present then Inr (None, rows)
               else (case Store_initialize env nextf d rows of
                       Inl err \<Rightarrow> Inl err
                     | Inr rows1 \<Rightarrow>
                         (case Store_lock (te_query env 4) (te_lockedAfter env) rows1 (sd_name d) of
                            Inl err \<Rightarrow> Inl err
                          | Inr stored \<Rightarrow> Inr (stored, rows1)))))"

definition plain_result :: "('x, 's) schedule_definition \<Rightarrow> outcome \<Rightarrow> sched_result" where
  "plain_result d out = \<lparr>sr_Name = sd_name d, sr_Outcome = out, sr_ScheduledAt = 0, sr_InUTC = True, sr_JobID = []\<rparr>"

text \<open>The work of the transaction, after the row is locked: evaluate the cursor at the time of the database.\<close>

definition evaluate_row ::
    "tx_env \<Rightarrow> (time \<Rightarrow> time) \<Rightarrow> ('x, 's) schedule_definition \<Rightarrow> 'x \<Rightarrow> ('x, 's) dispatch_callback \<Rightarrow> call_env \<Rightarrow>
     durable_schedule \<Rightarrow> 's sched_db \<Rightarrow> sched_result result \<times> job_event list \<times> 's sched_db" where
  "evaluate_row env nextf d tx callback cx stored db =
     (case databaseClock (te_query env 5) (te_clock env) of
        Inl err \<Rightarrow> (Inl err, [], db)
      | Inr now \<Rightarrow>
          if dr_nextRunAt stored > now then (Inr (plain_result d OutcomeNotDue), [], db)
          else (case nextAfter (sd_name d) nextf now of
            Inl err \<Rightarrow> (Inl err, [], db)
          | Inr nextRunAt \<Rightarrow>
              let graceStart = now - sd_misfireGrace d;
                  windowStart = (if dr_nextRunAt stored > graceStart then dr_nextRunAt stored else graceStart)
              in case latestOccurrence (Some nextf) windowStart now of
                Inl err \<Rightarrow> (Inl (Wrapf ''schedule/postgres: select occurrence for %s: %w'' [sd_name d] err), [], db)
              | Inr None \<Rightarrow>
                  (case Store_advance (te_query env 6) (te_query env 7) stored nextRunAt now 0 [] OutcomeMisfireSkipped
                          (sdb_rows db) of
                     Inl err \<Rightarrow> (Inl err, [], db)
                   | Inr rows \<Rightarrow> (Inr (plain_result d OutcomeMisfireSkipped), [], db\<lparr>sdb_rows := rows\<rparr>))
              | Inr (Some occurrenceAt) \<Rightarrow>
                  (case callback tx \<lparr>oc_Schedule = [], oc_ScheduledAt = occurrenceAt, oc_TimeZone = [], oc_location = None\<rparr>
                          cx (sdb_jobs db) of
                     (Inl err, evs, jobs) \<Rightarrow>
                       (Inl (Wrapf ''schedule/postgres: dispatch %s at %s: %w'' [sd_name d] err), evs, db\<lparr>sdb_jobs := jobs\<rparr>)
                   | (Inr dispatched, evs, jobs) \<Rightarrow>
                       if dr_ID dispatched = [] \<or> length (dr_ID dispatched) > 1024
                       then (Inl (Errorf ''schedule/postgres: dispatch %s returned an invalid job id'' [sd_name d]), evs,
                             db\<lparr>sdb_jobs := jobs\<rparr>)
                       else let out = (if dr_Enqueued dispatched then OutcomeEnqueued else OutcomeOverlapSuppressed) in
                       (case Store_advance (te_query env 6) (te_query env 7) stored nextRunAt now occurrenceAt
                               (dr_ID dispatched) out (sdb_rows db) of
                          Inl err \<Rightarrow> (Inl err, evs, db\<lparr>sdb_jobs := jobs\<rparr>)
                        | Inr rows \<Rightarrow>
                            (Inr \<lparr>sr_Name = sd_name d, sr_Outcome = out, sr_ScheduledAt = occurrenceAt, sr_InUTC = True,
                                  sr_JobID = dr_ID dispatched\<rparr>, evs, db\<lparr>sdb_rows := rows, sdb_jobs := jobs\<rparr>)))))"

definition materialize_work ::
    "tx_env \<Rightarrow> (time \<Rightarrow> time) \<Rightarrow> ('x, 's) schedule_definition \<Rightarrow> 'x \<Rightarrow> ('x, 's) dispatch_callback \<Rightarrow> call_env \<Rightarrow>
     's sched_db \<Rightarrow> sched_result result \<times> job_event list \<times> 's sched_db" where
  "materialize_work env nextf d tx callback cx db =
     (case locked_row env nextf d (sdb_rows db) of
        Inl err \<Rightarrow> (Inl err, [], db)
      | Inr (None, rows) \<Rightarrow> (Inr (plain_result d OutcomeContended), [], db\<lparr>sdb_rows := rows\<rparr>)
      | Inr (Some stored, rows) \<Rightarrow>
          (case stored_matches d stored of
             Inl err \<Rightarrow> (Inl err, [], db)
           | Inr _ \<Rightarrow> evaluate_row env nextf d tx callback cx stored (db\<lparr>sdb_rows := rows\<rparr>)))"

definition Materialize ::
    "location \<Rightarrow> tx_env \<Rightarrow> 'x \<Rightarrow> ('x, 's) schedule_definition \<Rightarrow> ('x, 's) dispatch_callback option \<Rightarrow> call_env \<Rightarrow>
     's sched_db \<Rightarrow> sched_result result \<times> job_event list \<times> 's sched_db" where
  "Materialize utc env tx d callback cx db =
     (case sched_validateDefinition d of
        Inl err \<Rightarrow> (Inl err, [], db)
      | Inr _ \<Rightarrow>
          (case callback of
             None \<Rightarrow> (Inl (Errorf ''schedule/postgres: materialize callback is required'' []), [], db)
           | Some f \<Rightarrow>
               (case te_ctxErr env of
                  Some err \<Rightarrow> (Inl err, [], db)
                | None \<Rightarrow>
                    let work = materialize_work env (Definition_Next utc d) d tx f cx;
                        evs = (if te_begin env = None then fst (snd (work db)) else []) in
                    (case Transaction (te_begin env) (te_commit env) (\<lambda>db. (fst (work db), snd (snd (work db)))) db of
                       (r, db') \<Rightarrow> (r, evs, db')))))"

section \<open>List\<close>

definition statusFromDefinition :: "('x, 's) schedule_definition \<Rightarrow> sched_status" where
  "statusFromDefinition d =
     \<lparr>sg_Name = sd_name d, sg_Expression = ce_canonical (sd_expression d), sg_TimeZone = sd_timeZone d,
      sg_JobName = sd_jobName d, sg_Queue = pol_Queue (sd_policy d), sg_MisfireGrace = sd_misfireGrace d,
      sg_Fingerprint = sd_fingerprint d, sg_NextRunAt = 0, sg_LastEvaluatedAt = None, sg_LastCursorAt = None,
      sg_LastOccurrenceAt = None, sg_LastJobID = [], sg_LastOutcome = [], sg_CreatedAt = None, sg_UpdatedAt = None\<rparr>"

definition timePointer :: "time \<Rightarrow> time option" where
  "timePointer t = (if is_zero_time t then None else Some t)"

definition stored_status :: "('x, 's) schedule_definition \<Rightarrow> durable_schedule \<Rightarrow> sched_status" where
  "stored_status d r =
     (statusFromDefinition d)\<lparr>sg_NextRunAt := dr_nextRunAt r, sg_LastEvaluatedAt := dr_lastEvaluatedAt r,
        sg_LastCursorAt := dr_lastCursorAt r, sg_LastOccurrenceAt := dr_lastOccurrenceAt r,
        sg_LastJobID := (case dr_lastJobID r of Some i \<Rightarrow> i | None \<Rightarrow> []),
        sg_LastOutcome := (case dr_lastOutcome r of Some x \<Rightarrow> x | None \<Rightarrow> []),
        sg_CreatedAt := timePointer (dr_createdAt r), sg_UpdatedAt := timePointer (dr_updatedAt r)\<rparr>"

fun list_statuses ::
    "(nat \<Rightarrow> goerr option) \<Rightarrow> string list \<Rightarrow> ('x, 's) schedule_definition list \<Rightarrow> durable_schedule list \<Rightarrow>
     sched_status list result" where
  "list_statuses failure seen [] rows = Inr []"
| "list_statuses failure seen (d # ds) rows =
     (case sched_validateDefinition d of
        Inl err \<Rightarrow> Inl err
      | Inr _ \<Rightarrow>
          if sd_name d \<in> set seen then Inl (Errorf ''schedule/postgres: duplicate definition %s'' [sd_name d])
          else (case Store_lock (failure (length seen)) [] rows (sd_name d) of
            Inl err \<Rightarrow> Inl err
          | Inr stored \<Rightarrow>
              (case (case stored of None \<Rightarrow> Inr (statusFromDefinition d)
                     | Some r \<Rightarrow> (case stored_matches d r of Inl err \<Rightarrow> Inl err | Inr _ \<Rightarrow> Inr (stored_status d r))) of
                 Inl err \<Rightarrow> Inl err
               | Inr status \<Rightarrow>
                   (case list_statuses failure (sd_name d # seen) ds rows of
                      Inl err \<Rightarrow> Inl err
                    | Inr rest \<Rightarrow> Inr (status # rest)))))"

definition Schedule_List ::
    "goerr option \<Rightarrow> (nat \<Rightarrow> goerr option) \<Rightarrow> ('x, 's) schedule_definition list \<Rightarrow> 's sched_db \<Rightarrow> sched_status list result" where
  "Schedule_List ctxErr failure definitions db =
     (case ctxErr of
        Some err \<Rightarrow> Inl err
      | None \<Rightarrow> list_statuses failure [] (sort_key sd_name definitions) (sdb_rows db))"

text \<open>The store as the methods of the interface \<open>schedule.Store\<close>. Its state has, besides the database, the
  environments of the calls to come.\<close>

definition pg_schedule_store ::
    "location \<Rightarrow> 'x \<Rightarrow> ('x, 's, (nat \<Rightarrow> tx_env) \<times> 's sched_db) schedule_store" where
  "pg_schedule_store utc tx =
     \<lparr>ss_Materialize = (\<lambda>d cb cx s. case Materialize utc (fst s 0) tx d cb cx (snd s) of
        (r, evs, db) \<Rightarrow> (r, evs, (fst s \<circ> Suc, db))),
      ss_List = (\<lambda>ds s. Schedule_List (te_ctxErr (fst s 0)) (te_query (fst s 0)) ds (snd s))\<rparr>"

end
