(* ===== verification/Schedule_Props.thy ===== *)
theory Schedule_Props
  imports Schedule_Store
begin

text \<open>
  What the schedule store shows: the binary search finds the latest due occurrence, a call of \<open>Materialize\<close>
  dispatches that occurrence or nothing, no occurrence is dispatched twice, and every result is one that the
  scheduler accepts. The occurrences of a schedule are a predicate on instants; \<open>next_law\<close> is what the search
  for the next one promises, which \<open>cron_next_law\<close> derives from the laws of the cron library.
\<close>

section \<open>The latest occurrence in a window\<close>

definition next_law :: "(time \<Rightarrow> bool) \<Rightarrow> (time \<Rightarrow> time) \<Rightarrow> bool" where
  "next_law occurs nextf \<longleftrightarrow> (\<forall>x. occurs x \<longrightarrow> minute dvd x \<and> x \<noteq> 0)
     \<and> (\<forall>t. nextf t = 0 \<and> (\<forall>x. occurs x \<longrightarrow> x \<le> t) \<or> first_after occurs t (nextf t))"

lemma next_law_minute: "next_law occurs nextf \<Longrightarrow> occurs x \<Longrightarrow> minute dvd x"
  and next_law_nonzero: "next_law occurs nextf \<Longrightarrow> occurs x \<Longrightarrow> x \<noteq> 0"
  by (simp_all add: next_law_def)

lemma next_law_cases:
  assumes "next_law occurs nextf"
  obtains (none) "nextf t = 0" "\<And>x. occurs x \<Longrightarrow> x \<le> t"
  | (some) "nextf t \<noteq> 0" "occurs (nextf t)" "t < nextf t" "\<And>x. occurs x \<Longrightarrow> t < x \<Longrightarrow> nextf t \<le> x"
      "time_truncate (nextf t) minute = nextf t"
proof (cases "nextf t = 0 \<and> (\<forall>x. occurs x \<longrightarrow> x \<le> t)")
  case True
  then show ?thesis using none by blast
next
  case False
  then have "first_after occurs t (nextf t)" using assms unfolding next_law_def by blast
  then show ?thesis
    using some next_law_minute [OF assms] next_law_nonzero [OF assms]
    unfolding first_after_def by (simp add: time_truncate_eq_iff)
qed

definition hit :: "(time \<Rightarrow> bool) \<Rightarrow> time \<Rightarrow> time \<Rightarrow> int \<Rightarrow> bool" where
  "hit occurs lower stop m \<longleftrightarrow> (\<exists>x. occurs x \<and> lower + m * minute \<le> x \<and> x \<le> stop)"

lemma hit_antimono: "hit occurs lower stop n \<Longrightarrow> m \<le> n \<Longrightarrow> hit occurs lower stop m"
proof -
  assume "hit occurs lower stop n" "m \<le> n"
  then obtain x where "occurs x" "lower + n * minute \<le> x" "x \<le> stop" unfolding hit_def by blast
  moreover have "lower + m * minute \<le> lower + n * minute" using \<open>m \<le> n\<close> by simp
  ultimately show ?thesis unfolding hit_def by (meson order_trans)
qed

lemma next_hit:
  assumes "next_law occurs nextf"
  shows "hit occurs lower stop m \<longleftrightarrow> nextf (lower + m * minute - 1) \<noteq> 0 \<and> nextf (lower + m * minute - 1) \<le> stop"
    and "nextf (lower + m * minute - 1) = 0 \<or> lower + m * minute \<le> nextf (lower + m * minute - 1)
      \<and> time_truncate (nextf (lower + m * minute - 1)) minute = nextf (lower + m * minute - 1)"
  by (rule next_law_cases [OF assms, of "lower + m * minute - 1"]; force simp: hit_def)+

definition clear_above :: "(time \<Rightarrow> bool) \<Rightarrow> time \<Rightarrow> time \<Rightarrow> int \<Rightarrow> int \<Rightarrow> bool" where
  "clear_above occurs lower stop r high \<longleftrightarrow> (\<forall>m. r < m \<and> m \<le> high \<longrightarrow> \<not> hit occurs lower stop m)"

definition best_hit :: "(time \<Rightarrow> bool) \<Rightarrow> time \<Rightarrow> time \<Rightarrow> int \<Rightarrow> int \<Rightarrow> int \<Rightarrow> int \<Rightarrow> bool" where
  "best_hit occurs lower stop low high best r \<longleftrightarrow>
     (if hit occurs lower stop low \<and> low \<le> high
      then low \<le> r \<and> r \<le> high \<and> hit occurs lower stop r \<and> clear_above occurs lower stop r high
      else r = best)"

lemma clear_above_step:
  assumes "\<not> (hit occurs lower stop (m + 1) \<and> m + 1 \<le> high)"
  shows "clear_above occurs lower stop m high"
  unfolding clear_above_def
proof (intro allI impI notI)
  fix n
  assume n: "m < n \<and> n \<le> high" "hit occurs lower stop n"
  then have "hit occurs lower stop (m + 1)" by (intro hit_antimono [OF n(2)]) simp
  with assms n show False by simp
qed

lemma clear_above_extend:
  assumes "clear_above occurs lower stop r (m - 1)" and "\<not> hit occurs lower stop m"
  shows "clear_above occurs lower stop r high"
  unfolding clear_above_def
proof (intro allI impI notI)
  fix n
  assume n: "r < n \<and> n \<le> high" "hit occurs lower stop n"
  then have "\<not> m \<le> n" using hit_antimono [OF n(2), of m] assms(2) by blast
  with assms(1) n show False by (simp add: clear_above_def)
qed

lemma search_minutes_step:
  assumes "next_law occurs nextf" and "0 \<le> low" and "high * minute \<le> max_int64" and "low \<le> high"
    and middle: "middle = low + (high - low) sdiv 2"
  shows "search_minutes nextf lower stop low high best =
    (if hit occurs lower stop middle then search_minutes nextf lower stop (middle + 1) high middle
     else search_minutes nextf lower stop low (middle - 1) best)"
proof -
  have mid: "low \<le> middle" "middle \<le> high" using assms(4) by (auto simp: middle nonneg_sdiv)
  have "in_int64 (middle * minute)"
    using mid assms(2,3) unfolding in_int64_def min_int64_def by linarith
  then have wrap: "wrap64 (middle * minute) = middle * minute" by (rule wrap64_id)
  let ?found = "nextf (lower + middle * minute - 1)"
  have "search_minutes nextf lower stop low high best =
     (if ?found = 0 then search_minutes nextf lower stop low (middle - 1) best
      else if ?found < lower + middle * minute \<or> ?found \<noteq> time_truncate ?found minute
      then Inl (Errorf ''next occurrence is not a monotone whole UTC minute'' [])
      else if ?found > stop then search_minutes nextf lower stop low (middle - 1) best
      else search_minutes nextf lower stop (middle + 1) high middle)"
    using assms(4) unfolding search_minutes.simps [of nextf lower stop low high best]
    by (simp only: middle [symmetric] wrap is_zero_time_def Let_def if_True)
  with next_hit(1) [OF assms(1), of lower stop middle] next_hit(2) [OF assms(1), of lower middle]
  show ?thesis by (simp split: if_splits)
qed

lemma best_hit_right:
  assumes "hit occurs lower stop middle" and "low \<le> middle" and "middle \<le> high"
    and "best_hit occurs lower stop (middle + 1) high middle r"
  shows "best_hit occurs lower stop low high best r"
proof -
  have "hit occurs lower stop low" by (rule hit_antimono [OF assms(1,2)])
  with assms clear_above_step [of occurs lower stop middle high] show ?thesis
    by (cases "hit occurs lower stop (middle + 1) \<and> middle + 1 \<le> high") (simp_all add: best_hit_def)
qed

lemma best_hit_left:
  assumes "\<not> hit occurs lower stop middle" and "low \<le> middle" and "middle \<le> high"
    and "best_hit occurs lower stop low (middle - 1) best r"
  shows "best_hit occurs lower stop low high best r"
proof (cases "hit occurs lower stop low")
  case True
  then have "low \<le> middle - 1" using assms(1,2) by (cases "low = middle") auto
  with True assms clear_above_extend [OF _ assms(1), of r high] show ?thesis by (simp add: best_hit_def)
next
  case False
  with assms(4) show ?thesis by (simp add: best_hit_def)
qed

lemma search_minutes_best:
  assumes "next_law occurs nextf" and "0 \<le> low" and "high * minute \<le> max_int64"
  shows "\<exists>r. search_minutes nextf lower stop low high best = Inr r \<and> best_hit occurs lower stop low high best r"
  using assms(2,3)
proof (induction "nat (high + 1 - low)" arbitrary: low high best rule: less_induct)
  case less
  show ?case
  proof (cases "low \<le> high")
    case False
    then show ?thesis by (simp add: search_minutes.simps best_hit_def)
  next
    case True
    define middle where "middle = low + (high - low) sdiv 2"
    have mid: "low \<le> middle" "middle \<le> high" using True by (auto simp: middle_def nonneg_sdiv)
    note step = search_minutes_step [OF assms(1) less.prems True middle_def, of lower stop best]
    show ?thesis
    proof (cases "hit occurs lower stop middle")
      case hit: True
      have "nat (high + 1 - (middle + 1)) < nat (high + 1 - low)" "0 \<le> middle + 1" using mid less.prems(1) by simp_all
      from less.hyps [OF this less.prems(2), of middle] obtain r
        where r: "search_minutes nextf lower stop (middle + 1) high middle = Inr r"
          "best_hit occurs lower stop (middle + 1) high middle r" by blast
      from best_hit_right [OF hit mid r(2)] step hit r(1) show ?thesis by simp
    next
      case miss: False
      have "nat (middle - 1 + 1 - low) < nat (high + 1 - low)" using mid less.prems(1) by simp
      moreover have "(middle - 1) * minute \<le> max_int64"
        using mult_right_mono [of "middle - 1" high minute] mid(2) less.prems(2) by simp
      ultimately obtain r where r: "search_minutes nextf lower stop low (middle - 1) best = Inr r"
          "best_hit occurs lower stop low (middle - 1) best r"
        using less.hyps [of "middle - 1" low best] less.prems(1) by blast
      from best_hit_left [OF miss mid r(2)] step miss r(1) show ?thesis by simp
    qed
  qed
qed

definition latest_in :: "(time \<Rightarrow> bool) \<Rightarrow> time \<Rightarrow> time \<Rightarrow> time option \<Rightarrow> bool" where
  "latest_in occurs start stop r \<longleftrightarrow>
     (case r of
        None \<Rightarrow> \<forall>x. occurs x \<longrightarrow> \<not> (start \<le> x \<and> x \<le> stop)
      | Some x \<Rightarrow> occurs x \<and> start \<le> x \<and> x \<le> stop \<and> (\<forall>y. occurs y \<and> y \<le> stop \<longrightarrow> y \<le> x))"

text \<open>The first whole minute of a window, and the last.\<close>

definition minute_up :: "time \<Rightarrow> time" where
  "minute_up t = (if time_truncate t minute < t then time_truncate t minute + minute else time_truncate t minute)"

lemma minute_up: "t \<le> minute_up t" "minute dvd minute_up t" "minute dvd x \<Longrightarrow> t \<le> x \<Longrightarrow> minute_up t \<le> x"
proof -
  have tr: "time_truncate t minute \<le> t" "t < time_truncate t minute + minute" "minute dvd time_truncate t minute"
    using time_truncate_le time_truncate_gt time_truncate_dvd by simp_all
  show "t \<le> minute_up t" "minute dvd minute_up t" using tr by (auto simp: minute_up_def)
  assume x: "minute dvd x" "t \<le> x"
  show "minute_up t \<le> x"
  proof (cases "time_truncate t minute < t")
    case True
    with x tr obtain a b where "x = minute * a" "time_truncate t minute = minute * b" "b < a" by (auto elim!: dvdE)
    with True show ?thesis by (simp add: minute_up_def)
  qed (use tr x in \<open>simp add: minute_up_def\<close>)
qed

lemma minute_down: "minute dvd x \<Longrightarrow> x \<le> t \<Longrightarrow> x \<le> time_truncate t minute"
proof -
  assume x: "minute dvd x" "x \<le> t"
  have "t < time_truncate t minute + minute" "minute dvd time_truncate t minute"
    using time_truncate_gt time_truncate_dvd by simp_all
  with x obtain a b where "x = minute * a" "time_truncate t minute = minute * b" "a < b + 1" by (auto elim!: dvdE)
  then show ?thesis by simp
qed

lemma hit_last:
  assumes "next_law occurs nextf" and "hit occurs lower stop b" and "clear_above occurs lower stop b n"
    and "minute dvd lower" and "\<And>x. occurs x \<Longrightarrow> x \<le> stop \<Longrightarrow> x \<le> lower + n * minute"
  shows "latest_in occurs (lower + b * minute) stop (Some (nextf (lower + b * minute - 1)))"
proof -
  let ?o = "nextf (lower + b * minute - 1)"
  have "?o \<noteq> 0" "?o \<le> stop" using next_hit(1) [OF assms(1)] assms(2) by blast+
  then have o: "occurs ?o \<and> lower + b * minute \<le> ?o"
    by (cases rule: next_law_cases [OF assms(1), of "lower + b * minute - 1"]) simp_all
  have "y \<le> ?o" if y: "occurs y" "y \<le> stop" for y
  proof (rule ccontr)
    assume "\<not> y \<le> ?o"
    moreover obtain p q u where "y = minute * p" "?o = minute * q" "lower = minute * u"
      using next_law_minute [OF assms(1)] y(1) o assms(4) by (metis dvdE)
    ultimately have "lower + (b + 1) * minute \<le> y" using o by (simp add: distrib_right)
    moreover from this have "b + 1 \<le> n" using assms(5) [OF y] by (simp add: distrib_right)
    ultimately show False using assms(3) y unfolding clear_above_def hit_def by (metis less_add_one)
  qed
  with o \<open>?o \<le> stop\<close> show ?thesis by (simp add: latest_in_def)
qed

lemma latest_in_weaken:
  "latest_in occurs lower stop (Some x) \<Longrightarrow> start \<le> lower \<Longrightarrow> latest_in occurs start stop (Some x)"
  by (simp add: latest_in_def)

lemma latestOccurrence_ok:
  assumes "next_law occurs nextf" and "start \<noteq> 0" and "stop \<noteq> 0" and "start \<le> stop" and "in_int64 (stop - start)"
  shows "\<exists>r. latestOccurrence (Some nextf) start stop = Inr r \<and> latest_in occurs start stop r"
proof -
  let ?lower = "minute_up start" and ?upper = "time_truncate stop minute"
  have up: "start \<le> ?lower" "minute dvd ?lower" by (rule minute_up)+
  have down: "?upper \<le> stop" "minute dvd ?upper" using time_truncate_le time_truncate_dvd by simp_all
  have window: "?lower \<le> x" "x \<le> ?upper" if "occurs x" "start \<le> x" "x \<le> stop" for x
    using minute_up(3) minute_down next_law_minute [OF assms(1)] that by blast+
  have unfold: "latestOccurrence (Some nextf) start stop =
      (if ?lower > ?upper then Inr None
       else let minutes = time_sub ?upper ?lower sdiv minute in
         (case search_minutes nextf ?lower stop 0 minutes (- 1) of
            Inl err \<Rightarrow> Inl err
          | Inr best \<Rightarrow>
              if best < 0 then Inr None
              else let candidate = ?lower + wrap64 (best * minute); found = nextf (candidate - 1) in
              if is_zero_time found \<or> found < start \<or> found > stop \<or> found < candidate \<or> found \<noteq> time_truncate found minute
              then Inl (Errorf ''next occurrence failed final inclusive-window validation'' [])
              else Inr (Some found)))"
    using assms(2-4) unfolding latestOccurrence_def minute_up_def is_zero_time_def Let_def by simp
  show ?thesis
  proof (cases "?lower > ?upper")
    case True
    then show ?thesis using window by (force simp: unfold latest_in_def)
  next
    case False
    define n where "n = (?upper - ?lower) div minute"
    have n: "?upper = ?lower + n * minute" "0 \<le> n"
      using up(2) down(2) False by (simp_all add: n_def pos_imp_zdiv_nonneg_iff)
    have small: "in_int64 (n * minute)"
      using n up(1) down(1) assms(5) False unfolding in_int64_def min_int64_def by linarith
    have minutes: "time_sub ?upper ?lower sdiv minute = n"
      using n small by (simp add: time_sub_exact nonneg_sdiv)
    obtain b where b: "search_minutes nextf ?lower stop 0 n (- 1) = Inr b" "best_hit occurs ?lower stop 0 n (- 1) b"
      using search_minutes_best [OF assms(1), of 0 n ?lower stop "-1"] small by (auto simp: in_int64_def)
    show ?thesis
    proof (cases "hit occurs ?lower stop 0")
      case False
      with b(2) have "b = -1" by (simp add: best_hit_def)
      moreover have "latest_in occurs start stop None" using False window by (force simp: latest_in_def hit_def)
      ultimately show ?thesis using \<open>\<not> ?lower > ?upper\<close> b(1) by (simp add: unfold minutes)
    next
      case True
      with b(2) n(2) have bb: "0 \<le> b" "b \<le> n" "hit occurs ?lower stop b" "clear_above occurs ?lower stop b n"
        by (simp_all add: best_hit_def)
      let ?o = "nextf (?lower + b * minute - 1)"
      have "latest_in occurs (?lower + b * minute) stop (Some ?o)"
        by (rule hit_last [OF assms(1) bb(3,4) up(2)])
          (use minute_down next_law_minute [OF assms(1)] n(1) in metis)
      then have latest: "latest_in occurs start stop (Some ?o)" "?lower + b * minute \<le> ?o" "?o \<le> stop"
        using latest_in_weaken up(1) bb(1) by (force simp: latest_in_def)+
      have "in_int64 (b * minute)" using small bb(1,2) unfolding in_int64_def min_int64_def by linarith
      then have wrap: "wrap64 (b * minute) = b * minute" by (rule wrap64_id)
      have "?o \<noteq> 0" "time_truncate ?o minute = ?o" "start \<le> ?o"
        using next_hit(1) [OF assms(1), of ?lower stop b] next_hit(2) [OF assms(1), of ?lower b] bb(3) latest
        by (auto simp: latest_in_def)
      with latest bb(1) \<open>\<not> ?lower > ?upper\<close> b(1) show ?thesis
        by (simp add: unfold minutes wrap is_zero_time_def Let_def)
    qed
  qed
qed

text \<open>C30: the binary search over the minutes of a window always succeeds and finds the latest occurrence in it, or
  that there is none: the occurrence it returns lies in the window, both ends included, and no occurrence
  up to the end of the window is later. It evaluates the schedule only at whole minutes.\<close>

theorem latestOccurrence_latest:
  assumes "next_law occurs nextf" and "start \<noteq> 0" and "stop \<noteq> 0" and "start \<le> stop" and "in_int64 (stop - start)"
  shows "\<exists>r. latestOccurrence (Some nextf) start stop = Inr r \<and> latest_in occurs start stop r"
  by (rule latestOccurrence_ok [OF assms])

definition demo_every :: "duration \<Rightarrow> time \<Rightarrow> time" where
  "demo_every h t = (if t < 0 then h else (t div h + 1) * h)"

lemma demo_every_law:
  assumes "0 < h" and "minute dvd h"
  shows "next_law (\<lambda>x. h dvd x \<and> 0 < x) (demo_every h)"
proof -
  have least: "(t div h + 1) * h \<le> x" if "h dvd x" "t < x" for x t
  proof -
    obtain k where k: "x = k * h" using \<open>h dvd x\<close> by (metis dvd_def mult.commute)
    have "t div h < k"
    proof (rule ccontr)
      assume "\<not> t div h < k"
      then have "k * h \<le> t div h * h" using assms(1) by (intro mult_right_mono) simp_all
      moreover have "t div h * h \<le> t" using pos_mod_sign [OF assms(1), of t] div_mult_mod_eq [of t h] by linarith
      ultimately show False using k \<open>t < x\<close> by linarith
    qed
    then show ?thesis unfolding k using assms(1) by (intro mult_right_mono) simp_all
  qed
  have after: "t < (t div h + 1) * h" for t
    using pos_mod_bound [OF assms(1), of t] div_mult_mod_eq [of t h]
    unfolding distrib_right mult_1_left by linarith
  have "first_after (\<lambda>x. h dvd x \<and> 0 < x) t (demo_every h t)" for t
  proof (cases "t < 0")
    case True
    then show ?thesis using assms(1) by (simp add: first_after_def demo_every_def zdvd_imp_le)
  next
    case False
    then show ?thesis using least after [of t] by (simp add: first_after_def demo_every_def)
  qed
  moreover have "minute dvd x" if "h dvd x" for x using dvd_trans [OF assms(2) that] .
  ultimately show ?thesis unfolding next_law_def by (metis less_irrefl)
qed

theorem latestOccurrence_latest_witness:
  "\<exists>r. latestOccurrence (Some (demo_every hour)) (30 * minute) (150 * minute) = Inr r
     \<and> latest_in (\<lambda>x. hour dvd x \<and> 0 < x) (30 * minute) (150 * minute) r"
  by (rule latestOccurrence_latest [OF demo_every_law]) (simp_all add: in_int64_def max_int64_def min_int64_def)

text \<open>The laws of the cron library give the law of the search, for an expression that recurs within 400 years.\<close>

lemma cron_next_law:
  assumes "search_law l occurs schedule" and "calendar_law l"
    and "ce_schedule e = Some schedule" and "ce_location e = Some l" and "\<And>x. occurs x \<Longrightarrow> minute dvd x"
    and "\<And>t x. occurs x \<Longrightarrow> t < x \<Longrightarrow> \<exists>y. occurs y \<and> t < y \<and> loc_year l y \<le> loc_year l t + 400"
  shows "next_law occurs (cron_next utc e)"
proof -
  have "\<not> occurs 0" using assms(1) by (simp add: search_law_def)
  moreover have "cron_next utc e t = 0 \<and> (\<forall>x. occurs x \<longrightarrow> x \<le> t) \<or> first_after occurs t (cron_next utc e t)" for t
    using cron_next_ok [OF assms(1-4), of t utc] assms(6) [of _ t] by (meson not_le)
  ultimately show ?thesis using assms(5) unfolding next_law_def by metis
qed

end
