(* ===== verification/Schedule_Store_Props.thy ===== *)
theory Schedule_Store_Props
  imports Schedule_Props
begin

text \<open>
  The correctness of the PostgreSQL schedule store and of the scheduler on it: which occurrence a call
  dispatches and where it leaves the cursor, that no occurrence is dispatched twice in any history of calls,
  that a failing call leaves the database as it was, and that every result passes the checks of the scheduler.
\<close>

section \<open>The statements\<close>

lemma guard_None [result_iff]: "(if b then Inr None else k) = Inr (Some x) \<longleftrightarrow> \<not> b \<and> k = Inr (Some x)"
  by simp

lemma find_map_same:
  assumes "\<And>x. P (g x) = P x"
  shows "find P (map g xs) = map_option g (find P xs)"
  by (induction xs) (simp_all add: assms)

lemma sched_find_name: "sched_find rows name = Some r \<Longrightarrow> dr_name r = name"
  by (auto simp: sched_find_def find_Some_iff)

lemma sched_find_append:
  "sched_find (rows @ [r]) name = (case sched_find rows name of Some x \<Rightarrow> Some x | None \<Rightarrow> if dr_name r = name then Some r else None)"
  by (induction rows) (simp_all add: sched_find_def)

lemma advanced_row_name [simp]: "dr_name (advanced_row stored n e oc j out r) = dr_name r"
  and advanced_row_next [simp]: "dr_nextRunAt (advanced_row stored n e oc j out r) = n"
  by (simp_all add: advanced_row_def)

text \<open>A row that the advance finds under the name of the stored one gets the new cursor; no other name changes.\<close>

lemma Store_advance_find:
  assumes "Store_advance failure unconfirmed stored n e oc j out rows = Inr rows'"
    and "sched_find rows (dr_name stored) = Some stored"
  shows "sched_find rows' name =
    (if name = dr_name stored then Some (advanced_row stored n e oc j out stored) else sched_find rows name)"
proof -
  define sel where "sel r \<longleftrightarrow> dr_name r = dr_name stored \<and> dr_fingerprint r = dr_fingerprint stored
    \<and> dr_nextRunAt r = dr_nextRunAt stored" for r :: durable_schedule
  define g where "g r = (if sel r then advanced_row stored n e oc j out r else r)" for r :: durable_schedule
  have f: "failure = None"
    using assms(1) unfolding Store_advance_def Let_def by (cases failure) (simp_all only: option.case sum.distinct simp_thms)
  have u: "unconfirmed = None"
    using assms(1) unfolding Store_advance_def Let_def f option.case guard_Inr
    by (cases unconfirmed) (simp_all only: option.case sum.distinct simp_thms)
  from assms(1) have "rows' = map g rows"
    unfolding Store_advance_def Let_def g_def sel_def f u option.case guard_Inr sum.inject by (elim conjE) (rule sym)
  then have found: "sched_find rows' name = map_option g (sched_find rows name)"
    unfolding sched_find_def by (simp add: find_map_same g_def)
  show ?thesis
  proof (cases "name = dr_name stored")
    case True
    then show ?thesis using found assms(2) by (simp add: g_def sel_def)
  next
    case False
    then have "map_option g (sched_find rows name) = sched_find rows name"
      using sched_find_name [of rows name] by (cases "sched_find rows name") (auto simp: g_def sel_def)
    then show ?thesis using found False by simp
  qed
qed

lemma nextAfter_ok:
  assumes "nextAfter name nextf after = Inr x"
  shows "x = nextf after" and "after < x" and "x \<noteq> 0"
proof -
  have *: "\<not> (is_zero_time (nextf after) \<or> \<not> nextf after > after \<or> nextf after \<noteq> time_truncate (nextf after) minute)"
    "nextf after = x"
    using assms unfolding nextAfter_def Let_def guard_Inr sum.inject by blast+
  show "x = nextf after" using *(2) by (rule sym)
  show "after < x" "x \<noteq> 0" using *(1) unfolding *(2) is_zero_time_def by blast+
qed

lemma latestOccurrence_window:
  assumes "latestOccurrence (Some nextf) start stop = Inr (Some x)"
  shows "start \<le> x" and "x \<le> stop" and "x \<noteq> 0" and "time_truncate x minute = x"
proof -
  define lower where "lower = (if time_truncate start minute < start then time_truncate start minute + minute else time_truncate start minute)"
  define candidate where "candidate best = lower + wrap64 (best * minute)" for best
  obtain best where b: "\<not> (is_zero_time (nextf (candidate best - 1)) \<or> nextf (candidate best - 1) < start
      \<or> nextf (candidate best - 1) > stop \<or> nextf (candidate best - 1) < candidate best
      \<or> nextf (candidate best - 1) \<noteq> time_truncate (nextf (candidate best - 1)) minute)"
    and x: "nextf (candidate best - 1) = x"
    using assms
    unfolding latestOccurrence_def option.case Let_def guard_Inr guard_None case_Inr sum.inject option.inject
      lower_def [symmetric] candidate_def [symmetric] by (elim conjE exE) (rule that)
  have "\<not> x < start" "\<not> x > stop" using b unfolding x by blast+
  then show "start \<le> x" "x \<le> stop" by simp_all
  show "x \<noteq> 0" using b unfolding x is_zero_time_def by blast
  have "x = time_truncate x minute" using b unfolding x by blast
  then show "time_truncate x minute = x" by (rule sym)
qed

lemma locked_row_cases:
  assumes "locked_row env nextf d rows = Inr (st, rows1)"
  obtains (present) stored where "st = Some stored" "rows1 = rows" "sched_find rows (sd_name d) = Some stored"
      "sd_name d \<notin> set (te_locked env)"
  | (busy) "st = None" "rows1 = rows" "sched_find rows (sd_name d) \<noteq> None" "sd_name d \<in> set (te_locked env)"
  | (created) r where "sched_find rows (sd_name d) = None" "rows1 = rows @ [r]" "dr_name r = sd_name d"
      "st = None \<or> st = Some r"
proof (cases "sched_find rows (sd_name d)")
  case (Some stored)
  with assms have "rows1 = rows \<and> (if sd_name d \<in> set (te_locked env) then st = None else st = Some stored)"
    by (simp add: locked_row_def Store_lock_def Store_exists_def split: option.splits if_splits)
  with Some present busy show ?thesis by (simp split: if_splits)
next
  case None
  with assms have ini: "Store_initialize env nextf d rows = Inr rows1"
    and st: "st = None \<or> st = sched_find rows1 (sd_name d)"
    by (auto simp: locked_row_def Store_lock_def Store_exists_def split: option.splits if_splits sum.splits)
  from ini None obtain r where "rows1 = rows @ [r]" "dr_name r = sd_name d"
    by (auto simp: Store_initialize_def seen_rows_def initial_row_def Let_def sched_find_append
        split: option.splits if_splits sum.splits)
  with None st created show ?thesis by (auto simp: sched_find_append)
qed

section \<open>The transaction\<close>

definition window_start :: "tx_env \<Rightarrow> ('x, 's) schedule_definition \<Rightarrow> durable_schedule \<Rightarrow> time" where
  "window_start env d stored = max (dr_nextRunAt stored) (te_clock env - sd_misfireGrace d)"

lemma evaluate_row_cases:
  assumes "evaluate_row env nextf d tx f cx stored db = (Inr x, evs, db')"
  obtains (not_due) "te_clock env < dr_nextRunAt stored" "x = plain_result d OutcomeNotDue" "db' = db"
  | (skipped) n rows where "dr_nextRunAt stored \<le> te_clock env" "nextAfter (sd_name d) nextf (te_clock env) = Inr n"
      "latestOccurrence (Some nextf) (window_start env d stored) (te_clock env) = Inr None"
      "Store_advance (te_query env 6) (te_query env 7) stored n (te_clock env) 0 [] OutcomeMisfireSkipped (sdb_rows db) = Inr rows"
      "x = plain_result d OutcomeMisfireSkipped" "db' = db\<lparr>sdb_rows := rows\<rparr>"
  | (dispatched) n rows oc out res jobs where "dr_nextRunAt stored \<le> te_clock env"
      "nextAfter (sd_name d) nextf (te_clock env) = Inr n"
      "latestOccurrence (Some nextf) (window_start env d stored) (te_clock env) = Inr (Some oc)"
      "f tx \<lparr>oc_Schedule = [], oc_ScheduledAt = oc, oc_TimeZone = [], oc_location = None\<rparr> cx (sdb_jobs db) = (Inr res, evs, jobs)"
      "out \<in> {OutcomeEnqueued, OutcomeOverlapSuppressed}" "out = OutcomeEnqueued \<longleftrightarrow> dr_Enqueued res" "dr_ID res \<noteq> []"
      "Store_advance (te_query env 6) (te_query env 7) stored n (te_clock env) oc (dr_ID res) out (sdb_rows db) = Inr rows"
      "x = \<lparr>sr_Name = sd_name d, sr_Outcome = out, sr_ScheduledAt = oc, sr_InUTC = True, sr_JobID = dr_ID res\<rparr>"
      "db' = db\<lparr>sdb_rows := rows, sdb_jobs := jobs\<rparr>"
proof -
  have win: "(if dr_nextRunAt stored > te_clock env - sd_misfireGrace d then dr_nextRunAt stored
      else te_clock env - sd_misfireGrace d) = window_start env d stored"
    by (simp add: window_start_def max_def)
  have clock: "te_query env 5 = None"
    using assms by (cases "te_query env 5") (simp_all add: evaluate_row_def databaseClock_def)
  show ?thesis
  proof (cases "te_clock env < dr_nextRunAt stored")
    case True
    with assms clock not_due show ?thesis by (simp add: evaluate_row_def databaseClock_def)
  next
    case False
    note unfold = evaluate_row_def databaseClock_def Let_def win clock
    obtain n where n: "nextAfter (sd_name d) nextf (te_clock env) = Inr n"
      using assms False by (cases "nextAfter (sd_name d) nextf (te_clock env)") (simp_all add: unfold)
    obtain occ where lo: "latestOccurrence (Some nextf) (window_start env d stored) (te_clock env) = Inr occ"
      using assms False n
      by (cases "latestOccurrence (Some nextf) (window_start env d stored) (te_clock env)") (simp_all add: unfold)
    show ?thesis
    proof (cases occ)
      case None
      with assms False n lo skipped show ?thesis
        by (cases "Store_advance (te_query env 6) (te_query env 7) stored n (te_clock env) 0 [] OutcomeMisfireSkipped
             (sdb_rows db)") (simp_all add: unfold)
    next
      case (Some oc)
      obtain rr evs' jobs where call: "f tx \<lparr>oc_Schedule = [], oc_ScheduledAt = oc, oc_TimeZone = [], oc_location = None\<rparr> cx (sdb_jobs db)
          = (rr, evs', jobs)" by (rule prod_cases3)
      obtain res where res: "rr = Inr res"
        using assms False n lo Some call by (cases rr) (simp_all add: unfold)
      define out where "out = (if dr_Enqueued res then OutcomeEnqueued else OutcomeOverlapSuppressed)"
      have id: "dr_ID res \<noteq> []" "\<not> length (dr_ID res) > 1024"
        using assms False n lo Some call res by (auto simp: unfold)
      obtain rows where adv: "Store_advance (te_query env 6) (te_query env 7) stored n (te_clock env) oc (dr_ID res) out (sdb_rows db) = Inr rows"
        using assms False n lo Some call res id
        by (cases "Store_advance (te_query env 6) (te_query env 7) stored n (te_clock env) oc (dr_ID res) out (sdb_rows db)")
          (simp_all add: unfold out_def)
      have "x = \<lparr>sr_Name = sd_name d, sr_Outcome = out, sr_ScheduledAt = oc, sr_InUTC = True, sr_JobID = dr_ID res\<rparr>"
        and "evs = evs'" and "db' = db\<lparr>sdb_rows := rows, sdb_jobs := jobs\<rparr>"
        using assms False n lo Some call res id adv by (simp_all add: unfold out_def)
      then show ?thesis
        using dispatched [of n oc res jobs out rows] False n lo Some call res id(1) adv by (simp add: out_def)
    qed
  qed
qed

lemma materialize_work_cases:
  assumes "materialize_work env nextf d tx f cx db = (Inr x, evs, db')"
  obtains (contended) rows where "locked_row env nextf d (sdb_rows db) = Inr (None, rows)"
      "x = plain_result d OutcomeContended" "db' = db\<lparr>sdb_rows := rows\<rparr>"
  | (evaluated) stored rows where "locked_row env nextf d (sdb_rows db) = Inr (Some stored, rows)"
      "stored_matches d stored = Inr ()"
      "evaluate_row env nextf d tx f cx stored (db\<lparr>sdb_rows := rows\<rparr>) = (Inr x, evs, db')"
proof -
  obtain st rows where lock: "locked_row env nextf d (sdb_rows db) = Inr (st, rows)"
    using assms by (cases "locked_row env nextf d (sdb_rows db)") (auto simp: materialize_work_def)
  show ?thesis
  proof (cases st)
    case None
    with assms lock contended show ?thesis by (simp add: materialize_work_def)
  next
    case (Some stored)
    with assms lock evaluated show ?thesis
      by (cases "stored_matches d stored") (simp_all add: materialize_work_def)
  qed
qed

lemma Materialize_cases:
  assumes "Materialize utc env tx d cb cx db = (res, evs, db')"
  obtains (refused) e where "res = Inl e" "db' = db"
  | (applied) f x evs' where "cb = Some f" "sched_validateDefinition d = Inr ()"
      "materialize_work env (Definition_Next utc d) d tx f cx db = (Inr x, evs', db')"
      "res = Inr x \<or> (\<exists>e err. res = Inl e \<and> te_commit env = Some (err, True))"
proof (cases "sched_validateDefinition d")
  case (Inl e)
  with assms refused show ?thesis by (auto simp: Materialize_def)
next
  case (Inr u)
  show ?thesis
  proof (cases "cb = None \<or> te_ctxErr env \<noteq> None")
    case True
    with assms Inr refused show ?thesis by (auto simp: Materialize_def split: option.splits)
  next
    case False
    then obtain f where f: "cb = Some f" "te_ctxErr env = None" by auto
    let ?work = "materialize_work env (Definition_Next utc d) d tx f cx"
    have "Transaction (te_begin env) (te_commit env) (\<lambda>db. (fst (?work db), snd (snd (?work db)))) db = (res, db')"
      using assms Inr f by (simp add: Materialize_def Let_def split: prod.splits)
    then show ?thesis
    proof (cases rule: Transaction_cases)
      case (refused e)
      then show ?thesis using that(1) by blast
    next
      case (ambiguous x e)
      then have "?work db = (Inr x, fst (snd (?work db)), db')" by (simp add: prod_eq_iff)
      then show ?thesis using that(2) [OF f(1) _ _ disjI2] ambiguous(2,3) Inr by auto
    next
      case (committed x)
      then have "?work db = (Inr x, fst (snd (?work db)), db')" by (simp add: prod_eq_iff)
      then show ?thesis using that(2) [OF f(1) _ _ disjI1] committed(2) Inr by auto
    qed
  qed
qed

section \<open>Histories\<close>

text \<open>A callback that also writes down the schedule and the occurrence it is called with, in the state of the
  transaction: what remains of these notes is what has been committed.\<close>

definition logged :: "string \<Rightarrow> ('x, 's) dispatch_callback \<Rightarrow> ('x, 's \<times> (string \<times> time) list) dispatch_callback" where
  "logged name f tx oc cx s =
     (case f tx oc cx (fst s) of (r, evs, s') \<Rightarrow> (r, evs, (s', snd s @ [(name, oc_ScheduledAt oc)])))"

definition occurrences_of :: "string \<Rightarrow> (string \<times> time) list \<Rightarrow> time list" where
  "occurrences_of name log = map snd (filter (\<lambda>p. fst p = name) log)"

text \<open>The calls of any number of schedulers, with any definitions, callbacks and environments, one transaction
  after the other; anything may happen to the jobs in between.\<close>

inductive schedule_history :: "location \<Rightarrow> 'x \<Rightarrow> ('s \<times> (string \<times> time) list) sched_db \<Rightarrow> bool" for utc tx where
  start: "snd (sdb_jobs db) = [] \<Longrightarrow> schedule_history utc tx db"
| jobs: "schedule_history utc tx db \<Longrightarrow> schedule_history utc tx (db\<lparr>sdb_jobs := (s, snd (sdb_jobs db))\<rparr>)"
| call: "schedule_history utc tx db \<Longrightarrow>
     Materialize utc env tx d (Some (logged (sd_name d) f)) cx db = (r, evs, db') \<Longrightarrow> schedule_history utc tx db'"

definition dispatch_inv :: "durable_schedule list \<Rightarrow> (string \<times> time) list \<Rightarrow> bool" where
  "dispatch_inv rows log \<longleftrightarrow> (\<forall>name. sorted_wrt (<) (occurrences_of name log)
     \<and> (\<forall>x \<in> set (occurrences_of name log). \<exists>r. sched_find rows name = Some r \<and> x < dr_nextRunAt r))"

lemma dispatch_inv_sorted: "dispatch_inv rows log \<Longrightarrow> sorted_wrt (<) (occurrences_of name log)"
  by (simp add: dispatch_inv_def)

lemma dispatch_inv_found:
  assumes "dispatch_inv rows log" and "x \<in> set (occurrences_of name log)"
  obtains r where "sched_find rows name = Some r" "x < dr_nextRunAt r"
  using assms unfolding dispatch_inv_def by blast

lemma dispatch_inv_less:
  assumes "dispatch_inv rows log" and "sched_find rows name = Some r" and "x \<in> set (occurrences_of name log)"
  shows "x < dr_nextRunAt r"
  using dispatch_inv_found [OF assms(1,3)] assms(2) by (metis option.inject)

lemma dispatch_invI:
  assumes "\<And>name. sorted_wrt (<) (occurrences_of name log)"
    and "\<And>name x. x \<in> set (occurrences_of name log) \<Longrightarrow> \<exists>r. sched_find rows name = Some r \<and> x < dr_nextRunAt r"
  shows "dispatch_inv rows log"
  using assms by (simp add: dispatch_inv_def)

lemma occurrences_of_append:
  "occurrences_of name (log @ [(n, x)]) = occurrences_of name log @ (if n = name then [x] else [])"
  by (simp add: occurrences_of_def)

lemma dispatch_inv_append:
  assumes "dispatch_inv rows log" and "sched_find rows (dr_name r) = None"
  shows "dispatch_inv (rows @ [r]) log"
proof (rule dispatch_invI)
  fix name x assume "x \<in> set (occurrences_of name log)"
  with assms(1) obtain r' where "sched_find rows name = Some r'" "x < dr_nextRunAt r'" by (rule dispatch_inv_found)
  then show "\<exists>r'. sched_find (rows @ [r]) name = Some r' \<and> x < dr_nextRunAt r'" by (simp add: sched_find_append)
qed (rule dispatch_inv_sorted [OF assms(1)])

lemma dispatch_inv_advance:
  assumes "dispatch_inv rows log" and "sched_find rows (dr_name stored) = Some stored"
    and "Store_advance failure unconfirmed stored n e oc j out rows = Inr rows'" and "dr_nextRunAt stored \<le> e" and "e < n"
  shows "dispatch_inv rows' log"
proof (rule dispatch_invI)
  fix name x assume x: "x \<in> set (occurrences_of name log)"
  show "\<exists>r. sched_find rows' name = Some r \<and> x < dr_nextRunAt r"
  proof (cases "name = dr_name stored")
    case True
    then have "x < n" using dispatch_inv_less [OF assms(1,2)] x assms(4,5) by fastforce
    then show ?thesis using True by (simp add: Store_advance_find [OF assms(3,2)])
  next
    case False
    then show ?thesis using dispatch_inv_found [OF assms(1) x] by (auto simp: Store_advance_find [OF assms(3,2)])
  qed
qed (rule dispatch_inv_sorted [OF assms(1)])

lemma dispatch_inv_dispatch:
  assumes "dispatch_inv rows log" and "sched_find rows (dr_name stored) = Some stored"
    and "Store_advance failure unconfirmed stored n e oc j out rows = Inr rows'"
    and "dr_nextRunAt stored \<le> oc" and "oc \<le> e" and "e < n"
  shows "dispatch_inv rows' (log @ [(dr_name stored, oc)])"
proof (rule dispatch_invI)
  have inv: "dispatch_inv rows' log"
    using dispatch_inv_advance [OF assms(1-3)] assms(4-6) by simp
  show "sorted_wrt (<) (occurrences_of name (log @ [(dr_name stored, oc)]))" for name
    using dispatch_inv_sorted [OF inv, of name] dispatch_inv_less [OF assms(1,2)] assms(4)
    by (fastforce simp: occurrences_of_append sorted_wrt_append)
  fix name x assume "x \<in> set (occurrences_of name (log @ [(dr_name stored, oc)]))"
  then consider "x \<in> set (occurrences_of name log)" | "name = dr_name stored" "x = oc"
    by (auto simp: occurrences_of_append split: if_splits)
  then show "\<exists>r. sched_find rows' name = Some r \<and> x < dr_nextRunAt r"
  proof cases
    case 1
    show ?thesis using dispatch_inv_found [OF inv 1] by blast
  next
    case 2
    then show ?thesis using assms(5,6) by (simp add: Store_advance_find [OF assms(3,2)])
  qed
qed

text \<open>One transaction keeps it.\<close>

lemma locked_row_inv:
  assumes "locked_row env nextf d rows = Inr (st, rows1)" and "dispatch_inv rows log"
  shows "dispatch_inv rows1 log"
  using assms(1)
proof (cases rule: locked_row_cases)
  case (created r)
  then show ?thesis using dispatch_inv_append [OF assms(2), of r] by simp
qed (use assms(2) in auto)

lemma locked_row_found:
  assumes "locked_row env nextf d rows = Inr (Some stored, rows1)"
  shows "sched_find rows1 (sd_name d) = Some stored"
  using assms by (cases rule: locked_row_cases) (auto simp: sched_find_append)

lemma materialize_work_inv:
  assumes "materialize_work env nextf d tx (logged (sd_name d) f) cx db = (Inr x, evs, db')"
    and "dispatch_inv (sdb_rows db) (snd (sdb_jobs db))"
  shows "dispatch_inv (sdb_rows db') (snd (sdb_jobs db'))"
  using assms(1)
proof (cases rule: materialize_work_cases)
  case (contended rows)
  then show ?thesis using locked_row_inv [OF contended(1) assms(2)] by simp
next
  case (evaluated stored rows)
  let ?log = "snd (sdb_jobs db)"
  have inv: "dispatch_inv rows ?log" using locked_row_inv [OF evaluated(1) assms(2)] .
  have found: "sched_find rows (sd_name d) = Some stored" using locked_row_found [OF evaluated(1)] .
  then have name: "dr_name stored = sd_name d" by (rule sched_find_name)
  from evaluated(3) show ?thesis
  proof (cases rule: evaluate_row_cases)
    case not_due
    then show ?thesis using inv by simp
  next
    case (skipped n rows')
    then have "dispatch_inv rows' ?log"
      using dispatch_inv_advance [OF inv, of stored] found name nextAfter_ok(2) [OF skipped(2)] by auto
    then show ?thesis using skipped by simp
  next
    case (dispatched n rows' oc out res jobs)
    have "dr_nextRunAt stored \<le> oc" "oc \<le> te_clock env"
      using latestOccurrence_window(1,2) [OF dispatched(3)] by (simp_all add: window_start_def)
    then have "dispatch_inv rows' (?log @ [(dr_name stored, oc)])"
      using dispatch_inv_dispatch [OF inv, of stored] found name nextAfter_ok(2) [OF dispatched(2)] dispatched(8) by auto
    moreover have "snd jobs = ?log @ [(sd_name d, oc)]"
      using dispatched(4) by (auto simp: logged_def split: prod.splits)
    ultimately show ?thesis using dispatched(10) name by simp
  qed
qed

lemma history_inv: "schedule_history utc tx db \<Longrightarrow> dispatch_inv (sdb_rows db) (snd (sdb_jobs db))"
proof (induction rule: schedule_history.induct)
  case (start db)
  then show ?case by (intro dispatch_invI) (simp_all add: occurrences_of_def)
next
  case (call db env d f cx r evs db')
  from call(2) show ?case
  proof (cases rule: Materialize_cases)
    case (applied f' x evs')
    have "materialize_work env (Definition_Next utc d) d tx (logged (sd_name d) f) cx db = (Inr x, evs', db')"
      using applied(1,3) by simp
    then show ?thesis using call.IH by (rule materialize_work_inv)
  qed (use call.IH in simp)
qed simp

text \<open>C31: a schedule is never dispatched twice for the same occurrence. Whatever definitions, callbacks, clocks,
  lock contention, failures and ambiguous commits a history of calls has, and whatever happens to the jobs in
  between, the occurrences that were dispatched in a committed transaction are, for each schedule, strictly
  increasing.\<close>

theorem schedule_once:
  assumes "schedule_history utc tx db"
  shows "sorted_wrt (<) (occurrences_of name (snd (sdb_jobs db)))"
  using dispatch_inv_sorted [OF history_inv [OF assms]] .

definition demo_schedule :: "(unit, nat \<times> (string \<times> time) list) schedule_definition" where
  "demo_schedule =
     \<lparr>sd_name = ''tick.v1'',
      sd_expression = \<lparr>ce_canonical = ''0 * * * *'', ce_schedule = Some (demo_every hour), ce_location = Some demo_location\<rparr>,
      sd_timeZone = ''UTC'', sd_location = demo_location, sd_misfireGrace = 15 * minute, sd_jobName = ''job.v1'',
      sd_policy = \<lparr>pol_Queue = ''default'', pol_MaxAttempts = 3, pol_Timeout = minute, pol_Backoff = []\<rparr>,
      sd_fingerprint = replicate 64 (CHR ''a''), sd_materialize = None\<rparr>"

definition demo_tx_env :: "time \<Rightarrow> tx_env" where
  "demo_tx_env now = \<lparr>te_ctxErr = None, te_begin = None, te_commit = None, te_query = (\<lambda>_. None), te_locked = [],
     te_inserted = None, te_lockedAfter = [], te_initClock = now, te_clock = now\<rparr>"

definition demo_enqueues :: "(unit, nat) dispatch_callback" where
  "demo_enqueues tx oc cx s = (Inr \<lparr>dr_ID = ''id'', dr_Enqueued = True\<rparr>, [], s + 1)"

definition demo_call :: call_env where
  "demo_call = \<lparr>cx_before = None, cx_after = None, cx_rnd = Inr [], cx_now = 0\<rparr>"

definition demo_dispatch :: "time \<Rightarrow> (nat \<times> (string \<times> time) list) sched_db \<Rightarrow> (nat \<times> (string \<times> time) list) sched_db" where
  "demo_dispatch now db = snd (snd (Materialize demo_location (demo_tx_env now) () demo_schedule
     (Some (logged (sd_name demo_schedule) demo_enqueues)) demo_call db))"

definition demo_db :: "(nat \<times> (string \<times> time) list) sched_db" where
  "demo_db = demo_dispatch (125 * minute) (demo_dispatch (60 * minute) \<lparr>sdb_rows = [], sdb_jobs = (0, [])\<rparr>)"

lemma demo_sd [simp]:
  "sd_name demo_schedule = ''tick.v1''" "ce_canonical (sd_expression demo_schedule) = ''0 * * * *''"
  "sd_timeZone demo_schedule = ''UTC''" "sd_misfireGrace demo_schedule = 15 * minute" "sd_jobName demo_schedule = ''job.v1''"
  "pol_Queue (sd_policy demo_schedule) = ''default''" "sd_fingerprint demo_schedule = replicate 64 (CHR ''a'')"
  by (simp_all add: demo_schedule_def)

lemma demo_patterns:
  "rmatch versioned_name_rexp ''tick.v1''" "rmatch versioned_name_rexp ''job.v1''" "rmatch queue_rexp ''default''"
  "fingerprint_ok (replicate 64 (CHR ''a''))"
  by (simp_all add: versioned_name_rexp_def queue_rexp_def fingerprint_ok_def list_all_iff)

lemma demo_id_text: "pg_text_ok ''id''"
  by code_simp

lemma demo_valid: "sched_validateDefinition demo_schedule = Inr ()"
  by (simp add: sched_validateDefinition_def demo_patterns ScheduleMaxNameBytes_def MaxNameBytes_def MaxQueueBytes_def
      del: rmatch.simps)

lemma demo_schedule_next: "Definition_Next demo_location demo_schedule = demo_every hour"
proof -
  have "demo_every h t \<noteq> 0" if "0 < h" for h t
    using that pos_imp_zdiv_nonneg_iff [of h t] by (auto simp: demo_every_def)
  then show ?thesis by (intro ext) (simp add: Definition_Next_def demo_schedule_def cron_next_def is_zero_time_def)
qed

lemma demo_selects:
  "latestOccurrence (Some (demo_every hour)) (60 * minute) (60 * minute) = Inr (Some (60 * minute))"
  "latestOccurrence (Some (demo_every hour)) (120 * minute) (125 * minute) = Inr (Some (120 * minute))"
  "latestOccurrence (Some (demo_every hour)) (175 * minute) (190 * minute) = Inr (Some (180 * minute))"
  by code_simp+

lemma demo_nexts:
  "nextAfter n (demo_every hour) (60 * minute) = Inr (120 * minute)"
  "nextAfter n (demo_every hour) (125 * minute) = Inr (180 * minute)"
  "nextAfter n (demo_every hour) (190 * minute) = Inr (240 * minute)"
  "initial_cursor n (demo_every hour) (60 * minute) = Inr (60 * minute)"
  by (simp_all add: nextAfter_def initial_cursor_def demo_every_def is_zero_time_def time_truncate_def Let_def)

lemmas demo_run = Materialize_def demo_valid demo_tx_env_def demo_schedule_next demo_selects [simplified] demo_nexts [simplified] Transaction_def
  materialize_work_def locked_row_def Store_lock_def Store_exists_def Store_initialize_def databaseClock_def seen_rows_def
  sched_find_def evaluate_row_def stored_matches_def stored_grace_def milliseconds_def Store_advance_def initial_row_def
  Let_def wrap64_def is_zero_time_def scheduleOverlapPolicy_def advanced_row_def schedules_check_def demo_patterns demo_id_text logged_def demo_enqueues_def

lemma demo_dispatches: "snd (sdb_jobs demo_db) = [(''tick.v1'', 60 * minute), (''tick.v1'', 120 * minute)]"
  by (simp add: demo_db_def demo_dispatch_def demo_run del: rmatch.simps)

lemma demo_dispatch_history:
  "schedule_history demo_location () db \<Longrightarrow> schedule_history demo_location () (demo_dispatch now db)"
proof -
  assume history: "schedule_history demo_location () db"
  obtain r evs db' where call: "Materialize demo_location (demo_tx_env now) () demo_schedule
      (Some (logged (sd_name demo_schedule) demo_enqueues)) demo_call db = (r, evs, db')" by (rule prod_cases3)
  show ?thesis using schedule_history.call [OF history call] unfolding demo_dispatch_def call by simp
qed

theorem schedule_once_witness:
  "sorted_wrt (<) (occurrences_of ''tick.v1'' (snd (sdb_jobs demo_db)))
     \<and> occurrences_of ''tick.v1'' (snd (sdb_jobs demo_db)) = [60 * minute, 120 * minute]"
proof
  have "schedule_history demo_location () demo_db"
    unfolding demo_db_def by (intro demo_dispatch_history schedule_history.start) simp
  then show "sorted_wrt (<) (occurrences_of ''tick.v1'' (snd (sdb_jobs demo_db)))" by (rule schedule_once)
  show "occurrences_of ''tick.v1'' (snd (sdb_jobs demo_db)) = [60 * minute, 120 * minute]"
    by (simp add: demo_dispatches occurrences_of_def)
qed

section \<open>The selected occurrence\<close>

lemma grace_window:
  assumes "sched_validateDefinition d = Inr ()" and "sd_misfireGrace d < te_clock env"
    and "dr_nextRunAt stored \<le> te_clock env"
  shows "window_start env d stored \<noteq> 0" and "te_clock env \<noteq> 0" and "window_start env d stored \<le> te_clock env"
    and "in_int64 (te_clock env - window_start env d stored)"
proof -
  have g: "minute \<le> sd_misfireGrace d" "sd_misfireGrace d \<le> 365 * 24 * hour"
    using assms(1) unfolding sched_validateDefinition_def guard_Inr by linarith+
  then show "window_start env d stored \<noteq> 0" "te_clock env \<noteq> 0" "window_start env d stored \<le> te_clock env"
    using assms(2,3) by (simp_all add: window_start_def)
  have "0 \<le> te_clock env - window_start env d stored" "te_clock env - window_start env d stored \<le> 365 * 24 * hour"
    using g assms(3) by (simp_all add: window_start_def max_def)
  then show "in_int64 (te_clock env - window_start env d stored)"
    by (simp add: in_int64_def max_int64_def min_int64_def)
qed

lemma nextAfter_first:
  assumes "next_law occurs nextf" and "nextAfter name nextf t = Inr n"
  shows "first_after occurs t n"
proof -
  have "nextf t = 0 \<and> (\<forall>x. occurs x \<longrightarrow> x \<le> t) \<or> first_after occurs t (nextf t)"
    using assms(1) unfolding next_law_def by blast
  then show ?thesis using nextAfter_ok(1,3) [OF assms(2)] by auto
qed

text \<open>What one call does with the row of a schedule that already exists.\<close>

definition selects :: "(time \<Rightarrow> bool) \<Rightarrow> tx_env \<Rightarrow> 'x \<Rightarrow> ('x, 's) schedule_definition \<Rightarrow> ('x, 's) dispatch_callback \<Rightarrow> call_env \<Rightarrow>
    durable_schedule \<Rightarrow> 's sched_db \<Rightarrow> sched_result \<Rightarrow> 's sched_db \<Rightarrow> bool" where
  "selects occurs env tx d f cx stored db r db' \<longleftrightarrow>
     (\<exists>row. sched_find (sdb_rows db') (sd_name d) = Some row \<and> first_after occurs (te_clock env) (dr_nextRunAt row))
     \<and> (if sr_Outcome r = OutcomeMisfireSkipped
        then latest_in occurs (window_start env d stored) (te_clock env) None \<and> sdb_jobs db' = sdb_jobs db
        else latest_in occurs (window_start env d stored) (te_clock env) (Some (sr_ScheduledAt r))
          \<and> (\<exists>res evs. f tx \<lparr>oc_Schedule = [], oc_ScheduledAt = sr_ScheduledAt r, oc_TimeZone = [], oc_location = None\<rparr> cx
                 (sdb_jobs db) = (Inr res, evs, sdb_jobs db')
               \<and> sr_JobID r = dr_ID res
               \<and> sr_Outcome r = (if dr_Enqueued res then OutcomeEnqueued else OutcomeOverlapSuppressed)))"

lemma evaluate_selects:
  assumes "next_law occurs nextf" and "sched_validateDefinition d = Inr ()" and "sd_misfireGrace d < te_clock env"
    and "sched_find (sdb_rows db) (sd_name d) = Some stored" and "dr_nextRunAt stored \<le> te_clock env"
    and "evaluate_row env nextf d tx f cx stored db = (Inr r, evs, db')"
  shows "selects occurs env tx d f cx stored db r db'"
proof -
  have name: "dr_name stored = sd_name d" using assms(4) by (rule sched_find_name)
  obtain x where x: "latestOccurrence (Some nextf) (window_start env d stored) (te_clock env) = Inr x"
    and latest: "latest_in occurs (window_start env d stored) (te_clock env) x"
    using latestOccurrence_ok [OF assms(1) grace_window [OF assms(2,3,5)]] by blast
  from assms(6) show ?thesis
  proof (cases rule: evaluate_row_cases)
    case not_due
    then show ?thesis using assms(5) by simp
  next
    case (skipped n rows)
    have "first_after occurs (te_clock env) n" using nextAfter_first [OF assms(1) skipped(2)] .
    moreover have "sched_find rows (sd_name d) = Some (advanced_row stored n (te_clock env) 0 [] OutcomeMisfireSkipped stored)"
      using Store_advance_find [OF skipped(4)] assms(4) name by simp
    ultimately show ?thesis using skipped(3,5,6) x latest by (simp add: selects_def plain_result_def)
  next
    case (dispatched n rows oc out res jobs)
    have "first_after occurs (te_clock env) n" using nextAfter_first [OF assms(1) dispatched(2)] .
    moreover have "sched_find rows (sd_name d) = Some (advanced_row stored n (te_clock env) oc (dr_ID res) out stored)"
      using Store_advance_find [OF dispatched(8)] assms(4) name by simp
    moreover have "out \<noteq> OutcomeMisfireSkipped" "out = (if dr_Enqueued res then OutcomeEnqueued else OutcomeOverlapSuppressed)"
      using dispatched(5,6) by auto
    ultimately show ?thesis using dispatched(3,4,9,10) x latest by (simp add: selects_def)
  qed
qed

text \<open>C32: a call of Materialize that succeeds on a schedule with a stored row leaves everything alone when the row is
  locked or its cursor lies in the future. Otherwise it dispatches exactly one occurrence, the latest one that is
  due and within both the misfire grace and the part of the timeline the schedule has not handled yet, or
  records a misfire when there is none, and moves the cursor to the first occurrence after the clock of
  the database, so that several missed occurrences coalesce into one.\<close>

theorem materialize_latest:
  assumes "next_law occurs (Definition_Next utc d)" and "sched_find (sdb_rows db) (sd_name d) = Some stored"
    and "sd_misfireGrace d < te_clock env" and "Materialize utc env tx d (Some f) cx db = (Inr r, evs, db')"
  shows "if sd_name d \<in> set (te_locked env) then sr_Outcome r = OutcomeContended \<and> db' = db
    else if te_clock env < dr_nextRunAt stored then sr_Outcome r = OutcomeNotDue \<and> db' = db
    else selects occurs env tx d f cx stored db r db'"
  using assms(4)
proof (cases rule: Materialize_cases)
  case (applied f' x evs')
  then have f: "f' = f" "x = r" by auto
  from applied(3) show ?thesis
  proof (cases rule: materialize_work_cases)
    case (contended rows)
    from contended(1) show ?thesis
      by (cases rule: locked_row_cases) (use contended(2,3) f assms(2) in \<open>auto simp: plain_result_def\<close>)
  next
    case (evaluated st rows)
    from evaluated(1) have st: "st = stored" "rows = sdb_rows db" "sd_name d \<notin> set (te_locked env)"
      by (cases rule: locked_row_cases; use assms(2) in auto)+
    have eval: "evaluate_row env (Definition_Next utc d) d tx f cx stored db = (Inr r, evs', db')"
      using evaluated(3) st f by simp
    show ?thesis
    proof (cases "te_clock env < dr_nextRunAt stored")
      case True
      with eval show ?thesis by (cases rule: evaluate_row_cases) (use st in \<open>auto simp: plain_result_def\<close>)
    next
      case False
      then show ?thesis using evaluate_selects [OF assms(1) applied(2) assms(3,2) _ eval] st by simp
    qed
  qed
qed simp

definition demo_missed :: "(nat \<times> (string \<times> time) list) sched_db" where
  "demo_missed = \<lparr>sdb_rows = [initial_row demo_schedule (60 * minute) 1], sdb_jobs = (0, [])\<rparr>"

definition demo_coalesced :: "sched_result result \<times> job_event list \<times> (nat \<times> (string \<times> time) list) sched_db" where
  "demo_coalesced = Materialize demo_location (demo_tx_env (190 * minute)) () demo_schedule
     (Some (logged ''tick.v1'' demo_enqueues)) demo_call demo_missed"

lemma demo_coalesces:
  "fst demo_coalesced = Inr \<lparr>sr_Name = ''tick.v1'', sr_Outcome = OutcomeEnqueued, sr_ScheduledAt = 180 * minute,
     sr_InUTC = True, sr_JobID = ''id''\<rparr>"
  by (simp add: demo_coalesced_def demo_missed_def demo_run del: rmatch.simps)

lemma demo_schedule_law: "next_law (\<lambda>x. hour dvd x \<and> 0 < x) (Definition_Next demo_location demo_schedule)"
  unfolding demo_schedule_next by (rule demo_every_law) simp_all

theorem materialize_latest_witness:
  "\<exists>r. fst demo_coalesced = Inr r \<and> sr_ScheduledAt r = 180 * minute
     \<and> selects (\<lambda>x. hour dvd x \<and> 0 < x) (demo_tx_env (190 * minute)) () demo_schedule (logged ''tick.v1'' demo_enqueues) demo_call
         (initial_row demo_schedule (60 * minute) 1) demo_missed r (snd (snd demo_coalesced))"
proof -
  let ?r = "\<lparr>sr_Name = ''tick.v1'', sr_Outcome = OutcomeEnqueued, sr_ScheduledAt = 180 * minute, sr_InUTC = True, sr_JobID = ''id''\<rparr>"
  let ?stored = "initial_row demo_schedule (60 * minute) 1"
  have found: "sched_find (sdb_rows demo_missed) (sd_name demo_schedule) = Some ?stored"
    by (simp add: sched_find_def demo_missed_def initial_row_def)
  have run: "Materialize demo_location (demo_tx_env (190 * minute)) () demo_schedule
      (Some (logged ''tick.v1'' demo_enqueues)) demo_call demo_missed = (Inr ?r, fst (snd demo_coalesced), snd (snd demo_coalesced))"
    using demo_coalesces by (simp add: demo_coalesced_def prod_eq_iff)
  have grace: "sd_misfireGrace demo_schedule < te_clock (demo_tx_env (190 * minute))"
    by (simp add: demo_schedule_def demo_tx_env_def)
  have "selects (\<lambda>x. hour dvd x \<and> 0 < x) (demo_tx_env (190 * minute)) () demo_schedule
      (logged ''tick.v1'' demo_enqueues) demo_call ?stored demo_missed ?r (snd (snd demo_coalesced))"
    using materialize_latest [OF demo_schedule_law found grace run] by (simp add: demo_tx_env_def initial_row_def)
  then show ?thesis using demo_coalesces by (intro exI [of _ ?r]) simp
qed

section \<open>Atomicity\<close>

lemma evaluate_row_others:
  assumes "evaluate_row env nextf d tx f cx stored db = (Inr x, evs, db')"
    and "sched_find (sdb_rows db) (sd_name d) = Some stored" and "name \<noteq> sd_name d"
  shows "sched_find (sdb_rows db') name = sched_find (sdb_rows db) name"
proof -
  have n: "dr_name stored = sd_name d" using assms(2) by (rule sched_find_name)
  from assms(1) show ?thesis
  proof (cases rule: evaluate_row_cases)
    case (skipped m rows)
    then show ?thesis using Store_advance_find [OF skipped(4)] n assms(2,3) by simp
  next
    case (dispatched m rows oc out res jobs)
    then show ?thesis using Store_advance_find [OF dispatched(8)] n assms(2,3) by simp
  qed simp
qed

lemma locked_row_others:
  assumes "locked_row env nextf d rows = Inr (st, rows1)" and "name \<noteq> sd_name d"
  shows "sched_find rows1 name = sched_find rows name"
  using assms(1) by (cases rule: locked_row_cases) (use assms(2) in \<open>auto simp: sched_find_append split: option.splits\<close>)

lemma materialize_work_others:
  assumes "materialize_work env nextf d tx f cx db = (Inr x, evs, db')" and "name \<noteq> sd_name d"
  shows "sched_find (sdb_rows db') name = sched_find (sdb_rows db) name"
  using assms(1)
proof (cases rule: materialize_work_cases)
  case (contended rows)
  then show ?thesis using locked_row_others [OF contended(1) assms(2)] by simp
next
  case (evaluated stored rows)
  then show ?thesis
    using evaluate_row_others [OF evaluated(3) _ assms(2)] locked_row_found [OF evaluated(1)]
      locked_row_others [OF evaluated(1) assms(2)] by simp
qed

text \<open>C33: a call of Materialize is one atomic step on one schedule. When it returns an error the database is as
  before, the jobs its callback enqueued included, unless the commit itself failed after the server had applied it.
  A schedule whose stored fingerprint differs from the definition in the code is always refused, without a change,
  and no call changes the row of another schedule.\<close>

theorem materialize_atomic:
  assumes "Materialize utc env tx d cb cx db = (r, evs, db')"
  shows "(\<not> is_ok r \<and> (\<forall>err. te_commit env \<noteq> Some (err, True)) \<longrightarrow> db' = db)
    \<and> (\<forall>stored. sched_find (sdb_rows db) (sd_name d) = Some stored \<and> sd_name d \<notin> set (te_locked env)
         \<and> dr_fingerprint stored \<noteq> sd_fingerprint d \<longrightarrow> \<not> is_ok r \<and> db' = db)
    \<and> (\<forall>name. name \<noteq> sd_name d \<longrightarrow> sched_find (sdb_rows db') name = sched_find (sdb_rows db) name)"
  using assms
proof (cases rule: Materialize_cases)
  case (refused e)
  then show ?thesis by simp
next
  case (applied f x evs')
  have "\<not> (sched_find (sdb_rows db) (sd_name d) = Some stored \<and> sd_name d \<notin> set (te_locked env)
      \<and> dr_fingerprint stored \<noteq> sd_fingerprint d)" for stored
    using applied(3)
  proof (cases rule: materialize_work_cases)
    case (contended rows)
    from contended(1) show ?thesis by (cases rule: locked_row_cases) auto
  next
    case (evaluated st rows)
    have "dr_fingerprint st = sd_fingerprint d"
      using evaluated(2) unfolding stored_matches_def guard_Inr by blast
    with evaluated(1) show ?thesis by (cases rule: locked_row_cases) auto
  qed
  moreover have "is_ok r \<or> (\<exists>err. te_commit env = Some (err, True))" using applied(4) by auto
  ultimately show ?thesis using materialize_work_others [OF applied(3)] by blast
qed

definition demo_failing :: tx_env where
  "demo_failing = (demo_tx_env (190 * minute))\<lparr>te_query := (\<lambda>n. if n = 6 then Some pg_check_violation else None)\<rparr>"

definition demo_failed :: "sched_result result \<times> job_event list \<times> (nat \<times> (string \<times> time) list) sched_db" where
  "demo_failed = Materialize demo_location demo_failing () demo_schedule
     (Some (logged ''tick.v1'' demo_enqueues)) demo_call demo_missed"

theorem materialize_atomic_witness: "\<not> is_ok (fst demo_failed) \<and> snd (snd demo_failed) = demo_missed"
proof -
  have failed: "\<not> is_ok (fst demo_failed)"
    by (simp add: demo_failed_def demo_failing_def demo_missed_def demo_run del: rmatch.simps)
  have run: "Materialize demo_location demo_failing () demo_schedule (Some (logged ''tick.v1'' demo_enqueues)) demo_call demo_missed
      = (fst demo_failed, fst (snd demo_failed), snd (snd demo_failed))"
    by (simp add: demo_failed_def)
  have "te_commit demo_failing = None" by (simp add: demo_failing_def demo_tx_env_def)
  then show ?thesis using materialize_atomic [OF run] failed by simp
qed

section \<open>The scheduler on the store\<close>

text \<open>What the scheduler relies on: a result the store returns passes the checks of \<open>validateResult\<close>.\<close>

locale schedule_contract =
  fixes S :: "('x, 's, 't) schedule_store"
  assumes result_valid: "ss_Materialize S d cb cx s = (Inr r, evs, s') \<Longrightarrow> validateResult d r = Inr ()"
begin

lemma run_definitions_sound:
  assumes "run_definitions S dispatcher cx i ds s = (rs, err, evs, jevs, s')"
  shows "(\<forall>e. err = Some e \<longrightarrow> (\<exists>d \<in> set ds. \<exists>e'. e = Wrapf ''schedule: materialize %s: %w'' [sd_name d] e'))
    \<and> subseq (map sr_Name rs) (map sd_name ds) \<and> list_all (\<lambda>r. sr_Outcome r \<noteq> OutcomeNotDue) rs
    \<and> map (\<lambda>e. (se_Name e, se_Outcome e, se_ScheduledAt e, se_JobID e)) evs
      = map (\<lambda>r. (sr_Name r, sr_Outcome r, sr_ScheduledAt r, sr_JobID r)) rs"
  using assms
proof (induction ds arbitrary: i s rs err evs jevs s')
  case (Cons d ds)
  obtain res jevs1 s1 where call: "ss_Materialize S d (Some (scheduler_callback dispatcher d)) (cx i) s = (res, jevs1, s1)"
    by (rule prod_cases3)
  show ?case
  proof (cases res)
    case (Inl e)
    then show ?thesis using Cons.prems call by auto
  next
    case (Inr r)
    have valid: "validateResult d r = Inr ()" using result_valid call Inr by blast
    then have name: "sr_Name r = sd_name d" by (simp add: validateResult_def split: if_splits)
    obtain rs' err' evs' jevs' s2 where rest: "run_definitions S dispatcher cx (Suc i) ds s1 = (rs', err', evs', jevs', s2)"
      by (cases "run_definitions S dispatcher cx (Suc i) ds s1") auto
    show ?thesis
      using Cons.prems Cons.IH [OF rest] call Inr valid rest name
      by (auto simp: subseq_Cons' split: if_splits)
  qed
qed simp

end

lemma plain_result_valid:
  "out \<in> {OutcomeNotDue, OutcomeMisfireSkipped, OutcomeContended} \<Longrightarrow> validateResult d (plain_result d out) = Inr ()"
  by (auto simp: validateResult_def plain_result_def is_zero_time_def)

lemma evaluate_row_valid:
  assumes "evaluate_row env nextf d tx f cx stored db = (Inr r, evs, db')"
  shows "validateResult d r = Inr ()"
  using assms
proof (cases rule: evaluate_row_cases)
  case (dispatched n rows oc out res jobs)
  have "oc \<noteq> 0" "time_truncate oc minute = oc" using latestOccurrence_window(3,4) [OF dispatched(3)] .
  with dispatched(5,7,9) show ?thesis by (auto simp: validateResult_def is_zero_time_def)
qed (simp_all add: plain_result_valid)

lemma Materialize_valid:
  assumes "Materialize utc env tx d cb cx db = (Inr r, evs, db')"
  shows "validateResult d r = Inr ()"
  using assms
proof (cases rule: Materialize_cases)
  case (applied f x evs')
  then have "x = r" by simp
  with applied(3) show ?thesis
    by (cases rule: materialize_work_cases) (auto simp: plain_result_valid dest: evaluate_row_valid)
qed simp

interpretation pgs: schedule_contract "pg_schedule_store utc tx" for utc :: location and tx :: 'x
  by unfold_locales (auto simp: pg_schedule_store_def Materialize_valid split: prod.splits)


definition demo_scheduler ::
    "(unit, nat \<times> (string \<times> time) list, (nat \<Rightarrow> tx_env) \<times> (nat \<times> (string \<times> time) list) sched_db) scheduler" where
  "demo_scheduler =
     \<lparr>sc_store = pg_schedule_store demo_location (), sc_registry = [(''tick.v1'', demo_schedule)],
      sc_dispatcher = \<lparr>dp_store = None, dp_executor = None, dp_maxPayloadBytes = 0\<rparr>,
      sc_config = \<lparr>sf_PollInterval = second, sf_OperationTimeout = second\<rparr>\<rparr>"

definition demo_busy :: "(nat \<Rightarrow> tx_env) \<times> (nat \<times> (string \<times> time) list) sched_db" where
  "demo_busy = ((\<lambda>_. (demo_tx_env (190 * minute))\<lparr>te_locked := [''tick.v1'']\<rparr>), demo_missed)"


end
