(* ===== verification/Migrate.thy ===== *)
theory Migrate
  imports Go_Regexp Go_Strings Database
begin

text \<open>
  Database migrations (\<^verbatim>\<open>src/database/migrate/migrate.go\<close>, \<^verbatim>\<open>errors.go\<close>). The database is the ledger table,
  with the state of its checksum column, and the application schema \<open>'d\<close>, on which the scripts act. What a script
  does, what a rollback leaves behind and which statements fail is the environment: the database is not part of the
  repository. The order of the ledger rows is the order in which a query without ORDER BY returns them and a loop
  over the applied migrations visits them; every order is covered. The text of the SQL statements, the advisory
  lock key and the text of a second error (a failing rollback or unlock after a failed run) are left out.
\<close>

section \<open>Types\<close>

definition ErrPendingMigration :: goerr where "ErrPendingMigration = Sentinel ''migrate: pending migration''"
definition ErrMigrationDrift :: goerr where "ErrMigrationDrift = Sentinel ''migrate: migration drift''"
definition ErrInvalidMigrationSource :: goerr where
  "ErrInvalidMigrationSource = Sentinel ''migrate: invalid migration source''"
definition ErrLedgerUpgradeRequired :: goerr where
  "ErrLedgerUpgradeRequired = Sentinel ''migrate: ledger upgrade required''"

datatype dialect = Postgres | MySQL | SQLite | OtherDialect string

record migration =
  mg_Version :: string
  mg_Name :: string
  mg_Up :: string
  mg_Down :: string

record migration_status =
  ms_Version :: string
  ms_Name :: string
  ms_Applied :: bool
  ms_AppliedAt :: "time option"

record applied_migration =
  am_Name :: string
  am_Checksum :: "string option"
  am_AppliedAt :: time

record migrator =
  mr_DB :: bool
  mr_Files :: bool
  mr_Dialect :: dialect
  mr_Table :: string

record ledger_row =
  lr_version :: string
  lr_name :: string
  lr_checksum :: "string option"
  lr_applied_at :: string

datatype checksum_column = NoChecksum | NullableChecksum | RequiredChecksum

record 'd mig_db =
  md_ledger :: "(checksum_column \<times> ledger_row list) option"
  md_schema :: 'd

text \<open>The statements of a run; the ones that concern one migration carry its version.\<close>

datatype mig_stmt =
    ReserveConn | AcquireLock | ReleaseLock | CreateLedger | InspectColumn | SelectApplied | AddChecksum
  | SelectLegacy | Backfill string | ConfirmBackfill string | Enforce | FindMarker | InsertMarker | AdvanceMarker
  | RemoveMarker | BeginTx string | RecordRow string | ListVersions | DeleteRow string

record 'd mig_env =
  me_fail :: "mig_stmt \<Rightarrow> goerr option"
  me_commit :: "string \<Rightarrow> (goerr \<times> bool) option"
  me_rollback :: "'d mig_db \<Rightarrow> 'd mig_db \<Rightarrow> 'd mig_db"
  me_exec :: "string \<Rightarrow> 'd \<Rightarrow> 'd result"
  me_now :: "string \<Rightarrow> string"
  me_parseTime :: "string \<Rightarrow> time result"
  me_sha256 :: "bytes \<Rightarrow> bytes"
  me_readDir :: "(string \<times> bool) list result"
  me_readFile :: "string \<Rightarrow> bytes result"

text \<open>A step of a run: its result and the database it leaves.\<close>

type_synonym ('a, 'd) mig = "'d mig_db \<Rightarrow> 'a result \<times> 'd mig_db"

definition mig_return :: "'a \<Rightarrow> ('a, 'd) mig" where
  "mig_return x db = (Inr x, db)"

definition mig_lift :: "'a result \<Rightarrow> ('a, 'd) mig" where
  "mig_lift r db = (r, db)"

definition mig_bind :: "('a, 'd) mig \<Rightarrow> ('a \<Rightarrow> ('b, 'd) mig) \<Rightarrow> ('b, 'd) mig" where
  "mig_bind m f db = (case m db of (Inl err, db1) \<Rightarrow> (Inl err, db1) | (Inr x, db1) \<Rightarrow> f x db1)"

text \<open>A statement that fails as the environment says, with the error wrapped, or acts on the database.\<close>

definition run_stmt ::
    "'d mig_env \<Rightarrow> mig_stmt \<Rightarrow> (goerr \<Rightarrow> goerr) \<Rightarrow> ('d mig_db \<Rightarrow> 'a \<times> 'd mig_db) \<Rightarrow> ('a, 'd) mig" where
  "run_stmt env st wrap act db =
     (case me_fail env st of
        Some err \<Rightarrow> (Inl (wrap err), db)
      | None \<Rightarrow> (case act db of (x, db1) \<Rightarrow> (Inr x, db1)))"

section \<open>Migration files\<close>

definition cls_digit :: "(char \<times> char) list" where
  "cls_digit = [(CHR ''0'', CHR ''9'')]"

definition cls_migration :: "(char \<times> char) list" where
  "cls_migration = [(CHR ''a'', CHR ''z''), (CHR ''A'', CHR ''Z''), (CHR ''0'', CHR ''9''), (CHR ''_'', CHR ''_''), (CHR ''-'', CHR ''-'')]"

definition migrationName :: rexp where
  "migrationName = seqs [Cls cls_digit, Star (Cls cls_digit), lit ''_'', Cls cls_migration, Star (Cls cls_migration),
     Alt (lit ''.up.sql'') (lit ''.down.sql'')]"

definition migration_table_rexp :: rexp where
  "migration_table_rexp = seqs [Cls [(CHR ''a'', CHR ''z''), (CHR ''A'', CHR ''Z''), (CHR ''_'', CHR ''_'')],
     Star (Cls [(CHR ''a'', CHR ''z''), (CHR ''A'', CHR ''Z''), (CHR ''0'', CHR ''9''), (CHR ''_'', CHR ''_'')])]"

text \<open>The submatches of the pattern: version, name and whether the direction is up.\<close>

definition migration_parts :: "string \<Rightarrow> (string \<times> string \<times> bool) option" where
  "migration_parts s =
     (let version = takeWhile (in_cls cls_digit) s; rest = drop (length version) s in
      if version = [] \<or> rest = [] \<or> hd rest \<noteq> CHR ''_'' then None
      else let name = takeWhile (in_cls cls_migration) (tl rest); suffix = drop (length name) (tl rest) in
        if name = [] then None
        else if suffix = ''.up.sql'' then Some (version, name, True)
        else if suffix = ''.down.sql'' then Some (version, name, False)
        else None)"

definition migration_checksum :: "'d mig_env \<Rightarrow> migration \<Rightarrow> string" where
  "migration_checksum env m = hex_encode (me_sha256 env (mg_Up m))"

fun load_entries :: "'d mig_env \<Rightarrow> (string \<times> bool) list \<Rightarrow> (string, migration) gomap \<Rightarrow> (string, migration) gomap result" where
  "load_entries env [] byVersion = Inr byVersion"
| "load_entries env ((entry, isDir) # es) byVersion =
     (if isDir then load_entries env es byVersion
      else case migration_parts entry of
        None \<Rightarrow> load_entries env es byVersion
      | Some (version, name, up) \<Rightarrow>
          (let m = (case map_of byVersion version of
                      None \<Rightarrow> \<lparr>mg_Version = version, mg_Name = name, mg_Up = [], mg_Down = []\<rparr> | Some m \<Rightarrow> m) in
           if mg_Name m \<noteq> name
           then Inl (Wrapf ''%w: migration version %s has inconsistent names'' [version] ErrInvalidMigrationSource)
           else (case me_readFile env entry of
                   Inl err \<Rightarrow> Inl err
                 | Inr contents \<Rightarrow>
                     load_entries env es
                       (AList.update version (if up then m\<lparr>mg_Up := contents\<rparr> else m\<lparr>mg_Down := contents\<rparr>) byVersion))))"

fun check_pairs :: "migration list \<Rightarrow> unit result" where
  "check_pairs [] = Inr ()"
| "check_pairs (m # ms) =
     (if TrimSpace (mg_Up m) = [] \<or> TrimSpace (mg_Down m) = []
      then Inl (Wrapf ''%w: migration %s must have both .up.sql and .down.sql files (missing or empty %s script)''
             [mg_Version m, if TrimSpace (mg_Up m) \<noteq> [] then ''down'' else ''up''] ErrInvalidMigrationSource)
      else check_pairs ms)"

definition Migrator_load :: "'d mig_env \<Rightarrow> migration list result" where
  "Migrator_load env =
     (case me_readDir env of
        Inl err \<Rightarrow> Inl (Wrapf ''read migrations: %w'' [] err)
      | Inr entries \<Rightarrow>
          (case load_entries env entries [] of
             Inl err \<Rightarrow> Inl err
           | Inr byVersion \<Rightarrow>
               (case check_pairs (map snd byVersion) of
                  Inl err \<Rightarrow> Inl err
                | Inr _ \<Rightarrow> Inr (sort_key mg_Version (map snd byVersion)))))"
section \<open>The ledger\<close>

definition mysqlUpgradeMarker :: string where "mysqlUpgradeMarker = ''__goforge_checksum_upgrade__''"

definition undefined_column :: goerr where "undefined_column = Sentinel ''undefined table or column''"
definition null_violation :: goerr where "null_violation = Sentinel ''null value in column''"
definition key_violation :: goerr where "key_violation = Sentinel ''duplicate key value''"

definition Migrator_table :: "migrator \<Rightarrow> string result" where
  "Migrator_table mr =
     (if mr_Table mr = [] then Inr ''schema_migrations''
      else if \<not> rmatch migration_table_rexp (mr_Table mr)
      then Inl (Errorf ''migrate: unsafe table name %q'' [mr_Table mr])
      else Inr (mr_Table mr))"

definition Migrator_validate :: "migrator \<Rightarrow> unit result" where
  "Migrator_validate mr =
     (if \<not> mr_DB mr \<or> \<not> mr_Files mr then Inl (Errorf ''migrator requires DB and Files'' [])
      else case mr_Dialect mr of
        OtherDialect d \<Rightarrow> Inl (Errorf ''unsupported SQL dialect %q'' [d])
      | _ \<Rightarrow> Inr ())"

text \<open>A ledger statement works on the rows of a table whose checksum column exists, or fails.\<close>

definition ledger_rows :: "'d mig_db \<Rightarrow> ledger_row list" where
  "ledger_rows db = (case md_ledger db of None \<Rightarrow> [] | Some (col, rows) \<Rightarrow> rows)"

definition set_rows :: "ledger_row list \<Rightarrow> 'd mig_db \<Rightarrow> 'd mig_db" where
  "set_rows rows db = db\<lparr>md_ledger := map_option (\<lambda>(col, _). (col, rows)) (md_ledger db)\<rparr>"

definition has_checksum :: "'d mig_db \<Rightarrow> bool" where
  "has_checksum db = (case md_ledger db of None \<Rightarrow> False | Some (col, rows) \<Rightarrow> col \<noteq> NoChecksum)"

definition columnState :: "'d mig_env \<Rightarrow> (bool \<times> bool, 'd) mig" where
  "columnState env = run_stmt env InspectColumn (\<lambda>e. e)
     (\<lambda>db. (case md_ledger db of
              None \<Rightarrow> (False, False)
            | Some (NoChecksum, _) \<Rightarrow> (False, False)
            | Some (NullableChecksum, _) \<Rightarrow> (True, True)
            | Some (RequiredChecksum, _) \<Rightarrow> (True, False), db))"

fun scan_applied :: "'d mig_env \<Rightarrow> dialect \<Rightarrow> ledger_row list \<Rightarrow> (string, applied_migration) gomap \<Rightarrow>
    (string, applied_migration) gomap result" where
  "scan_applied env dia [] result = Inr result"
| "scan_applied env dia (r # rs) result =
     (if dia = MySQL \<and> lr_version r = mysqlUpgradeMarker then scan_applied env dia rs result
      else case me_parseTime env (lr_applied_at r) of
        Inl err \<Rightarrow> Inl (Wrapf ''parse applied time for migration %s: %w'' [lr_version r] err)
      | Inr appliedAt \<Rightarrow>
          scan_applied env dia rs
            (AList.update (lr_version r) \<lparr>am_Name = lr_name r, am_Checksum = lr_checksum r, am_AppliedAt = appliedAt\<rparr> result))"

definition Migrator_applied ::
    "'d mig_env \<Rightarrow> migrator \<Rightarrow> mig_stmt \<Rightarrow> ((string, applied_migration) gomap, 'd) mig" where
  "Migrator_applied env mr st =
     mig_bind (mig_lift (Migrator_table mr)) (\<lambda>_.
     mig_bind (run_stmt env st (\<lambda>e. e) (\<lambda>db. (has_checksum db, db))) (\<lambda>present db.
     if \<not> present then (Inl undefined_column, db)
     else (scan_applied env (mr_Dialect mr) (ledger_rows db) [], db)))"

definition backfill_rows :: "string \<Rightarrow> string \<Rightarrow> ledger_row list \<Rightarrow> ledger_row list" where
  "backfill_rows version expected rows =
     map (\<lambda>r. if lr_version r = version \<and> lr_checksum r = None then r\<lparr>lr_checksum := Some expected\<rparr> else r) rows"

text \<open>The loop over the applied migrations.\<close>

fun verify_loop ::
    "'d mig_env \<Rightarrow> (string, migration) gomap \<Rightarrow> bool \<Rightarrow> (string, applied_migration) gomap \<Rightarrow> (unit, 'd) mig" where
  "verify_loop env byVersion allowBackfill [] db = (Inr (), db)"
| "verify_loop env byVersion allowBackfill ((version, recorded) # rest) db =
     (case map_of byVersion version of
        None \<Rightarrow> (Inl (Wrapf ''%w: applied migration %s is missing from the migration filesystem'' [version] ErrMigrationDrift), db)
      | Some m \<Rightarrow>
          if am_Name recorded \<noteq> mg_Name m
          then (Inl (Wrapf ''%w: applied migration %s name mismatch: database has %q, filesystem has %q''
                  [version, am_Name recorded, mg_Name m] ErrMigrationDrift), db)
          else (case am_Checksum recorded of
                  Some c \<Rightarrow>
                    if c \<noteq> migration_checksum env m
                    then (Inl (Wrapf ''%w: applied migration %s checksum mismatch'' [version] ErrMigrationDrift), db)
                    else verify_loop env byVersion allowBackfill rest db
                | None \<Rightarrow>
                    if \<not> allowBackfill
                    then (Inl (Wrapf ''%w: applied migration %s has no checksum; refusing to rebaseline'' [version]
                            ErrMigrationDrift), db)
                    else (case me_fail env (Backfill version) of
                      Some err \<Rightarrow> (Inl (Wrapf ''backfill checksum for migration %s: %w'' [version] err), db)
                    | None \<Rightarrow>
                        let affected = length (filter (\<lambda>r. lr_version r = version \<and> lr_checksum r = None) (ledger_rows db));
                            db1 = set_rows (backfill_rows version (migration_checksum env m) (ledger_rows db)) db
                        in (case me_fail env (ConfirmBackfill version) of
                              Some err \<Rightarrow> (Inl (Wrapf ''confirm checksum backfill for migration %s: %w'' [version] err), db1)
                            | None \<Rightarrow>
                                if affected \<noteq> 1
                                then (Inl (Errorf ''backfill checksum for migration %s affected %d rows''
                                        [version, Itoa (int affected)]), db1)
                                else verify_loop env byVersion allowBackfill rest db1))))"

definition by_version :: "migration list \<Rightarrow> (string, migration) gomap" where
  "by_version ms = fold (\<lambda>m. AList.update (mg_Version m) m) ms []"

definition verifyApplied ::
    "'d mig_env \<Rightarrow> migrator \<Rightarrow> migration list \<Rightarrow> (string, applied_migration) gomap \<Rightarrow> bool \<Rightarrow> (unit, 'd) mig" where
  "verifyApplied env mr ms applied allowBackfill =
     mig_bind (mig_lift (Migrator_table mr)) (\<lambda>_. verify_loop env (by_version ms) allowBackfill applied)"

section \<open>Preparing the ledger\<close>

definition inTransaction :: "'d mig_env \<Rightarrow> string \<Rightarrow> (unit, 'd) mig \<Rightarrow> (unit, 'd) mig" where
  "inTransaction env version work db =
     (case me_fail env (BeginTx version) of
        Some err \<Rightarrow> (Inl (Wrapf ''begin migration transaction: %w'' [] err), db)
      | None \<Rightarrow>
          (case work db of
             (Inl err, db1) \<Rightarrow> (Inl err, me_rollback env db db1)
           | (Inr _, db1) \<Rightarrow>
               (case me_commit env version of
                  Some (err, applied) \<Rightarrow>
                    (Inl (Wrapf ''commit migration transaction: %w'' [] err), if applied then db1 else me_rollback env db db1)
                | None \<Rightarrow> (Inr (), db1))))"

definition create_ledger :: "'d mig_db \<Rightarrow> 'd mig_db" where
  "create_ledger db = (case md_ledger db of None \<Rightarrow> db\<lparr>md_ledger := Some (RequiredChecksum, [])\<rparr> | Some _ \<Rightarrow> db)"

definition addNullableChecksum :: "'d mig_env \<Rightarrow> migrator \<Rightarrow> (unit, 'd) mig" where
  "addNullableChecksum env mr =
     mig_bind (mig_lift (Migrator_table mr)) (\<lambda>_.
     run_stmt env AddChecksum (Wrapf ''upgrade migrations table: %w'' []) (\<lambda>db. ((),
       db\<lparr>md_ledger := map_option (\<lambda>(_, rows). (NullableChecksum, map (lr_checksum_update (\<lambda>_. None)) rows)) (md_ledger db)\<rparr>)))"

definition enforceChecksumNotNull :: "'d mig_env \<Rightarrow> migrator \<Rightarrow> (unit, 'd) mig" where
  "enforceChecksumNotNull env mr =
     mig_bind (mig_lift (Migrator_table mr)) (\<lambda>_ db.
     case mr_Dialect mr of
       OtherDialect d \<Rightarrow> (Inl (Errorf ''unsupported SQL dialect %q'' [d]), db)
     | _ \<Rightarrow>
        (case me_fail env Enforce of
           Some err \<Rightarrow> (Inl (Wrapf ''enforce migration checksum constraint: %w'' [] err), db)
         | None \<Rightarrow>
             if list_ex (\<lambda>r. lr_checksum r = None) (ledger_rows db)
             then (Inl (Wrapf ''enforce migration checksum constraint: %w'' [] null_violation), db)
             else (Inr (), db\<lparr>md_ledger := Some (RequiredChecksum, ledger_rows db)\<rparr>)))"

definition removeMySQLUpgradeMarker :: "'d mig_env \<Rightarrow> migrator \<Rightarrow> (unit, 'd) mig" where
  "removeMySQLUpgradeMarker env mr =
     mig_bind (mig_lift (Migrator_table mr)) (\<lambda>_.
     run_stmt env RemoveMarker (Wrapf ''finish MySQL checksum upgrade: %w'' [])
       (\<lambda>db. ((), set_rows (filter (\<lambda>r. lr_version r \<noteq> mysqlUpgradeMarker) (ledger_rows db)) db)))"

definition mysqlUpgradeMarkerExists :: "'d mig_env \<Rightarrow> migrator \<Rightarrow> (bool, 'd) mig" where
  "mysqlUpgradeMarkerExists env mr =
     mig_bind (mig_lift (Migrator_table mr)) (\<lambda>_.
     run_stmt env FindMarker (Wrapf ''inspect MySQL checksum upgrade: %w'' [])
       (\<lambda>db. (list_ex (\<lambda>r. lr_version r = mysqlUpgradeMarker) (ledger_rows db), db)))"

definition insert_marker :: "'d mig_env \<Rightarrow> (unit, 'd) mig" where
  "insert_marker env = run_stmt env InsertMarker (Wrapf ''record MySQL checksum upgrade: %w'' [])
     (\<lambda>db. ((), set_rows (ledger_rows db @ [\<lparr>lr_version = mysqlUpgradeMarker, lr_name = mysqlUpgradeMarker,
        lr_checksum = None, lr_applied_at = me_now env mysqlUpgradeMarker\<rparr>]) db))"

definition advance_marker :: "'d mig_env \<Rightarrow> (unit, 'd) mig" where
  "advance_marker env = run_stmt env AdvanceMarker (Wrapf ''advance MySQL checksum upgrade: %w'' [])
     (\<lambda>db. ((), set_rows (map (\<lambda>r. if lr_version r = mysqlUpgradeMarker
        then r\<lparr>lr_checksum := Some (hex_encode (me_sha256 env mysqlUpgradeMarker))\<rparr> else r) (ledger_rows db)) db))"

definition upgradeMySQLChecksums :: "'d mig_env \<Rightarrow> migrator \<Rightarrow> migration list \<Rightarrow> bool \<Rightarrow> (unit, 'd) mig" where
  "upgradeMySQLChecksums env mr ms hasChecksum =
     mig_bind (mig_lift (Migrator_table mr)) (\<lambda>_.
     mig_bind (mysqlUpgradeMarkerExists env mr) (\<lambda>markerExists.
     mig_bind (if markerExists then mig_return () else insert_marker env) (\<lambda>_.
     mig_bind (if hasChecksum then mig_return () else addNullableChecksum env mr) (\<lambda>_.
     mig_bind (Migrator_applied env mr SelectLegacy) (\<lambda>applied.
     mig_bind (verifyApplied env mr ms applied True) (\<lambda>_.
     mig_bind (advance_marker env) (\<lambda>_.
     mig_bind (enforceChecksumNotNull env mr) (\<lambda>_.
     removeMySQLUpgradeMarker env mr))))))))"

definition upgradeLegacyChecksums :: "'d mig_env \<Rightarrow> migrator \<Rightarrow> migration list \<Rightarrow> bool \<Rightarrow> (unit, 'd) mig" where
  "upgradeLegacyChecksums env mr ms hasChecksum =
     (if mr_Dialect mr = MySQL then upgradeMySQLChecksums env mr ms hasChecksum
      else inTransaction env ''checksum upgrade''
        (mig_bind (if hasChecksum then mig_return () else addNullableChecksum env mr) (\<lambda>_.
         mig_bind (Migrator_applied env mr SelectLegacy) (\<lambda>applied.
         mig_bind (verifyApplied env mr ms applied True) (\<lambda>_.
         enforceChecksumNotNull env mr)))))"

definition inspect_ledger :: "'d mig_env \<Rightarrow> (bool \<times> bool, 'd) mig" where
  "inspect_ledger env db =
     (case columnState env db of
        (Inl err, db1) \<Rightarrow> (Inl (Wrapf ''inspect migrations table: %w'' [] err), db1)
      | (Inr x, db1) \<Rightarrow> (Inr x, db1))"

definition Migrator_prepare :: "'d mig_env \<Rightarrow> migrator \<Rightarrow> migration list \<Rightarrow> (unit, 'd) mig" where
  "Migrator_prepare env mr ms =
     mig_bind (mig_lift (Migrator_validate mr)) (\<lambda>_.
     mig_bind (mig_lift (Migrator_table mr)) (\<lambda>_.
     mig_bind (run_stmt env CreateLedger (Wrapf ''prepare migrations table: %w'' []) (\<lambda>db. ((), create_ledger db))) (\<lambda>_.
     mig_bind (inspect_ledger env) (\<lambda>(hasChecksum, checksumNullable).
     if \<not> hasChecksum \<or> checksumNullable then upgradeLegacyChecksums env mr ms hasChecksum
     else if mr_Dialect mr = MySQL then removeMySQLUpgradeMarker env mr
     else mig_return ()))))"

section \<open>Runs\<close>

text \<open>A run that goes through the advisory lock; its result is always there, besides an error.\<close>

type_synonym ('a, 'd) mig_run = "'d mig_db \<Rightarrow> 'a \<times> goerr option \<times> 'd mig_db"

definition withRunLock :: "'d mig_env \<Rightarrow> migrator \<Rightarrow> 'a \<Rightarrow> ('a, 'd) mig_run \<Rightarrow> ('a, 'd) mig_run" where
  "withRunLock env mr nothing work db =
     (if \<not> mr_DB mr \<or> \<not> mr_Files mr then (nothing, Some (Errorf ''migrator requires DB and Files'' []), db)
      else if mr_Dialect mr \<noteq> Postgres then work db
      else case me_fail env ReserveConn of
        Some err \<Rightarrow> (nothing, Some (Wrapf ''reserve migration connection: %w'' [] err), db)
      | None \<Rightarrow>
          (case me_fail env AcquireLock of
             Some err \<Rightarrow> (nothing, Some (Wrapf ''acquire PostgreSQL migration lock: %w'' [] err), db)
           | None \<Rightarrow>
               (case work db of
                  (x, err, db1) \<Rightarrow>
                    (x, (case (err, me_fail env ReleaseLock) of
                           (None, Some e) \<Rightarrow> Some (Wrapf ''release PostgreSQL migration lock: %w'' [] e)
                         | _ \<Rightarrow> err), db1))))"

text \<open>What every run does first: read the files, prepare the ledger, and check what has been applied.\<close>

definition run_begin :: "'d mig_env \<Rightarrow> migrator \<Rightarrow> (migration list \<times> (string, applied_migration) gomap, 'd) mig" where
  "run_begin env mr =
     mig_bind (mig_lift (Migrator_load env)) (\<lambda>ms.
     mig_bind (Migrator_prepare env mr ms) (\<lambda>_.
     mig_bind (Migrator_applied env mr SelectApplied) (\<lambda>applied.
     mig_bind (verifyApplied env mr ms applied False) (\<lambda>_.
     mig_return (ms, applied)))))"

definition exec_script :: "'d mig_env \<Rightarrow> (goerr \<Rightarrow> goerr) \<Rightarrow> string \<Rightarrow> (unit, 'd) mig" where
  "exec_script env wrap script db =
     (case me_exec env script (md_schema db) of
        Inl err \<Rightarrow> (Inl (wrap err), db)
      | Inr schema \<Rightarrow> (Inr (), db\<lparr>md_schema := schema\<rparr>))"

definition up_row :: "'d mig_env \<Rightarrow> migration \<Rightarrow> ledger_row" where
  "up_row env m = \<lparr>lr_version = mg_Version m, lr_name = mg_Name m, lr_checksum = Some (migration_checksum env m),
     lr_applied_at = me_now env (mg_Version m)\<rparr>"

definition record_row :: "'d mig_env \<Rightarrow> migration \<Rightarrow> (unit, 'd) mig" where
  "record_row env m db =
     (case me_fail env (RecordRow (mg_Version m)) of
        Some err \<Rightarrow> (Inl (Wrapf ''record migration %s: %w'' [mg_Version m] err), db)
      | None \<Rightarrow>
          if list_ex (\<lambda>r. lr_version r = mg_Version m) (ledger_rows db)
          then (Inl (Wrapf ''record migration %s: %w'' [mg_Version m] key_violation), db)
          else (Inr (), set_rows (ledger_rows db @ [up_row env m]) db))"

definition apply_up :: "'d mig_env \<Rightarrow> migrator \<Rightarrow> migration \<Rightarrow> (unit, 'd) mig" where
  "apply_up env mr m = inTransaction env (mg_Version m)
     (mig_bind (exec_script env (Wrapf ''execute migration %s: %w'' [mg_Version m]) (mg_Up m)) (\<lambda>_.
      mig_bind (mig_lift (Migrator_table mr)) (\<lambda>_. record_row env m)))"

fun up_loop ::
    "'d mig_env \<Rightarrow> migrator \<Rightarrow> int \<Rightarrow> (string, applied_migration) gomap \<Rightarrow> migration list \<Rightarrow> migration list \<Rightarrow>
     (migration list, 'd) mig_run" where
  "up_loop env mr limit applied [] completed db = (completed, None, db)"
| "up_loop env mr limit applied (m # ms) completed db =
     (if map_of applied (mg_Version m) \<noteq> None then up_loop env mr limit applied ms completed db
      else if limit > 0 \<and> int (length completed) \<ge> limit then (completed, None, db)
      else if TrimSpace (mg_Up m) = []
      then (completed, Some (Errorf ''migration %s has an empty up script'' [mg_Version m]), db)
      else case apply_up env mr m db of
        (Inl err, db1) \<Rightarrow> (completed, Some err, db1)
      | (Inr _, db1) \<Rightarrow> up_loop env mr limit applied ms (completed @ [m]) db1)"

definition Migrator_Up :: "'d mig_env \<Rightarrow> migrator \<Rightarrow> int \<Rightarrow> (migration list, 'd) mig_run" where
  "Migrator_Up env mr limit = withRunLock env mr [] (\<lambda>db.
     case run_begin env mr db of
       (Inl err, db1) \<Rightarrow> ([], Some err, db1)
     | (Inr (ms, applied), db1) \<Rightarrow> up_loop env mr limit applied ms [] db1)"

definition apply_down :: "'d mig_env \<Rightarrow> migration \<Rightarrow> (unit, 'd) mig" where
  "apply_down env m = inTransaction env (mg_Version m)
     (mig_bind (exec_script env (Wrapf ''rollback migration %s: %w'' [mg_Version m]) (mg_Down m)) (\<lambda>_.
      run_stmt env (DeleteRow (mg_Version m)) (\<lambda>e. e)
        (\<lambda>db. ((), set_rows (filter (\<lambda>r. lr_version r \<noteq> mg_Version m) (ledger_rows db)) db))))"

fun down_loop ::
    "'d mig_env \<Rightarrow> (string, migration) gomap \<Rightarrow> string list \<Rightarrow> migration list \<Rightarrow> (migration list, 'd) mig_run" where
  "down_loop env byVersion [] completed db = (completed, None, db)"
| "down_loop env byVersion (version # vs) completed db =
     (case map_of byVersion version of
        None \<Rightarrow> (completed, Some (Errorf ''applied migration %s is missing from the migration filesystem'' [version]), db)
      | Some m \<Rightarrow>
          if TrimSpace (mg_Down m) = []
          then (completed, Some (Errorf ''migration %s has an empty down script'' [version]), db)
          else (case apply_down env m db of
                  (Inl err, db1) \<Rightarrow> (completed, Some err, db1)
                | (Inr _, db1) \<Rightarrow> down_loop env byVersion vs (completed @ [m]) db1))"

text \<open>The latest versions of the ledger.\<close>

definition latest_versions :: "int \<Rightarrow> ledger_row list \<Rightarrow> string list" where
  "latest_versions steps rows = take (nat steps) (rev (sort (map lr_version rows)))"

definition Migrator_Down :: "'d mig_env \<Rightarrow> migrator \<Rightarrow> int \<Rightarrow> (migration list, 'd) mig_run" where
  "Migrator_Down env mr steps0 = (let steps = (if steps0 \<le> 0 then 1 else steps0) in
     withRunLock env mr [] (\<lambda>db.
     case mig_bind (run_begin env mr) (\<lambda>(ms, applied).
            mig_bind (mig_lift (Migrator_table mr)) (\<lambda>_.
            mig_bind (run_stmt env ListVersions (Wrapf ''list applied migrations: %w'' [])
                        (\<lambda>db. (latest_versions steps (ledger_rows db), db))) (\<lambda>versions.
            mig_return (ms, versions)))) db of
       (Inl err, db1) \<Rightarrow> ([], Some err, db1)
     | (Inr (ms, versions), db1) \<Rightarrow> down_loop env (by_version ms) versions [] db1))"

definition status_of :: "(string, applied_migration) gomap \<Rightarrow> migration \<Rightarrow> migration_status" where
  "status_of applied m = \<lparr>ms_Version = mg_Version m, ms_Name = mg_Name m,
     ms_Applied = (map_of applied (mg_Version m) \<noteq> None),
     ms_AppliedAt = map_option am_AppliedAt (map_of applied (mg_Version m))\<rparr>"

definition Migrator_Status :: "'d mig_env \<Rightarrow> migrator \<Rightarrow> (migration_status list, 'd) mig_run" where
  "Migrator_Status env mr = withRunLock env mr [] (\<lambda>db.
     case run_begin env mr db of
       (Inl err, db1) \<Rightarrow> ([], Some err, db1)
     | (Inr (ms, applied), db1) \<Rightarrow> (map (status_of applied) ms, None, db1))"

fun pending_loop :: "(string, applied_migration) gomap \<Rightarrow> migration list \<Rightarrow> unit result" where
  "pending_loop applied [] = Inr ()"
| "pending_loop applied (m # ms) =
     (if map_of applied (mg_Version m) = None
      then Inl (Wrapf ''%w: migration %s is pending'' [mg_Version m] ErrPendingMigration)
      else pending_loop applied ms)"

definition Migrator_Verify :: "'d mig_env \<Rightarrow> migrator \<Rightarrow> (unit, 'd) mig" where
  "Migrator_Verify env mr =
     mig_bind (mig_lift (Migrator_validate mr)) (\<lambda>_.
     mig_bind (mig_lift (Migrator_load env)) (\<lambda>ms.
     mig_bind (mig_lift (Migrator_table mr)) (\<lambda>_.
     mig_bind (inspect_ledger env) (\<lambda>(hasChecksum, checksumNullable).
     if \<not> hasChecksum \<or> checksumNullable
     then mig_lift (Inl (Wrapf ''%w: migration ledger requires an operational upgrade'' [] ErrLedgerUpgradeRequired))
     else mig_bind (Migrator_applied env mr SelectApplied) (\<lambda>applied.
          mig_bind (verifyApplied env mr ms applied False) (\<lambda>_.
          mig_lift (pending_loop applied ms)))))))"

end
