(* ===== verification/Migrate_Props.thy ===== *)
theory Migrate_Props
  imports Migrate "HOL-Library.Multiset"
begin

text \<open>
  The correctness of the migrator on a database whose transactions roll back completely, which PostgreSQL and SQLite
  document and MySQL does not for its DDL: the ledger and the schema move together and in version order, drift stops a
  run before any script, and a complete run is what Verify accepts.
\<close>

section \<open>Steps\<close>

definition transactional :: "'d mig_env \<Rightarrow> bool" where
  "transactional env \<longleftrightarrow> (\<forall>db db1. me_rollback env db db1 = db)"

definition ambiguous_commit :: "'d mig_env \<Rightarrow> bool" where
  "ambiguous_commit env \<longleftrightarrow> (\<exists>version err. me_commit env version = Some (err, True))"

lemma mig_bind_Inr: "mig_bind m f db = (Inr x, db') \<longleftrightarrow> (\<exists>y db1. m db = (Inr y, db1) \<and> f y db1 = (Inr x, db'))"
  by (auto simp: mig_bind_def split: prod.splits sum.splits)

lemma mig_lift_Inr: "mig_lift r db = (Inr x, db') \<longleftrightarrow> r = Inr x \<and> db' = db"
  by (auto simp: mig_lift_def)

lemma mig_return_Inr: "mig_return y db = (Inr x, db') \<longleftrightarrow> x = y \<and> db' = db"
  by (auto simp: mig_return_def)

lemma run_stmt_Inr:
  "run_stmt env st wrap act db = (Inr x, db') \<longleftrightarrow> me_fail env st = None \<and> act db = (x, db')"
  by (auto simp: run_stmt_def split: option.splits prod.splits)

lemmas mig_steps = mig_bind_Inr mig_lift_Inr mig_return_Inr run_stmt_Inr

lemma inTransaction_cases:
  assumes "inTransaction env version work db = (r, db')" and "transactional env"
  obtains (refused) e where "r = Inl e" "db' = db"
  | (applied) u where "work db = (Inr u, db')" "r = Inr () \<or> (\<exists>e. r = Inl e) \<and> ambiguous_commit env"
proof (cases "me_fail env (BeginTx version)")
  case (Some e)
  with assms refused show ?thesis by (auto simp: inTransaction_def)
next
  case None
  obtain w db1 where work: "work db = (w, db1)" by (cases "work db")
  show ?thesis
  proof (cases w)
    case (Inl e)
    with None work assms refused show ?thesis by (auto simp: inTransaction_def transactional_def)
  next
    case (Inr u)
    show ?thesis
    proof (cases "me_commit env version")
      case None': None
      with None Inr work assms show ?thesis by (intro applied [of u]) (auto simp: inTransaction_def)
    next
      case (Some ea)
      obtain e ok where ea: "ea = (e, ok)" by (cases ea)
      show ?thesis
      proof (cases ok)
        case True
        with None Inr work Some ea assms show ?thesis
          by (intro applied [of u]) (auto simp: inTransaction_def ambiguous_commit_def)
      next
        case False
        with None Inr work Some ea assms refused show ?thesis by (auto simp: inTransaction_def transactional_def)
      qed
    qed
  qed
qed

lemma ledger_rows_set: "md_ledger db \<noteq> None \<Longrightarrow> ledger_rows (set_rows rows db) = rows"
  by (auto simp: ledger_rows_def set_rows_def)

lemma set_rows_simps [simp]:
  "md_schema (set_rows rows db) = md_schema db" "md_ledger (set_rows rows db) = None \<longleftrightarrow> md_ledger db = None"
  "ledger_rows (db\<lparr>md_schema := s\<rparr>) = ledger_rows db" "set_rows rows (set_rows rows' db) = set_rows rows db"
  "set_rows rows (db\<lparr>md_schema := s\<rparr>) = (set_rows rows db)\<lparr>md_schema := s\<rparr>"
  by (cases "md_ledger db"; auto simp: set_rows_def ledger_rows_def)+

lemma set_rows_id: "set_rows (ledger_rows db) db = db"
  by (cases "md_ledger db") (auto simp: set_rows_def ledger_rows_def)

lemma apply_up_cases:
  assumes "apply_up env mr m db = (r, db')" and "transactional env" and "md_ledger db \<noteq> None"
  obtains (refused) e where "r = Inl e" "db' = db"
  | (applied) s where "me_exec env (mg_Up m) (md_schema db) = Inr s"
      "db' = (set_rows (ledger_rows db @ [up_row env m]) db)\<lparr>md_schema := s\<rparr>"
      "mg_Version m \<notin> lr_version ` set (ledger_rows db)"
      "r = Inr () \<or> (\<exists>e. r = Inl e) \<and> ambiguous_commit env"
proof -
  from assms(1) have tx: "inTransaction env (mg_Version m)
     (mig_bind (exec_script env (Wrapf ''execute migration %s: %w'' [mg_Version m]) (mg_Up m)) (\<lambda>_.
      mig_bind (mig_lift (Migrator_table mr)) (\<lambda>_. record_row env m))) db = (r, db')"
    by (simp add: apply_up_def)
  from tx assms(2) show ?thesis
  proof (cases rule: inTransaction_cases)
    case (refused e)
    then show ?thesis using that(1) by blast
  next
    case (applied u)
    then obtain s where s: "me_exec env (mg_Up m) (md_schema db) = Inr s"
      and rec: "record_row env m (db\<lparr>md_schema := s\<rparr>) = (Inr u, db')"
      by (auto simp: mig_steps exec_script_def split: sum.splits)
    from rec have "mg_Version m \<notin> lr_version ` set (ledger_rows db)"
    "db' = (set_rows (ledger_rows db @ [up_row env m]) db)\<lparr>md_schema := s\<rparr>"
      by (auto simp: record_row_def list_ex_iff split: option.splits if_splits)
    then show ?thesis using that(2) s applied by blast
  qed
qed

section \<open>The loop of an upward run\<close>

fun exec_all :: "'d mig_env \<Rightarrow> string list \<Rightarrow> 'd \<Rightarrow> 'd result" where
  "exec_all env [] s = Inr s"
| "exec_all env (script # scripts) s =
     (case me_exec env script s of Inl err \<Rightarrow> Inl err | Inr s1 \<Rightarrow> exec_all env scripts s1)"

text \<open>The database after the migrations \<open>ms\<close>: their scripts have run, in order, and each has its row.\<close>

definition migrated :: "'d mig_env \<Rightarrow> migration list \<Rightarrow> 'd mig_db \<Rightarrow> 'd mig_db \<Rightarrow> bool" where
  "migrated env ms db db' \<longleftrightarrow> exec_all env (map mg_Up ms) (md_schema db) = Inr (md_schema db')
     \<and> db' = (set_rows (ledger_rows db @ map (up_row env) ms) db)\<lparr>md_schema := md_schema db'\<rparr>"

lemma migrated_Nil: "migrated env [] db db"
  by (simp add: migrated_def set_rows_id)

lemma migrated_Cons:
  assumes "me_exec env (mg_Up m) (md_schema db) = Inr s" and "md_ledger db \<noteq> None"
    and "migrated env ms ((set_rows (ledger_rows db @ [up_row env m]) db)\<lparr>md_schema := s\<rparr>) db'"
  shows "migrated env (m # ms) db db'"
  using assms by (simp add: migrated_def ledger_rows_set)

text \<open>What a run that still has the migrations \<open>pending\<close> before it may end with: the completed ones are its first
  migrations, and one more may have been applied by a commit that reported an error.\<close>

definition up_spec :: "'d mig_env \<Rightarrow> int \<Rightarrow> migration list \<Rightarrow> migration list \<Rightarrow> 'd mig_db \<Rightarrow>
    migration list \<times> goerr option \<times> 'd mig_db \<Rightarrow> bool" where
  "up_spec env limit pending completed db out \<longleftrightarrow> (case out of (completed', err, db') \<Rightarrow>
     \<exists>fin extra. completed' = completed @ fin \<and> migrated env (fin @ extra) db db' \<and> prefix (fin @ extra) pending
       \<and> (extra \<noteq> [] \<longrightarrow> err \<noteq> None \<and> length extra = 1 \<and> ambiguous_commit env)
       \<and> (err = None \<longrightarrow> fin = (if limit > 0 then take (nat limit - length completed) pending else pending)))"

lemma up_spec_stop:
  assumes "err = None \<Longrightarrow> pending = [] \<or> limit > 0 \<and> int (length completed) \<ge> limit"
  shows "up_spec env limit pending completed db (completed, err, db)"
proof -
  have "err = None \<longrightarrow> [] = (if limit > 0 then take (nat limit - length completed) pending else pending)"
    using assms by auto
  then show ?thesis
    unfolding up_spec_def prod.case by (intro exI [of _ "[]"]) (simp add: migrated_Nil)
qed

lemma up_spec_ambiguous:
  assumes "migrated env [m] db db'" and "ambiguous_commit env"
  shows "up_spec env limit (m # pending) completed db (completed, Some e, db')"
  unfolding up_spec_def prod.case
  by (intro exI [of _ "[]"] exI [of _ "[m]"]) (simp add: assms)

lemma up_spec_step:
  assumes "up_spec env limit pending (completed @ [m]) db1 out" and "me_exec env (mg_Up m) (md_schema db) = Inr s"
    and "md_ledger db \<noteq> None" and "db1 = (set_rows (ledger_rows db @ [up_row env m]) db)\<lparr>md_schema := s\<rparr>"
    and "\<not> (limit > 0 \<and> int (length completed) \<ge> limit)"
  shows "up_spec env limit (m # pending) completed db out"
proof -
  obtain completed' err db' where out: "out = (completed', err, db')" by (rule prod_cases3)
  from assms(1) obtain fin extra where spec: "completed' = (completed @ [m]) @ fin" "migrated env (fin @ extra) db1 db'"
    "prefix (fin @ extra) pending" "extra \<noteq> [] \<longrightarrow> err \<noteq> None \<and> length extra = 1 \<and> ambiguous_commit env"
    "err = None \<longrightarrow> fin = (if limit > 0 then take (nat limit - length (completed @ [m])) pending else pending)"
    unfolding up_spec_def out prod.case by blast
  have "nat limit - length completed = Suc (nat limit - length (completed @ [m]))" if "limit > 0"
    using assms(5) that by simp
  then have "err = None \<longrightarrow> m # fin = (if limit > 0 then take (nat limit - length completed) (m # pending) else m # pending)"
    using spec(5) by simp
  moreover have "migrated env ((m # fin) @ extra) db db'"
    using migrated_Cons [OF assms(2,3)] spec(2) assms(4) by simp
  ultimately show ?thesis
    unfolding up_spec_def out prod.case
    using spec(1,3,4) by (intro exI [of _ "m # fin"] exI [of _ extra]) simp
qed

lemma up_spec_start:
  "up_spec env limit pending [] db (completed, err, db') \<longleftrightarrow> (\<exists>extra. migrated env (completed @ extra) db db'
     \<and> prefix (completed @ extra) pending \<and> (extra \<noteq> [] \<longrightarrow> err \<noteq> None \<and> length extra = 1 \<and> ambiguous_commit env)
     \<and> (err = None \<longrightarrow> completed = (if limit > 0 then take (nat limit) pending else pending)))"
  by (simp add: up_spec_def)

definition pending :: "(string, applied_migration) gomap \<Rightarrow> migration list \<Rightarrow> migration list" where
  "pending applied ms = filter (\<lambda>m. map_of applied (mg_Version m) = None) ms"

lemma up_loop_ok:
  assumes "transactional env" and "md_ledger db \<noteq> None"
  shows "up_spec env limit (pending ap ms) completed db (up_loop env mr limit ap ms completed db)"
  using assms(2)
proof (induction ms arbitrary: completed db)
  case Nil
  then show ?case by (simp add: up_spec_stop pending_def)
next
  case (Cons m ms)
  consider (skip) a where "map_of ap (mg_Version m) = Some a"
    | (enough) "map_of ap (mg_Version m) = None" "limit > 0 \<and> int (length completed) \<ge> limit"
    | (empty) "map_of ap (mg_Version m) = None" "\<not> (limit > 0 \<and> int (length completed) \<ge> limit)" "TrimSpace (mg_Up m) = []"
    | (run) "map_of ap (mg_Version m) = None" "\<not> (limit > 0 \<and> int (length completed) \<ge> limit)" "TrimSpace (mg_Up m) \<noteq> []"
    by blast
  then show ?case
  proof cases
    case skip
    with Cons show ?thesis by (simp add: pending_def)
  next
    case enough
    then show ?thesis by (simp add: up_spec_stop pending_def)
  next
    case empty
    then have "up_loop env mr limit ap (m # ms) completed db
        = (completed, Some (Errorf ''migration %s has an empty up script'' [mg_Version m]), db)"
      by (simp only: up_loop.simps simp_thms if_False if_True)
    then show ?thesis by (simp only:) (rule up_spec_stop, simp)
  next
    case run
    obtain r db1 where step: "apply_up env mr m db = (r, db1)" by (cases "apply_up env mr m db")
    have loop: "up_loop env mr limit ap (m # ms) completed db = (case r of
        Inl err \<Rightarrow> (completed, Some err, db1) | Inr _ \<Rightarrow> up_loop env mr limit ap ms (completed @ [m]) db1)"
      using run by (simp only: up_loop.simps simp_thms if_False step prod.case)
    have pend: "pending ap (m # ms) = m # pending ap ms" using run(1) by (simp add: pending_def)
    from step assms(1) Cons.prems show ?thesis
    proof (cases rule: apply_up_cases)
      case (refused e)
      show ?thesis unfolding loop refused sum.case by (rule up_spec_stop) simp
    next
      case (applied s)
      have ledger: "md_ledger db1 \<noteq> None" using applied(2) Cons.prems by simp
      show ?thesis
      proof (cases "r = Inr ()")
        case True
        with loop have "up_loop env mr limit ap (m # ms) completed db = up_loop env mr limit ap ms (completed @ [m]) db1"
          by (simp only: sum.case)
        then show ?thesis
          using up_spec_step [OF Cons.IH [OF ledger] applied(1) Cons.prems applied(2) run(2)] pend by (simp only:)
      next
        case False
        then obtain e where e: "r = Inl e" "ambiguous_commit env" using applied(4) by blast
        have "migrated env [m] db db1"
          using migrated_Cons [OF applied(1) Cons.prems, of "[]"] migrated_Nil [of env db1] applied(2) by simp
        then show ?thesis unfolding pend loop e(1) sum.case by (rule up_spec_ambiguous [OF _ e(2)])
      qed
    qed
  qed
qed

section \<open>The files\<close>

definition keyed :: "(string, migration) gomap \<Rightarrow> bool" where
  "keyed m \<longleftrightarrow> map_wf m \<and> (\<forall>(v, x) \<in> set m. mg_Version x = v)"

lemma in_set_update: "x \<in> set (AList.update k v m) \<Longrightarrow> x = (k, v) \<or> x \<in> set m"
  by (induction m) (auto split: if_splits)

lemma keyed_update: "keyed m \<Longrightarrow> mg_Version x = v \<Longrightarrow> keyed (AList.update v x m)"
  unfolding keyed_def by (auto dest!: in_set_update simp: distinct_update)

lemma load_entries_keyed:
  "load_entries env es byVersion = Inr result \<Longrightarrow> keyed byVersion \<Longrightarrow> keyed result"
proof (induction es arbitrary: byVersion)
  case (Cons e es)
  obtain entry isDir where e: "e = (entry, isDir)" by (cases e)
  show ?case
  proof (cases "isDir \<or> migration_parts entry = None")
    case True
    then show ?thesis using Cons e by (auto split: if_splits)
  next
    case False
    then obtain version name up where parts: "migration_parts entry = Some (version, name, up)" by auto
    define m where "m = (case map_of byVersion version of
      None \<Rightarrow> \<lparr>mg_Version = version, mg_Name = name, mg_Up = [], mg_Down = []\<rparr> | Some m \<Rightarrow> m)"
    have dir: "\<not> isDir" using False by simp
    have name: "mg_Name m = name" and "is_ok (me_readFile env entry)"
      using Cons.prems(1) dir
      unfolding e load_entries.simps parts option.case prod.case m_def [symmetric] Let_def
      by (cases "me_readFile env entry"; simp split: if_splits)+
    then obtain contents where read: "me_readFile env entry = Inr contents" by (auto simp: is_ok_iff)
    have rest: "load_entries env es
        (AList.update version (if up then m\<lparr>mg_Up := contents\<rparr> else m\<lparr>mg_Down := contents\<rparr>) byVersion) = Inr result"
      using Cons.prems(1) dir name read
      unfolding e load_entries.simps parts option.case prod.case m_def [symmetric] Let_def
      by (simp only: if_False simp_thms sum.case)
    have "mg_Version m = version"
      using Cons.prems(2) map_of_SomeD [of byVersion version] unfolding m_def keyed_def
      by (cases "map_of byVersion version") auto
    then show ?thesis by (intro Cons.IH [OF rest] keyed_update Cons.prems(2)) simp
  qed
qed simp

lemma load_sorted:
  assumes "Migrator_load env = Inr ms"
  shows "distinct (map mg_Version ms)" and "sorted (map mg_Version ms)"
proof -
  from assms obtain entries byVersion where load: "load_entries env entries [] = Inr byVersion"
    and ms: "ms = sort_key mg_Version (map snd byVersion)"
    unfolding Migrator_load_def by (auto simp: result_iff split: sum.splits)
  have "keyed byVersion" using load_entries_keyed [OF load] by (simp add: keyed_def)
  then have eq: "map mg_Version (map snd byVersion) = map fst byVersion" and "map_wf byVersion"
    by (auto simp: keyed_def)
  then have "distinct (map mg_Version (map snd byVersion))" by (simp only: eq)
  moreover have "mset (map mg_Version ms) = mset (map mg_Version (map snd byVersion))"
    by (simp only: ms mset_map mset_sort)
  ultimately show "distinct (map mg_Version ms)" by (metis mset_eq_imp_distinct_iff)
  show "sorted (map mg_Version ms)" by (simp add: ms)
qed

lemma by_version_fold:
  assumes "distinct (map mg_Version ms)"
  shows "map_of (fold (\<lambda>m. AList.update (mg_Version m) m) ms acc) v =
    (case find (\<lambda>m. mg_Version m = v) ms of Some m \<Rightarrow> Some m | None \<Rightarrow> map_of acc v)"
  using assms
proof (induction ms arbitrary: acc)
  case (Cons m ms)
  have "find (\<lambda>x. mg_Version x = mg_Version m) ms = None"
    using Cons.prems by (auto simp: find_None_iff image_iff)
  then show ?case using Cons by (auto simp: update_conv' split: option.splits)
qed simp

lemma by_version_iff:
  assumes "distinct (map mg_Version ms)"
  shows "map_of (by_version ms) v = Some m \<longleftrightarrow> m \<in> set ms \<and> mg_Version m = v"
proof -
  have "find (\<lambda>m. mg_Version m = v) ms = Some m \<longleftrightarrow> m \<in> set ms \<and> mg_Version m = v"
    using assms by (induction ms) (auto split: if_splits)
  then show ?thesis by (auto simp: by_version_def by_version_fold [OF assms] split: option.splits)
qed

section \<open>What has been applied\<close>

definition row_matches :: "'d mig_env \<Rightarrow> migration list \<Rightarrow> ledger_row \<Rightarrow> bool" where
  "row_matches env ms r \<longleftrightarrow> (\<exists>m \<in> set ms. mg_Version m = lr_version r \<and> mg_Name m = lr_name r
     \<and> lr_checksum r = Some (migration_checksum env m))"

definition applied_entry :: "'d mig_env \<Rightarrow> ledger_row \<Rightarrow> applied_migration" where
  "applied_entry env r = \<lparr>am_Name = lr_name r, am_Checksum = lr_checksum r,
     am_AppliedAt = (case me_parseTime env (lr_applied_at r) of Inr t \<Rightarrow> t | Inl _ \<Rightarrow> 0)\<rparr>"

lemma scan_applied_ok:
  assumes "dia \<noteq> MySQL"
  shows "scan_applied env dia rows acc = Inr ap \<longleftrightarrow> (\<forall>r \<in> set rows. is_ok (me_parseTime env (lr_applied_at r)))
    \<and> ap = fold (\<lambda>r. AList.update (lr_version r) (applied_entry env r)) rows acc"
proof (induction rows arbitrary: acc)
  case (Cons r rows)
  then show ?case using assms
    by (cases "me_parseTime env (lr_applied_at r)") (auto simp: applied_entry_def)
qed auto

lemma fold_update_new:
  assumes "distinct (map f rs)" and "\<forall>r \<in> set rs. f r \<notin> fst ` set acc"
  shows "fold (\<lambda>r. AList.update (f r) (g r)) rs acc = acc @ map (\<lambda>r. (f r, g r)) rs"
  using assms
proof (induction rs arbitrary: acc)
  case (Cons r rs)
  have "AList.update (f r) (g r) acc = acc @ [(f r, g r)]"
    using Cons.prems(2) by (induction acc) auto
  moreover have "\<forall>x \<in> set rs. f x \<notin> fst ` set (acc @ [(f r, g r)])"
    using Cons.prems by (auto simp: image_iff)
  ultimately show ?case using Cons.IH [of "acc @ [(f r, g r)]"] Cons.prems(1) by simp
qed simp

text \<open>With distinct versions the map of applied migrations is the ledger, row for row.\<close>

lemma scan_applied_distinct:
  assumes "dia \<noteq> MySQL" and "distinct (map lr_version rows)"
  shows "scan_applied env dia rows [] = Inr ap \<longleftrightarrow> (\<forall>r \<in> set rows. is_ok (me_parseTime env (lr_applied_at r)))
    \<and> ap = map (\<lambda>r. (lr_version r, applied_entry env r)) rows"
  using scan_applied_ok [OF assms(1), of env rows "[]" ap] fold_update_new [OF assms(2), of "[]" "applied_entry env"]
  by simp

lemma verify_loop_same: "snd (verify_loop env bv False ap db) = db"
  by (induction env bv "False" ap db rule: verify_loop.induct) (auto split: option.splits)

lemma verify_loop_ok:
  assumes "distinct (map mg_Version ms)"
  shows "verify_loop env (by_version ms) False (map (\<lambda>r. (lr_version r, applied_entry env r)) rows) db = (Inr (), db)
    \<longleftrightarrow> (\<forall>r \<in> set rows. row_matches env ms r)"
proof (induction rows)
  case (Cons r rows)
  show ?case
  proof (cases "map_of (by_version ms) (lr_version r)")
    case None
    then have "\<not> row_matches env ms r"
      using by_version_iff [OF assms, of "lr_version r"] by (auto simp: row_matches_def)
    with None show ?thesis by simp
  next
    case (Some m)
    then have m: "m \<in> set ms" "mg_Version m = lr_version r" using by_version_iff [OF assms] by auto
    have "row_matches env ms r \<longleftrightarrow> mg_Name m = lr_name r \<and> lr_checksum r = Some (migration_checksum env m)"
      using m Some by_version_iff [OF assms] unfolding row_matches_def by (metis option.inject)
    with Some Cons show ?thesis by (auto simp: applied_entry_def split: option.splits)
  qed
qed simp

section \<open>The beginning of a run\<close>

text \<open>A ledger that has been created by the current version of the code, or is not there yet.\<close>

definition ledger_ready :: "'d mig_db \<Rightarrow> bool" where
  "ledger_ready db \<longleftrightarrow> (case md_ledger db of None \<Rightarrow> True
     | Some (col, rows) \<Rightarrow> col = RequiredChecksum \<and> distinct (map lr_version rows))"

lemma create_ledger_simps [simp]:
  "ledger_rows (create_ledger db) = ledger_rows db" "md_schema (create_ledger db) = md_schema db"
  "md_ledger (create_ledger db) \<noteq> None"
  by (auto simp: create_ledger_def ledger_rows_def split: option.splits)

lemma ready_ledger:
  assumes "ledger_ready db"
  shows "md_ledger (create_ledger db) = Some (RequiredChecksum, ledger_rows db)" and "distinct (map lr_version (ledger_rows db))"
  using assms by (auto simp: ledger_ready_def create_ledger_def ledger_rows_def split: option.splits)

lemma inspect_ready:
  assumes "md_ledger db = Some (RequiredChecksum, rows)"
  shows "inspect_ledger env db = (case me_fail env InspectColumn of
      Some e \<Rightarrow> Inl (Wrapf ''inspect migrations table: %w'' [] e) | None \<Rightarrow> Inr (True, False), db)"
  using assms by (simp add: inspect_ledger_def columnState_def run_stmt_def split: option.splits)

lemma prepare_ready:
  assumes "ledger_ready db" and "mr_Dialect mr \<noteq> MySQL"
  shows "Migrator_prepare env mr ms db \<in> {(Inr (), create_ledger db)} \<union> {(Inl e, db1) | e db1. db1 = db \<or> db1 = create_ledger db}"
    and "Migrator_prepare env mr ms db = (Inr (), db1) \<longleftrightarrow> db1 = create_ledger db \<and> Migrator_validate mr = Inr ()
      \<and> is_ok (Migrator_table mr) \<and> me_fail env CreateLedger = None \<and> me_fail env InspectColumn = None"
proof -
  have insp: "inspect_ledger env (create_ledger db) = (case me_fail env InspectColumn of
      Some e \<Rightarrow> Inl (Wrapf ''inspect migrations table: %w'' [] e) | None \<Rightarrow> Inr (True, False), create_ledger db)"
    by (rule inspect_ready [OF ready_ledger(1) [OF assms(1)]])
  have eq: "Migrator_prepare env mr ms db =
    (case Migrator_validate mr of Inl e \<Rightarrow> (Inl e, db) | Inr _ \<Rightarrow>
     (case Migrator_table mr of Inl e \<Rightarrow> (Inl e, db) | Inr _ \<Rightarrow>
      (case me_fail env CreateLedger of Some e \<Rightarrow> (Inl (Wrapf ''prepare migrations table: %w'' [] e), db) | None \<Rightarrow>
       (case me_fail env InspectColumn of
          Some e \<Rightarrow> (Inl (Wrapf ''inspect migrations table: %w'' [] e), create_ledger db)
        | None \<Rightarrow> (Inr (), create_ledger db)))))"
    using assms(2) insp
    by (cases "Migrator_validate mr"; cases "Migrator_table mr"; cases "me_fail env CreateLedger"; cases "me_fail env InspectColumn")
      (simp_all add: Migrator_prepare_def mig_bind_def mig_lift_def mig_return_def run_stmt_def)
  show "Migrator_prepare env mr ms db \<in> {(Inr (), create_ledger db)} \<union> {(Inl e, db1) | e db1. db1 = db \<or> db1 = create_ledger db}"
    unfolding eq by (auto split: sum.splits option.splits)
  show "Migrator_prepare env mr ms db = (Inr (), db1) \<longleftrightarrow> db1 = create_ledger db \<and> Migrator_validate mr = Inr ()
      \<and> is_ok (Migrator_table mr) \<and> me_fail env CreateLedger = None \<and> me_fail env InspectColumn = None"
    unfolding eq by (auto split: sum.splits option.splits)
qed

lemma applied_ready:
  assumes "md_ledger db = Some (RequiredChecksum, rows)" and "mr_Dialect mr \<noteq> MySQL" and "distinct (map lr_version rows)"
  shows "snd (Migrator_applied env mr SelectApplied db) = db"
    and "fst (Migrator_applied env mr SelectApplied db) = Inr ap \<longleftrightarrow> is_ok (Migrator_table mr) \<and> me_fail env SelectApplied = None
      \<and> (\<forall>r \<in> set rows. is_ok (me_parseTime env (lr_applied_at r))) \<and> ap = map (\<lambda>r. (lr_version r, applied_entry env r)) rows"
proof -
  have "has_checksum db" "ledger_rows db = rows" using assms(1) by (simp_all add: has_checksum_def ledger_rows_def)
  then show "snd (Migrator_applied env mr SelectApplied db) = db"
    by (simp add: Migrator_applied_def mig_bind_def mig_lift_def run_stmt_def split: sum.splits option.splits)
  show "fst (Migrator_applied env mr SelectApplied db) = Inr ap \<longleftrightarrow> is_ok (Migrator_table mr) \<and> me_fail env SelectApplied = None
      \<and> (\<forall>r \<in> set rows. is_ok (me_parseTime env (lr_applied_at r))) \<and> ap = map (\<lambda>r. (lr_version r, applied_entry env r)) rows"
    using \<open>has_checksum db\<close> \<open>ledger_rows db = rows\<close> scan_applied_distinct [OF assms(2,3), of env ap]
    by (cases "Migrator_table mr"; cases "me_fail env SelectApplied")
      (simp_all add: Migrator_applied_def mig_bind_def mig_lift_def run_stmt_def)
qed

text \<open>What a run that starts on a ready ledger finds.\<close>

definition verified :: "'d mig_env \<Rightarrow> migration list \<Rightarrow> ledger_row list \<Rightarrow> bool" where
  "verified env ms rows \<longleftrightarrow> (\<forall>r \<in> set rows. row_matches env ms r)"

lemma verifyApplied_ready:
  assumes "Migrator_load env = Inr ms"
  shows "snd (verifyApplied env mr ms ap False db) = db"
    and "fst (verifyApplied env mr ms (map (\<lambda>r. (lr_version r, applied_entry env r)) rows) False db) = Inr ()
      \<longleftrightarrow> is_ok (Migrator_table mr) \<and> verified env ms rows"
proof -
  have same: "snd (verify_loop env (by_version ms) False ap db) = db" for ap by (rule verify_loop_same)
  then show "snd (verifyApplied env mr ms ap False db) = db"
    by (cases "Migrator_table mr") (simp_all add: verifyApplied_def mig_bind_def mig_lift_def)
  show "fst (verifyApplied env mr ms (map (\<lambda>r. (lr_version r, applied_entry env r)) rows) False db) = Inr ()
      \<longleftrightarrow> is_ok (Migrator_table mr) \<and> verified env ms rows"
    using verify_loop_ok [OF load_sorted(1) [OF assms], of env rows db] same [of "map (\<lambda>r. (lr_version r, applied_entry env r)) rows"]
    by (cases "Migrator_table mr") (auto simp: verifyApplied_def mig_bind_def mig_lift_def verified_def prod_eq_iff)
qed

lemma run_begin_cases:
  assumes "ledger_ready db" and "mr_Dialect mr \<noteq> MySQL" and "run_begin env mr db = (res, db1)"
  obtains (failed) e where "res = Inl e" "db1 = db \<or> db1 = create_ledger db"
  | (ready) ms where "res = Inr (ms, map (\<lambda>r. (lr_version r, applied_entry env r)) (ledger_rows db))" "db1 = create_ledger db"
      "Migrator_load env = Inr ms" "verified env ms (ledger_rows db)" "Migrator_validate mr = Inr ()" "is_ok (Migrator_table mr)"
      "me_fail env InspectColumn = None" "me_fail env SelectApplied = None"
      "\<forall>r \<in> set (ledger_rows db). is_ok (me_parseTime env (lr_applied_at r))"
proof (cases "Migrator_load env")
  case (Inl e)
  with assms(3) failed show ?thesis by (auto simp: run_begin_def mig_bind_def mig_lift_def)
next
  case load: (Inr ms)
  note ready = ready_ledger [OF assms(1)]
  obtain p dbp where p: "Migrator_prepare env mr ms db = (p, dbp)" by (cases "Migrator_prepare env mr ms db")
  show ?thesis
  proof (cases p)
    case (Inl e)
    then show ?thesis
      using assms(3) load p failed prepare_ready(1) [OF assms(1,2), of env ms]
      by (auto simp: run_begin_def mig_bind_def mig_lift_def)
  next
    case (Inr u)
    then have prep: "dbp = create_ledger db" "Migrator_validate mr = Inr ()" "is_ok (Migrator_table mr)" "me_fail env InspectColumn = None"
      using p prepare_ready(2) [OF assms(1,2), of env ms dbp] by simp_all
    obtain a dba where a: "Migrator_applied env mr SelectApplied dbp = (a, dba)" by (cases "Migrator_applied env mr SelectApplied dbp")
    have dba: "dba = create_ledger db" using applied_ready(1) [OF ready(1) assms(2) ready(2)] a prep(1) by (metis snd_conv)
    show ?thesis
    proof (cases a)
      case (Inl e)
      then show ?thesis using assms(3) load p \<open>p = Inr u\<close> a dba failed
        by (auto simp: run_begin_def mig_bind_def mig_lift_def)
    next
      case a': (Inr ap)
      have app: "me_fail env SelectApplied = None" "\<forall>r \<in> set (ledger_rows db). is_ok (me_parseTime env (lr_applied_at r))"
        "ap = map (\<lambda>r. (lr_version r, applied_entry env r)) (ledger_rows db)"
        using applied_ready(2) [OF ready(1) assms(2) ready(2), of env ap] a a' prep(1) by simp_all
      obtain v dbv where v: "verifyApplied env mr ms ap False dba = (v, dbv)" by (cases "verifyApplied env mr ms ap False dba")
      have dbv: "dbv = create_ledger db" using verifyApplied_ready(1) [OF load] v dba by (metis snd_conv)
      have res: "(res, db1) = (case v of Inl e \<Rightarrow> (Inl e, dbv) | Inr _ \<Rightarrow> (Inr (ms, ap), dbv))"
        using assms(3) load p \<open>p = Inr u\<close> a a' v by (simp add: run_begin_def mig_bind_def mig_lift_def mig_return_def split: sum.splits)
      show ?thesis
      proof (cases v)
        case (Inl e)
        then show ?thesis using res dbv failed by simp
      next
        case v': (Inr w)
        have "verified env ms (ledger_rows db)"
          using verifyApplied_ready(2) [OF load, of mr "ledger_rows db" dba] v v' app(3) by simp
        then show ?thesis using res dbv v' load prep app that(2) by simp
      qed
    qed
  qed
qed

lemma withRunLock_cases:
  assumes "withRunLock env mr nothing work db = (x, err, db')"
  obtains (refused) "x = nothing" "err \<noteq> None" "db' = db"
  | (ran) err0 where "work db = (x, err0, db')" "err = None \<Longrightarrow> err0 = None" "err0 \<noteq> None \<Longrightarrow> err \<noteq> None"
proof (cases "\<not> mr_DB mr \<or> \<not> mr_Files mr \<or> mr_Dialect mr = Postgres \<and> (me_fail env ReserveConn \<noteq> None \<or> me_fail env AcquireLock \<noteq> None)")
  case True
  with assms have "x = nothing \<and> err \<noteq> None \<and> db' = db"
    by (auto simp: withRunLock_def split: if_splits option.splits)
  with refused show ?thesis by simp
next
  case False
  obtain y err0 db1 where work: "work db = (y, err0, db1)" by (rule prod_cases3)
  show ?thesis
  proof (cases "mr_Dialect mr = Postgres")
    case True
    with False work assms have "y = x" "db1 = db'"
      and "err = (case (err0, me_fail env ReleaseLock) of
        (None, Some e) \<Rightarrow> Some (Wrapf ''release PostgreSQL migration lock: %w'' [] e) | _ \<Rightarrow> err0)"
      by (simp_all add: withRunLock_def)
    with work show ?thesis by (intro ran [of err0]) (auto split: option.splits)
  next
    case other: False
    with False work assms show ?thesis by (intro ran [of err0]) (simp_all add: withRunLock_def)
  qed
qed

lemma lock_stopped:
  assumes "work db = ([], Some e, db1)" and "db1 = db \<or> db1 = create_ledger db"
  shows "case withRunLock env mr [] work db of (completed, err, db') \<Rightarrow>
    completed = [] \<and> err \<noteq> None \<and> md_schema db' = md_schema db \<and> ledger_rows db' = ledger_rows db"
proof -
  obtain x err db' where w: "withRunLock env mr [] work db = (x, err, db')" by (rule prod_cases3)
  then have "x = [] \<and> err \<noteq> None \<and> md_schema db' = md_schema db \<and> ledger_rows db' = ledger_rows db"
    by (cases rule: withRunLock_cases) (use assms in auto)
  then show ?thesis using w by simp
qed

section \<open>Upward runs\<close>

text \<open>The migrations of the files that the ledger does not have.\<close>

definition unapplied :: "migration list \<Rightarrow> 'd mig_db \<Rightarrow> migration list" where
  "unapplied ms db = filter (\<lambda>m. mg_Version m \<notin> lr_version ` set (ledger_rows db)) ms"

lemma pending_unapplied: "pending (map (\<lambda>r. (lr_version r, applied_entry env r)) (ledger_rows db)) ms = unapplied ms db"
  unfolding pending_def unapplied_def by (intro filter_cong refl) (simp add: map_of_eq_None_iff image_image)

lemma migrated_create:
  assumes "migrated env ms (create_ledger db) db'"
  shows "exec_all env (map mg_Up ms) (md_schema db) = Inr (md_schema db')"
    and "ledger_rows db' = ledger_rows db @ map (up_row env) ms" and "md_ledger db' \<noteq> None"
proof -
  have db': "db' = (set_rows (ledger_rows db @ map (up_row env) ms) (create_ledger db))\<lparr>md_schema := md_schema db'\<rparr>"
    using assms by (simp add: migrated_def)
  show "ledger_rows db' = ledger_rows db @ map (up_row env) ms" by (subst db') (simp add: ledger_rows_set)
  show "md_ledger db' \<noteq> None" by (subst db') simp
  show "exec_all env (map mg_Up ms) (md_schema db) = Inr (md_schema db')" using assms by (simp add: migrated_def)
qed

lemma Up_cases:
  assumes "transactional env" and "ledger_ready db" and "mr_Dialect mr \<noteq> MySQL" and "Migrator_Up env mr limit db = (completed, err, db')"
  obtains (stopped) "completed = []" "err \<noteq> None" "db' = db \<or> db' = create_ledger db"
  | (ran) ms err0 where "Migrator_load env = Inr ms" "verified env ms (ledger_rows db)" "Migrator_validate mr = Inr ()"
      "is_ok (Migrator_table mr)" "me_fail env InspectColumn = None" "me_fail env SelectApplied = None"
      "\<forall>r \<in> set (ledger_rows db). is_ok (me_parseTime env (lr_applied_at r))"
      "up_spec env limit (unapplied ms db) [] (create_ledger db) (completed, err0, db')"
      "err = None \<Longrightarrow> err0 = None" "err0 \<noteq> None \<Longrightarrow> err \<noteq> None"
proof -
  from assms(4) show ?thesis
    unfolding Migrator_Up_def
  proof (cases rule: withRunLock_cases)
    case refused
    then show ?thesis using that(1) by simp
  next
    case (ran err0)
    obtain res db1 where start: "run_begin env mr db = (res, db1)" by (cases "run_begin env mr db")
    from assms(2,3) start show ?thesis
    proof (cases rule: run_begin_cases)
      case (failed e)
      then show ?thesis using that(1) ran start by auto
    next
      case (ready ms)
      have "up_loop env mr limit (map (\<lambda>r. (lr_version r, applied_entry env r)) (ledger_rows db)) ms [] (create_ledger db)
          = (completed, err0, db')"
        using ran(1) start ready(1,2) by simp
      then have "up_spec env limit (unapplied ms db) [] (create_ledger db) (completed, err0, db')"
        using up_loop_ok [OF assms(1), of "create_ledger db" limit
            "map (\<lambda>r. (lr_version r, applied_entry env r)) (ledger_rows db)" ms "[]" mr]
        by (simp add: pending_unapplied)
      then show ?thesis using that(2) ready ran(2,3) by blast
    qed
  qed
qed

text \<open>Two migrations, of which the first has been applied.\<close>

definition demo_files :: "string \<Rightarrow> bytes result" where
  "demo_files f = Inr (if f = ''1_a.up.sql'' then ''A'' else if f = ''1_a.down.sql'' then ''a''
     else if f = ''2_b.up.sql'' then ''B'' else ''b'')"

definition demo_mig_env :: "string list mig_env" where
  "demo_mig_env = \<lparr>me_fail = (\<lambda>_. None), me_commit = (\<lambda>_. None), me_rollback = (\<lambda>before after. before),
     me_exec = (\<lambda>script schema. Inr (schema @ [script])), me_now = (\<lambda>_. ''now''), me_parseTime = (\<lambda>_. Inr 1),
     me_sha256 = (\<lambda>b. b),
     me_readDir = Inr [(''2_b.up.sql'', False), (''2_b.down.sql'', False), (''1_a.down.sql'', False), (''1_a.up.sql'', False)],
     me_readFile = demo_files\<rparr>"

definition demo_migrations :: "migration list" where
  "demo_migrations = [\<lparr>mg_Version = ''1'', mg_Name = ''a'', mg_Up = ''A'', mg_Down = ''a''\<rparr>,
     \<lparr>mg_Version = ''2'', mg_Name = ''b'', mg_Up = ''B'', mg_Down = ''b''\<rparr>]"

definition demo_migrator :: migrator where
  "demo_migrator = \<lparr>mr_DB = True, mr_Files = True, mr_Dialect = SQLite, mr_Table = []\<rparr>"

definition demo_mig_db :: "string \<Rightarrow> string list mig_db" where
  "demo_mig_db chk = \<lparr>md_ledger = Some (RequiredChecksum,
     [\<lparr>lr_version = ''1'', lr_name = ''a'', lr_checksum = Some chk, lr_applied_at = ''then''\<rparr>]), md_schema = [''A'']\<rparr>"

lemma demo_trim: "TrimSpace ''A'' = ''A''" "TrimSpace ''B'' = ''B''" "TrimSpace ''a'' = ''a''" "TrimSpace ''b'' = ''b''"
  by (simp_all add: TrimSpace_def trim_lead.simps lead_len_ascii ascii_spaces_chars)

lemma demo_parts:
  "migration_parts ''1_a.up.sql'' = Some (''1'', ''a'', True)" "migration_parts ''1_a.down.sql'' = Some (''1'', ''a'', False)"
  "migration_parts ''2_b.up.sql'' = Some (''2'', ''b'', True)" "migration_parts ''2_b.down.sql'' = Some (''2'', ''b'', False)"
  by (simp_all add: migration_parts_def cls_digit_def cls_migration_def)

lemma demo_load: "Migrator_load demo_mig_env = Inr demo_migrations"
  by (simp add: Migrator_load_def demo_mig_env_def demo_files_def demo_migrations_def demo_parts demo_trim
      less_list_code)

lemma demo_transactional: "transactional demo_mig_env"
  by (simp add: transactional_def demo_mig_env_def)

lemma demo_ready: "ledger_ready (demo_mig_db chk)" "mr_Dialect demo_migrator \<noteq> MySQL"
  by (simp_all add: ledger_ready_def demo_mig_db_def demo_migrator_def)

lemma demo_checksum: "migration_checksum demo_mig_env m = hex_encode (mg_Up m)"
  by (simp add: migration_checksum_def demo_mig_env_def)

lemma demo_hex: "hex_digit 4 = CHR ''4''" "hex_digit (Suc 0) = CHR ''1''"
  by code_simp+

lemma demo_fields:
  "me_fail demo_mig_env st = None" "me_parseTime demo_mig_env t = Inr 1" "me_commit demo_mig_env v = None"
  "me_exec demo_mig_env script schema = Inr (schema @ [script])"
  "mr_DB demo_migrator" "mr_Files demo_migrator" "mr_Dialect demo_migrator = SQLite" "mr_Table demo_migrator = []"
  "md_schema (demo_mig_db chk) = [''A'']" "md_ledger (demo_mig_db chk) = Some (RequiredChecksum,
     [\<lparr>lr_version = ''1'', lr_name = ''a'', lr_checksum = Some chk, lr_applied_at = ''then''\<rparr>])"
  by (simp_all add: demo_mig_env_def demo_migrator_def demo_mig_db_def)

lemma demo_begin:
  "run_begin demo_mig_env demo_migrator (demo_mig_db ''41'') =
     (Inr (demo_migrations, [(''1'', \<lparr>am_Name = ''a'', am_Checksum = Some ''41'', am_AppliedAt = 1\<rparr>)]), demo_mig_db ''41'')"
  by (simp add: run_begin_def mig_bind_def mig_lift_def mig_return_def demo_load Migrator_prepare_def Migrator_validate_def
      Migrator_table_def demo_fields run_stmt_def create_ledger_def inspect_ledger_def columnState_def
      Migrator_applied_def has_checksum_def verifyApplied_def by_version_def demo_checksum ledger_rows_def
      demo_migrations_def demo_hex)

lemmas demo_steps = mig_bind_def mig_lift_def mig_return_def run_stmt_def inTransaction_def exec_script_def demo_begin
  demo_fields withRunLock_def Migrator_table_def demo_trim ledger_rows_def set_rows_def demo_migrations_def

text \<open>C36: on PostgreSQL and SQLite an upward run applies the pending migrations in version order, each completely or not at all. Whatever
  fails, and wherever, the database afterwards is the one before with the up scripts of a prefix of the
  pending migrations executed in order and exactly their rows added to the ledger; this prefix is the list of
  completed migrations the run returns, or one longer when a commit failed after the server had applied it.
  Without an error all pending migrations are completed, or as many as the limit says.\<close>

theorem migrate_up:
  assumes "transactional env" and "ledger_ready db" and "mr_Dialect mr \<noteq> MySQL" and "Migrator_load env = Inr ms"
    and "Migrator_Up env mr limit db = (completed, err, db')"
  shows "\<exists>extra. prefix (completed @ extra) (unapplied ms db)
    \<and> (extra \<noteq> [] \<longrightarrow> err \<noteq> None \<and> length extra = 1 \<and> ambiguous_commit env)
    \<and> exec_all env (map mg_Up (completed @ extra)) (md_schema db) = Inr (md_schema db')
    \<and> ledger_rows db' = ledger_rows db @ map (up_row env) (completed @ extra)
    \<and> sorted (map mg_Version (completed @ extra))
    \<and> (err = None \<longrightarrow> completed = (if limit > 0 then take (nat limit) (unapplied ms db) else unapplied ms db))"
  using assms(1-3,5)
proof (cases rule: Up_cases)
  case stopped
  then show ?thesis by (intro exI [of _ "[]"]) auto
next
  case (ran ms' err0)
  have ms': "ms' = ms" using ran(1) assms(4) by simp
  from ran(8) obtain extra where spec: "migrated env (completed @ extra) (create_ledger db) db'"
    "prefix (completed @ extra) (unapplied ms db)" "extra \<noteq> [] \<longrightarrow> err0 \<noteq> None \<and> length extra = 1 \<and> ambiguous_commit env"
    "err0 = None \<longrightarrow> completed = (if limit > 0 then take (nat limit) (unapplied ms db) else unapplied ms db)"
    unfolding up_spec_start ms' by blast
  have "sorted (map mg_Version (unapplied ms db))"
    unfolding unapplied_def using load_sorted(2) [OF assms(4)] by (rule sorted_filter)
  then have "sorted (map mg_Version (completed @ extra))"
    using spec(2) by (auto simp: prefix_def sorted_append)
  then show ?thesis
    using spec(2-4) migrated_create(1,2) [OF spec(1)] ran(9,10) by (intro exI [of _ extra]) blast
qed

theorem migrate_up_witness:
  "Migrator_Up demo_mig_env demo_migrator 0 (demo_mig_db ''41'') =
     (tl demo_migrations, None, (demo_mig_db ''41'')\<lparr>md_schema := [''A'', ''B''],
        md_ledger := Some (RequiredChecksum, ledger_rows (demo_mig_db ''41'') @ map (up_row demo_mig_env) (tl demo_migrations))\<rparr>)
   \<and> prefix (tl demo_migrations) (unapplied demo_migrations (demo_mig_db ''41''))"
proof -
  let ?db = "(demo_mig_db ''41'')\<lparr>md_schema := [''A'', ''B''],
        md_ledger := Some (RequiredChecksum, ledger_rows (demo_mig_db ''41'') @ map (up_row demo_mig_env) (tl demo_migrations))\<rparr>"
  have run: "Migrator_Up demo_mig_env demo_migrator 0 (demo_mig_db ''41'') = (tl demo_migrations, None, ?db)"
    by (simp add: Migrator_Up_def apply_up_def record_row_def up_row_def demo_steps)
  from migrate_up [OF demo_transactional demo_ready demo_load run]
  show ?thesis using run by (auto dest: append_prefixD)
qed

text \<open>C38: on PostgreSQL and SQLite a run stops before it touches anything when the ledger and the files disagree. When a recorded migration
  is missing from the files, has another name, or its up script has another checksum, an upward run, a downward
  run and Status all return an error with no migration completed, and leave the schema and the ledger rows
  as they are.\<close>

theorem migrate_drift:
  assumes "ledger_ready db" and "mr_Dialect mr \<noteq> MySQL" and "Migrator_load env = Inr ms"
    and "r \<in> set (ledger_rows db)" and "\<not> row_matches env ms r"
  shows "(case Migrator_Up env mr limit db of (completed, err, db') \<Rightarrow>
      completed = [] \<and> err \<noteq> None \<and> md_schema db' = md_schema db \<and> ledger_rows db' = ledger_rows db)
    \<and> (case Migrator_Down env mr steps db of (completed, err, db') \<Rightarrow>
      completed = [] \<and> err \<noteq> None \<and> md_schema db' = md_schema db \<and> ledger_rows db' = ledger_rows db)
    \<and> (case Migrator_Status env mr db of (statuses, err, db') \<Rightarrow>
      statuses = [] \<and> err \<noteq> None \<and> md_schema db' = md_schema db \<and> ledger_rows db' = ledger_rows db)"
proof -
  obtain res db1 where start: "run_begin env mr db = (res, db1)" by (cases "run_begin env mr db")
  obtain e where e: "res = Inl e" "db1 = db \<or> db1 = create_ledger db"
    using assms(1,2) start by (cases rule: run_begin_cases) (use assms(3-5) in \<open>auto simp: verified_def\<close>)
  show ?thesis
    unfolding Migrator_Up_def Migrator_Down_def Migrator_Status_def Let_def
    by (intro conjI; rule lock_stopped [OF _ e(2)]) (simp_all add: start e(1) mig_bind_def)
qed

theorem migrate_drift_witness:
  "\<not> row_matches demo_mig_env demo_migrations (hd (ledger_rows (demo_mig_db ''42'')))
   \<and> fst (Migrator_Up demo_mig_env demo_migrator 0 (demo_mig_db ''42'')) = []
   \<and> fst (snd (Migrator_Up demo_mig_env demo_migrator 0 (demo_mig_db ''42''))) \<noteq> None"
proof -
  let ?r = "hd (ledger_rows (demo_mig_db ''42''))"
  have row: "?r \<in> set (ledger_rows (demo_mig_db ''42''))" by (simp add: ledger_rows_def demo_mig_db_def)
  have drift: "\<not> row_matches demo_mig_env demo_migrations ?r"
    by (simp add: row_matches_def demo_migrations_def ledger_rows_def demo_fields demo_checksum demo_hex)
  from migrate_drift [OF demo_ready demo_load row drift, of 0 0] drift
  show ?thesis by (auto split: prod.splits)
qed

section \<open>Verify\<close>

lemma Verify_iff:
  assumes "md_ledger db = Some (RequiredChecksum, rows)" and "distinct (map lr_version rows)" and "mr_Dialect mr \<noteq> MySQL"
    and "Migrator_load env = Inr ms" and "Migrator_validate mr = Inr ()" and "is_ok (Migrator_table mr)"
    and "me_fail env InspectColumn = None" and "me_fail env SelectApplied = None"
    and "\<forall>r \<in> set rows. is_ok (me_parseTime env (lr_applied_at r))"
  shows "Migrator_Verify env mr db = (Inr (), db) \<longleftrightarrow> verified env ms rows \<and> mg_Version ` set ms \<subseteq> lr_version ` set rows"
proof -
  let ?ap = "map (\<lambda>r. (lr_version r, applied_entry env r)) rows"
  have app: "Migrator_applied env mr SelectApplied db = (Inr ?ap, db)"
    using applied_ready [OF assms(1,3,2), of env] assms(6,8,9) by (simp add: prod_eq_iff)
  have pend: "pending_loop ?ap xs = Inr () \<longleftrightarrow> mg_Version ` set xs \<subseteq> lr_version ` set rows" for xs
    by (induction xs) (auto simp: map_of_eq_None_iff image_image)
  obtain v where v: "verifyApplied env mr ms ?ap False db = (v, db)"
    using verifyApplied_ready(1) [OF assms(4)] by (metis prod.collapse)
  obtain t where t: "Migrator_table mr = Inr t" using assms(6) by (auto simp: is_ok_iff)
  have "v = Inr () \<longleftrightarrow> verified env ms rows"
    using verifyApplied_ready(2) [OF assms(4), of mr rows db] assms(6) v by simp
  then show ?thesis
    using pend [of ms] inspect_ready [OF assms(1), of env] v app assms(4,5,7) t
    by (cases v) (auto simp: Migrator_Verify_def mig_bind_def mig_lift_def)
qed

text \<open>C39: on PostgreSQL and SQLite a complete upward run leaves a database that Verify accepts, and that a further run leaves alone. The
  clock only has to write times that can be read back.\<close>

theorem migrate_up_verifies:
  assumes "transactional env" and "ledger_ready db" and "mr_Dialect mr \<noteq> MySQL" and "limit \<le> 0"
    and "\<And>v. is_ok (me_parseTime env (me_now env v))" and "Migrator_Up env mr limit db = (completed, None, db')"
  shows "Migrator_Verify env mr db' = (Inr (), db')
    \<and> (\<exists>ms. Migrator_load env = Inr ms \<and> unapplied ms db' = [])"
  using assms(1-3,6)
proof (cases rule: Up_cases)
  case (ran ms err0)
  from ran(8,9) assms(4) have mig: "migrated env (unapplied ms db) (create_ledger db) db'"
    unfolding up_spec_start by auto
  let ?rows = "ledger_rows db @ map (up_row env) (unapplied ms db)"
  have ledger: "md_ledger db' = Some (RequiredChecksum, ?rows)"
    using mig ready_ledger(1) [OF assms(2)] unfolding migrated_def
    by (metis (no_types, lifting) create_ledger_simps(1) mig_db.select_convs(1) mig_db.surjective mig_db.update_convs(2) option.map(2) prod.case set_rows_def mig_db.update_convs(1))
  have "distinct (map lr_version ?rows)"
    using ready_ledger(2) [OF assms(2)] load_sorted(1) [OF ran(1)]
    by (force simp: unapplied_def up_row_def o_def distinct_map_filter)
  moreover have "verified env ms ?rows"
    using ran(2) by (auto simp: verified_def row_matches_def up_row_def unapplied_def)
  moreover have covered: "mg_Version ` set ms \<subseteq> lr_version ` set ?rows"
  proof -
    have "lr_version ` set ?rows = lr_version ` set (ledger_rows db) \<union> mg_Version ` set (unapplied ms db)"
      by (simp add: image_Un image_image up_row_def)
    then show ?thesis by (auto simp: unapplied_def)
  qed
  moreover have "\<forall>r \<in> set ?rows. is_ok (me_parseTime env (lr_applied_at r))"
    using ran(7) assms(5) by (auto simp: up_row_def)
  ultimately have "Migrator_Verify env mr db' = (Inr (), db')"
    using Verify_iff [OF ledger _ assms(3) ran(1,3,4,5,6)] by simp
  moreover have "unapplied ms db' = []"
    using covered migrated_create(2) [OF mig] by (auto simp: unapplied_def filter_empty_conv)
  ultimately show ?thesis using ran(1) by blast
qed simp

theorem migrate_up_verifies_witness:
  "case Migrator_Up demo_mig_env demo_migrator 0 (demo_mig_db ''41'') of
     (completed, err, db') \<Rightarrow> completed = tl demo_migrations \<and> Migrator_Verify demo_mig_env demo_migrator db' = (Inr (), db')"
proof -
  obtain db' where run: "Migrator_Up demo_mig_env demo_migrator 0 (demo_mig_db ''41'') = (tl demo_migrations, None, db')"
  proof
    show "Migrator_Up demo_mig_env demo_migrator 0 (demo_mig_db ''41'') =
     (tl demo_migrations, None, (demo_mig_db ''41'')\<lparr>md_schema := [''A'', ''B''],
        md_ledger := Some (RequiredChecksum, ledger_rows (demo_mig_db ''41'') @ map (up_row demo_mig_env) (tl demo_migrations))\<rparr>)"
      by (simp add: Migrator_Up_def apply_up_def record_row_def up_row_def demo_steps)
  qed
  have "is_ok (me_parseTime demo_mig_env (me_now demo_mig_env v))" for v
    by (simp add: demo_fields)
  from migrate_up_verifies [OF demo_transactional demo_ready _ this run] show ?thesis using run by simp
qed

section \<open>Downward runs\<close>

definition reverted :: "'d mig_env \<Rightarrow> migration list \<Rightarrow> 'd mig_db \<Rightarrow> 'd mig_db \<Rightarrow> bool" where
  "reverted env ms db db' \<longleftrightarrow> exec_all env (map mg_Down ms) (md_schema db) = Inr (md_schema db')
     \<and> db' = (set_rows (filter (\<lambda>r. lr_version r \<notin> mg_Version ` set ms) (ledger_rows db)) db)\<lparr>md_schema := md_schema db'\<rparr>"

lemma reverted_Nil: "reverted env [] db db"
  by (simp add: reverted_def set_rows_id)

lemma reverted_Cons:
  assumes "me_exec env (mg_Down m) (md_schema db) = Inr s" and "md_ledger db \<noteq> None"
    and "reverted env ms ((set_rows (filter (\<lambda>r. lr_version r \<noteq> mg_Version m) (ledger_rows db)) db)\<lparr>md_schema := s\<rparr>) db'"
  shows "reverted env (m # ms) db db'"
  using assms by (simp add: reverted_def ledger_rows_set conj_commute)

lemma apply_down_cases:
  assumes "apply_down env m db = (r, db')" and "transactional env"
  obtains (refused) e where "r = Inl e" "db' = db"
  | (applied) s where "me_exec env (mg_Down m) (md_schema db) = Inr s"
      "db' = (set_rows (filter (\<lambda>r. lr_version r \<noteq> mg_Version m) (ledger_rows db)) db)\<lparr>md_schema := s\<rparr>"
      "r = Inr () \<or> (\<exists>e. r = Inl e) \<and> ambiguous_commit env"
proof -
  from assms(1) have tx: "inTransaction env (mg_Version m)
     (mig_bind (exec_script env (Wrapf ''rollback migration %s: %w'' [mg_Version m]) (mg_Down m)) (\<lambda>_.
      run_stmt env (DeleteRow (mg_Version m)) (\<lambda>e. e)
        (\<lambda>db. ((), set_rows (filter (\<lambda>r. lr_version r \<noteq> mg_Version m) (ledger_rows db)) db)))) db = (r, db')"
    by (simp add: apply_down_def)
  from tx assms(2) show ?thesis
  proof (cases rule: inTransaction_cases)
    case (refused e)
    then show ?thesis using that(1) by blast
  next
    case (applied u)
    then obtain s where "me_exec env (mg_Down m) (md_schema db) = Inr s"
      "db' = (set_rows (filter (\<lambda>r. lr_version r \<noteq> mg_Version m) (ledger_rows db)) db)\<lparr>md_schema := s\<rparr>"
      by (auto simp: mig_steps exec_script_def split: sum.splits)
    then show ?thesis using that(2) applied(2) by blast
  qed
qed

text \<open>What a downward run that still has to revert \<open>versions\<close> may end with.\<close>

definition down_spec :: "'d mig_env \<Rightarrow> migration set \<Rightarrow> string list \<Rightarrow> migration list \<Rightarrow> 'd mig_db \<Rightarrow>
    migration list \<times> goerr option \<times> 'd mig_db \<Rightarrow> bool" where
  "down_spec env ms versions completed db out \<longleftrightarrow> (case out of (completed', err, db') \<Rightarrow>
     \<exists>fin extra. completed' = completed @ fin \<and> reverted env (fin @ extra) db db' \<and> set (fin @ extra) \<subseteq> ms
       \<and> prefix (map mg_Version (fin @ extra)) versions
       \<and> (extra \<noteq> [] \<longrightarrow> err \<noteq> None \<and> length extra = 1 \<and> ambiguous_commit env)
       \<and> (err = None \<longrightarrow> map mg_Version fin = versions))"

lemma down_spec_stop: "(err = None \<Longrightarrow> versions = []) \<Longrightarrow> down_spec env ms versions completed db (completed, err, db)"
  unfolding down_spec_def prod.case by (intro exI [of _ "[]"]) (auto simp: reverted_Nil)

lemma down_spec_step:
  assumes "down_spec env ms versions (completed @ [m]) db1 out" and "me_exec env (mg_Down m) (md_schema db) = Inr s"
    and "md_ledger db \<noteq> None" and "m \<in> ms"
    and "db1 = (set_rows (filter (\<lambda>r. lr_version r \<noteq> mg_Version m) (ledger_rows db)) db)\<lparr>md_schema := s\<rparr>"
  shows "down_spec env ms (mg_Version m # versions) completed db out"
proof -
  obtain completed' err db' where out: "out = (completed', err, db')" by (rule prod_cases3)
  from assms(1) obtain fin extra where spec: "completed' = (completed @ [m]) @ fin" "reverted env (fin @ extra) db1 db'"
    "set (fin @ extra) \<subseteq> ms" "prefix (map mg_Version (fin @ extra)) versions"
    "extra \<noteq> [] \<longrightarrow> err \<noteq> None \<and> length extra = 1 \<and> ambiguous_commit env" "err = None \<longrightarrow> map mg_Version fin = versions"
    unfolding down_spec_def out prod.case by blast
  have "reverted env ((m # fin) @ extra) db db'"
    using reverted_Cons [OF assms(2,3)] spec(2) assms(5) by simp
  then show ?thesis
    unfolding down_spec_def out prod.case
    using spec(1,3-6) assms(4) by (intro exI [of _ "m # fin"] exI [of _ extra]) simp
qed

lemma down_loop_ok:
  assumes "transactional env" and "distinct (map mg_Version ms)" and "md_ledger db \<noteq> None"
  shows "down_spec env (set ms) versions completed db (down_loop env (by_version ms) versions completed db)"
  using assms(3)
proof (induction versions arbitrary: completed db)
  case Nil
  then show ?case by (simp add: down_spec_stop)
next
  case (Cons v versions)
  show ?case
  proof (cases "map_of (by_version ms) v")
    case None
    then show ?thesis by (simp, intro down_spec_stop) simp
  next
    case (Some m)
    then have m: "m \<in> set ms" "v = mg_Version m" using by_version_iff [OF assms(2)] by auto
    show ?thesis
    proof (cases "TrimSpace (mg_Down m) = []")
      case True
      with Some show ?thesis by (simp, intro down_spec_stop) simp
    next
      case False
      obtain r db1 where step: "apply_down env m db = (r, db1)" by (cases "apply_down env m db")
      have loop: "down_loop env (by_version ms) (v # versions) completed db = (case r of
          Inl err \<Rightarrow> (completed, Some err, db1) | Inr _ \<Rightarrow> down_loop env (by_version ms) versions (completed @ [m]) db1)"
        using Some False step by simp
      from step assms(1) show ?thesis
      proof (cases rule: apply_down_cases)
        case (refused e)
        show ?thesis unfolding loop refused sum.case by (rule down_spec_stop) simp
      next
        case (applied s)
        have ledger: "md_ledger db1 \<noteq> None" using applied(2) Cons.prems by simp
        show ?thesis
        proof (cases "r = Inr ()")
          case True
          show ?thesis unfolding loop True sum.case unfolding m(2)
            by (rule down_spec_step [OF Cons.IH [OF ledger] applied(1) Cons.prems m(1) applied(2)])
        next
          case False
          then obtain e where e: "r = Inl e" "ambiguous_commit env" using applied(3) by blast
          have "reverted env [m] db db1"
            using reverted_Cons [OF applied(1) Cons.prems, of "[]"] reverted_Nil [of env db1] applied(2) by simp
          then show ?thesis unfolding loop e(1) sum.case unfolding m(2) down_spec_def prod.case
            using e(2) m(1) by (intro exI [of _ "[]"] exI [of _ "[m]"]) simp
        qed
      qed
    qed
  qed
qed

lemma prefix_latest:
  assumes "prefix vs (latest_versions n rows)" and "distinct (map lr_version rows)"
  shows "sorted_wrt (>) vs" and "set vs \<subseteq> lr_version ` set rows"
    and "r \<in> set rows \<Longrightarrow> lr_version r \<notin> set vs \<Longrightarrow> v \<in> set vs \<Longrightarrow> lr_version r < v"
proof -
  let ?all = "rev (sort (map lr_version rows))"
  have sorted: "sorted_wrt (>) ?all"
    using assms(2) by (simp add: sorted_wrt_rev strict_sorted_iff)
  obtain zs where split: "?all = vs @ zs"
    using assms(1) unfolding latest_versions_def prefix_def by (metis append.assoc append_take_drop_id)
  show "sorted_wrt (>) vs" using sorted unfolding split by (simp add: sorted_wrt_append)
  have all: "set vs \<union> set zs = lr_version ` set rows"
    using arg_cong [OF split, of set] by simp
  then show "set vs \<subseteq> lr_version ` set rows" by blast
  show "lr_version r < v" if "r \<in> set rows" "lr_version r \<notin> set vs" "v \<in> set vs"
  proof -
    have "lr_version r \<in> set zs" using that(1,2) all by blast
    then show ?thesis using that(3) sorted unfolding split by (simp add: sorted_wrt_append)
  qed
qed

text \<open>C37: on PostgreSQL and SQLite a downward run reverts the latest applied versions, in descending order, each
  completely or not at all. Whatever fails, the database afterwards is the one before with the down scripts of
  some migrations executed, in strictly descending order of their versions, and exactly their rows removed; every
  row that is left has a lower version. These migrations are the ones the run returns, or one more after
  an ambiguous commit. Without an error as many as asked for are reverted, or all there are; a step
  count that is not positive means one.\<close>

theorem migrate_down:
  assumes "transactional env" and "ledger_ready db" and "mr_Dialect mr \<noteq> MySQL" and "Migrator_load env = Inr ms"
    and "Migrator_Down env mr steps db = (completed, err, db')"
  shows "\<exists>extra. set (completed @ extra) \<subseteq> set ms
    \<and> mg_Version ` set (completed @ extra) \<subseteq> lr_version ` set (ledger_rows db)
    \<and> sorted_wrt (>) (map mg_Version (completed @ extra))
    \<and> (\<forall>r \<in> set (ledger_rows db'). \<forall>m \<in> set (completed @ extra). lr_version r < mg_Version m)
    \<and> (extra \<noteq> [] \<longrightarrow> err \<noteq> None \<and> length extra = 1 \<and> ambiguous_commit env)
    \<and> exec_all env (map mg_Down (completed @ extra)) (md_schema db) = Inr (md_schema db')
    \<and> ledger_rows db' = filter (\<lambda>r. lr_version r \<notin> mg_Version ` set (completed @ extra)) (ledger_rows db)
    \<and> (err = None \<longrightarrow> length completed = min (nat (if steps \<le> 0 then 1 else steps)) (length (ledger_rows db)))"
    (is "\<exists>extra. ?P extra")
proof -
  let ?n = "if steps \<le> 0 then 1 else steps"
  have trivial: "?P []" if "completed = []" "err \<noteq> None" "db' = db \<or> db' = create_ledger db"
    using that by auto
  from assms(5) show ?thesis
    unfolding Migrator_Down_def Let_def
  proof (cases rule: withRunLock_cases)
    case refused
    then show ?thesis using trivial by blast
  next
    case (ran err0)
    obtain res db1 where start: "run_begin env mr db = (res, db1)" by (cases "run_begin env mr db")
    from assms(2,3) start show ?thesis
    proof (cases rule: run_begin_cases)
      case (failed e)
      then have "completed = []" "err \<noteq> None" "db' = db \<or> db' = create_ledger db"
        using ran start by (auto simp: mig_bind_def)
      then show ?thesis using trivial by blast
    next
      case (ready ms')
      obtain t where t: "Migrator_table mr = Inr t" using ready(6) by (auto simp: is_ok_iff)
      have ms': "ms' = ms" using ready(3) assms(4) by simp
      show ?thesis
      proof (cases "me_fail env ListVersions")
        case (Some e)
        then have "completed = []" "err \<noteq> None" "db' = create_ledger db"
          using ran start ready(1,2) t by (auto simp: mig_bind_def mig_lift_def run_stmt_def)
        then show ?thesis using trivial by blast
      next
        case None
        then have "down_loop env (by_version ms) (latest_versions ?n (ledger_rows db)) [] (create_ledger db) = (completed, err0, db')"
          using ran(1) start ready(1,2) t ms' by (simp add: mig_bind_def mig_lift_def mig_return_def run_stmt_def)
        with down_loop_ok [OF assms(1) load_sorted(1) [OF assms(4)], of "create_ledger db" "latest_versions ?n (ledger_rows db)" "[]"]
        obtain extra where spec: "reverted env (completed @ extra) (create_ledger db) db'" "set (completed @ extra) \<subseteq> set ms"
          "prefix (map mg_Version (completed @ extra)) (latest_versions ?n (ledger_rows db))"
          "extra \<noteq> [] \<longrightarrow> err0 \<noteq> None \<and> length extra = 1 \<and> ambiguous_commit env"
          "err0 = None \<longrightarrow> map mg_Version completed = latest_versions ?n (ledger_rows db)"
          by (auto simp: down_spec_def)
        have db': "db' = (set_rows (filter (\<lambda>r. lr_version r \<notin> mg_Version ` set (completed @ extra)) (ledger_rows db))
            (create_ledger db))\<lparr>md_schema := md_schema db'\<rparr>"
          using spec(1) by (simp add: reverted_def)
        have "ledger_rows db' = filter (\<lambda>r. lr_version r \<notin> mg_Version ` set (completed @ extra)) (ledger_rows db)"
          by (subst db') (simp add: ledger_rows_set)
        moreover have "exec_all env (map mg_Down (completed @ extra)) (md_schema db) = Inr (md_schema db')"
          using spec(1) by (simp add: reverted_def)
        moreover have "length completed = min (nat ?n) (length (ledger_rows db))" if "err0 = None"
          using arg_cong [OF mp [OF spec(5) that], of length] by (simp add: latest_versions_def)
        moreover note latest = prefix_latest [OF spec(3) ready_ledger(2) [OF assms(2)]]
        have "\<forall>r \<in> set (ledger_rows db'). \<forall>m \<in> set (completed @ extra). lr_version r < mg_Version m"
          unfolding calculation(1) using latest(3) by (simp add: image_Un) blast
        ultimately have "?P extra" using spec(2,4) ran(2,3) latest(1,2) unfolding set_map by blast
        then show ?thesis ..
      qed
    qed
  qed
qed

theorem migrate_down_witness:
  "Migrator_Down demo_mig_env demo_migrator 0 (demo_mig_db ''41'') =
     (take 1 demo_migrations, None, (demo_mig_db ''41'')\<lparr>md_schema := [''A'', ''a''], md_ledger := Some (RequiredChecksum, [])\<rparr>)
   \<and> length (take 1 demo_migrations) = min (nat 1) (length (ledger_rows (demo_mig_db ''41'')))"
proof -
  have run: "Migrator_Down demo_mig_env demo_migrator 0 (demo_mig_db ''41'') =
     (take 1 demo_migrations, None, (demo_mig_db ''41'')\<lparr>md_schema := [''A'', ''a''], md_ledger := Some (RequiredChecksum, [])\<rparr>)"
    by (simp add: Migrator_Down_def apply_down_def by_version_def latest_versions_def demo_steps)
  from migrate_down [OF demo_transactional demo_ready demo_load run] show ?thesis using run by auto
qed

section \<open>Upgrading a ledger without checksums\<close>

definition filled :: "'d mig_env \<Rightarrow> (string, migration) gomap \<Rightarrow> ledger_row \<Rightarrow> ledger_row \<Rightarrow> bool" where
  "filled env bv r r' \<longleftrightarrow> r' = r \<or> lr_checksum r = None
     \<and> (\<exists>m. map_of bv (lr_version r) = Some m \<and> r' = r\<lparr>lr_checksum := Some (migration_checksum env m)\<rparr>)"

lemma filled_trans: "filled env bv r r' \<Longrightarrow> filled env bv r' r'' \<Longrightarrow> filled env bv r r''"
  by (auto simp: filled_def)

lemma filled_version: "filled env bv r r' \<Longrightarrow> lr_version r' = lr_version r \<and> (lr_checksum r \<noteq> None \<longrightarrow> lr_checksum r' \<noteq> None)"
  by (auto simp: filled_def)

lemma backfill_filled: "map_of bv v = Some m \<Longrightarrow> list_all2 (filled env bv) rows (backfill_rows v (migration_checksum env m) rows)"
  by (auto simp: backfill_rows_def list_all2_conv_all_nth filled_def)

lemma backfill_complete: "\<forall>r \<in> set (backfill_rows v c rows). lr_version r = v \<longrightarrow> lr_checksum r \<noteq> None"
proof (intro ballI impI)
  fix r assume "r \<in> set (backfill_rows v c rows)" "lr_version r = v"
  then obtain x where "r = (if lr_version x = v \<and> lr_checksum x = None then x\<lparr>lr_checksum := Some c\<rparr> else x)"
    unfolding backfill_rows_def set_map by blast
  with \<open>lr_version r = v\<close> show "lr_checksum r \<noteq> None" by (simp split: if_split_asm)
qed

text \<open>What the loop has checked of an applied migration once it has succeeded.\<close>

definition entry_checked :: "'d mig_env \<Rightarrow> (string, migration) gomap \<Rightarrow> ledger_row list \<Rightarrow> string \<times> applied_migration \<Rightarrow> bool" where
  "entry_checked env bv rows e \<longleftrightarrow> (\<exists>m. map_of bv (fst e) = Some m \<and> am_Name (snd e) = mg_Name m
     \<and> (case am_Checksum (snd e) of Some c \<Rightarrow> c = migration_checksum env m
        | None \<Rightarrow> \<forall>r \<in> set rows. lr_version r = fst e \<longrightarrow> lr_checksum r \<noteq> None))"

lemma entry_checked_mono:
  assumes "entry_checked env bv rows e" and "list_all2 (filled env bv) rows rows'"
  shows "entry_checked env bv rows' e"
proof -
  have "lr_checksum r' \<noteq> None" if "\<forall>r \<in> set rows. lr_version r = v \<longrightarrow> lr_checksum r \<noteq> None" "r' \<in> set rows'" "lr_version r' = v" for r' v
  proof -
    from that(2) assms(2) obtain r where "r \<in> set rows" "filled env bv r r'"
      by (metis in_set_conv_nth list_all2_conv_all_nth)
    then show ?thesis using that(1,3) filled_version [of env bv r r'] by auto
  qed
  then show ?thesis using assms(1) unfolding entry_checked_def by (fastforce split: option.splits)
qed

lemma verify_step:
  assumes "verify_loop env bv True ((v, rec) # ap) db = (Inr (), db')"
  obtains m where "map_of bv v = Some m" "am_Name rec = mg_Name m"
    "am_Checksum rec = Some (migration_checksum env m) \<and> verify_loop env bv True ap db = (Inr (), db')
     \<or> am_Checksum rec = None \<and> verify_loop env bv True ap
         (set_rows (backfill_rows v (migration_checksum env m) (ledger_rows db)) db) = (Inr (), db')"
proof -
  from assms obtain m where m: "map_of bv v = Some m" "am_Name rec = mg_Name m"
    by (cases "map_of bv v") (simp_all split: if_splits)
  from assms m have "am_Checksum rec = Some (migration_checksum env m) \<and> verify_loop env bv True ap db = (Inr (), db')
     \<or> am_Checksum rec = None \<and> verify_loop env bv True ap
         (set_rows (backfill_rows v (migration_checksum env m) (ledger_rows db)) db) = (Inr (), db')"
    by (cases "am_Checksum rec"; cases "me_fail env (Backfill v)"; cases "me_fail env (ConfirmBackfill v)")
      (simp_all add: Let_def split: if_splits)
  with m show ?thesis by (rule that)
qed

lemma verify_backfill:
  assumes "verify_loop env bv True ap db = (Inr (), db')" and "md_ledger db = Some (col, rows)"
  shows "\<exists>rows'. db' = db\<lparr>md_ledger := Some (col, rows')\<rparr> \<and> list_all2 (filled env bv) rows rows'
    \<and> (\<forall>e \<in> set ap. entry_checked env bv rows' e)"
  using assms
proof (induction ap arbitrary: db rows)
  case Nil
  then have "db' = db\<lparr>md_ledger := Some (col, rows)\<rparr>" by simp
  moreover have "list_all2 (filled env bv) rows rows" by (simp add: filled_def list_all2_same)
  ultimately show ?case by (intro exI [of _ rows]) simp
next
  case (Cons e ap)
  obtain v rec where e: "e = (v, rec)" by (cases e)
  from Cons.prems(1) [unfolded e] obtain m where m: "map_of bv v = Some m" "am_Name rec = mg_Name m"
    and step: "am_Checksum rec = Some (migration_checksum env m) \<and> verify_loop env bv True ap db = (Inr (), db')
     \<or> am_Checksum rec = None \<and> verify_loop env bv True ap
         (set_rows (backfill_rows v (migration_checksum env m) (ledger_rows db)) db) = (Inr (), db')"
    by (rule verify_step)
  define rows1 where "rows1 = (if am_Checksum rec = None then backfill_rows v (migration_checksum env m) rows else rows)"
  have filled: "list_all2 (filled env bv) rows rows1"
    using backfill_filled [OF m(1), of env rows] by (simp add: rows1_def filled_def list_all2_same)
  have same: "db\<lparr>md_ledger := Some (col, rows)\<rparr> = db" using Cons.prems(2) by (cases db) simp
  have "verify_loop env bv True ap (db\<lparr>md_ledger := Some (col, rows1)\<rparr>) = (Inr (), db')"
  proof (cases "am_Checksum rec")
    case None
    with step Cons.prems(2) show ?thesis by (simp add: rows1_def set_rows_def ledger_rows_def)
  next
    case (Some c)
    then have "rows1 = rows" by (simp add: rows1_def)
    then have "db\<lparr>md_ledger := Some (col, rows1)\<rparr> = db" using same by (rule ssubst)
    moreover have "verify_loop env bv True ap db = (Inr (), db')" using step Some by simp
    ultimately show ?thesis by (rule ssubst)
  qed
  moreover have "md_ledger (db\<lparr>md_ledger := Some (col, rows1)\<rparr>) = Some (col, rows1)" by simp
  ultimately obtain rows' where
    rows': "db' = db\<lparr>md_ledger := Some (col, rows1), md_ledger := Some (col, rows')\<rparr>" "list_all2 (filled env bv) rows1 rows'"
    "\<forall>e \<in> set ap. entry_checked env bv rows' e"
    using Cons.IH by blast
  have "entry_checked env bv rows1 e"
  proof (cases "am_Checksum rec")
    case None
    then show ?thesis using m backfill_complete [of v "migration_checksum env m" rows] by (simp add: entry_checked_def e rows1_def)
  next
    case (Some c)
    then show ?thesis using m step by (simp add: entry_checked_def e)
  qed
  then have "entry_checked env bv rows' e" by (rule entry_checked_mono [OF _ rows'(2)])
  moreover have "list_all2 (filled env bv) rows rows'"
    by (rule list_all2_trans [OF _ filled rows'(2)]) (rule filled_trans)
  moreover have "db' = db\<lparr>md_ledger := Some (col, rows')\<rparr>" using rows'(1) by simp
  ultimately show ?case using rows'(3) by (intro exI [of _ rows'] conjI) simp_all
qed

text \<open>The rows of an upgraded ledger: only checksums are new, and one that was there is kept.\<close>

definition upgraded :: "checksum_column \<Rightarrow> ledger_row list \<Rightarrow> ledger_row list \<Rightarrow> bool" where
  "upgraded col rows rows' \<longleftrightarrow> list_all2 (\<lambda>r r'. r' = r\<lparr>lr_checksum := lr_checksum r'\<rparr>
     \<and> (col = NullableChecksum \<and> lr_checksum r \<noteq> None \<longrightarrow> r' = r)) rows rows'"

lemma backfill_verified:
  assumes "distinct (map mg_Version ms)" and "list_all2 (filled env (by_version ms)) rows rows'"
    and "\<forall>e \<in> set (map (\<lambda>r. (lr_version r, applied_entry env r)) rows). entry_checked env (by_version ms) rows' e"
  shows "verified env ms rows'"
  unfolding verified_def
proof
  fix r' assume r': "r' \<in> set rows'"
  then obtain r where r: "r \<in> set rows" "filled env (by_version ms) r r'"
    using assms(2) by (metis in_set_conv_nth list_all2_conv_all_nth)
  then have "entry_checked env (by_version ms) rows' (lr_version r, applied_entry env r)" using assms(3) by simp
  then obtain m where m: "map_of (by_version ms) (lr_version r) = Some m" "lr_name r = mg_Name m"
    "case lr_checksum r of Some c \<Rightarrow> c = migration_checksum env m
       | None \<Rightarrow> \<forall>x \<in> set rows'. lr_version x = lr_version r \<longrightarrow> lr_checksum x \<noteq> None"
    unfolding entry_checked_def applied_entry_def fst_conv snd_conv applied_migration.simps by blast
  have "m \<in> set ms" "mg_Version m = lr_version r" using m(1) by_version_iff [OF assms(1)] by auto
  moreover have "lr_name r' = lr_name r \<and> lr_version r' = lr_version r \<and> lr_checksum r' = Some (migration_checksum env m)"
  proof (cases "lr_checksum r")
    case None
    then show ?thesis using r(2) r' m(1,3) unfolding filled_def by fastforce
  next
    case (Some c)
    then show ?thesis using r(2) m(3) unfolding filled_def by simp
  qed
  ultimately show "row_matches env ms r'" using m(2) unfolding row_matches_def by metis
qed

lemma upgrade_work:
  assumes "mr_Dialect mr \<noteq> MySQL" and "distinct (map mg_Version ms)" and "distinct (map lr_version rows)"
    and "md_ledger db = Some (NullableChecksum, rows)"
    and "mig_bind (Migrator_applied env mr SelectLegacy) (\<lambda>applied.
         mig_bind (verifyApplied env mr ms applied True) (\<lambda>_. enforceChecksumNotNull env mr)) db = (Inr u, db')"
  shows "\<exists>rows'. db' = db\<lparr>md_ledger := Some (RequiredChecksum, rows')\<rparr> \<and> verified env ms rows'
    \<and> upgraded NullableChecksum rows rows'"
proof -
  from assms(5) obtain ap db1 where ap: "Migrator_applied env mr SelectLegacy db = (Inr ap, db)"
    and ver: "verify_loop env (by_version ms) True ap db = (Inr (), db1)"
    and enf: "enforceChecksumNotNull env mr db1 = (Inr u, db')"
    by (auto simp: mig_steps verifyApplied_def Migrator_applied_def split: if_splits)
  have "ap = map (\<lambda>r. (lr_version r, applied_entry env r)) rows"
    using ap assms(4) scan_applied_distinct [OF assms(1,3), of env ap]
    by (auto simp: Migrator_applied_def mig_steps ledger_rows_def split: if_splits)
  with verify_backfill [OF ver assms(4)] obtain rows' where rows': "db1 = db\<lparr>md_ledger := Some (NullableChecksum, rows')\<rparr>"
    "list_all2 (filled env (by_version ms)) rows rows'" "verified env ms rows'"
    using backfill_verified [OF assms(2)] by blast
  have "db' = db\<lparr>md_ledger := Some (RequiredChecksum, rows')\<rparr>"
    using enf rows'(1) by (auto simp: enforceChecksumNotNull_def mig_steps ledger_rows_def split: dialect.splits option.splits if_splits)
  moreover have "upgraded NullableChecksum rows rows'"
    unfolding upgraded_def using rows'(2) by (rule list_all2_mono) (auto simp: filled_def)
  ultimately show ?thesis using rows'(3) by blast
qed

text \<open>C40: on PostgreSQL and SQLite the upgrade of a ledger without checksums, or with a checksum column that may be
  null, is atomic and refuses to invent anything. Preparing such a ledger either fails and leaves the
  database as it was, or ends with a ledger in which the column is required and every row agrees in name and checksum with
  the files. Versions, names and times of the rows stay, and so does every checksum that was
  recorded. Only a commit that failed after the server had applied it reports an error for an upgraded ledger.\<close>

theorem migrate_upgrade:
  assumes "transactional env" and "mr_Dialect mr \<noteq> MySQL" and "Migrator_load env = Inr ms"
    and "md_ledger db = Some (col, rows)" and "col \<noteq> RequiredChecksum" and "distinct (map lr_version rows)"
    and "Migrator_prepare env mr ms db = (res, db')"
  shows "(\<exists>e. res = Inl e) \<and> db' = db
    \<or> (res = Inr () \<or> ambiguous_commit env) \<and> (\<exists>rows'. db' = db\<lparr>md_ledger := Some (RequiredChecksum, rows')\<rparr>
         \<and> verified env ms rows' \<and> upgraded col rows rows')"
proof (cases "Migrator_validate mr = Inr () \<and> (\<exists>t. Migrator_table mr = Inr t) \<and> me_fail env CreateLedger = None
    \<and> me_fail env InspectColumn = None")
  case False
  have "create_ledger db = db" using assms(4) by (simp add: create_ledger_def)
  with False have "\<exists>e. Migrator_prepare env mr ms db = (Inl e, db)"
    by (cases "Migrator_validate mr"; cases "Migrator_table mr"; cases "me_fail env CreateLedger"; cases "me_fail env InspectColumn")
      (simp_all add: Migrator_prepare_def mig_bind_def mig_lift_def run_stmt_def inspect_ledger_def columnState_def)
  then show ?thesis using assms(7) by auto
next
  case True
  let ?work = "mig_bind (Migrator_applied env mr SelectLegacy) (\<lambda>applied.
         mig_bind (verifyApplied env mr ms applied True) (\<lambda>_. enforceChecksumNotNull env mr))"
  have tx: "inTransaction env ''checksum upgrade'' (mig_bind (if has_checksum db then mig_return () else addNullableChecksum env mr)
      (\<lambda>_. ?work)) db = (res, db')"
    using True assms(2,4,5,7)
    by (cases col) (auto simp: Migrator_prepare_def upgradeLegacyChecksums_def mig_bind_def mig_lift_def run_stmt_def
        inspect_ledger_def columnState_def create_ledger_def has_checksum_def)
  from tx assms(1) show ?thesis
  proof (cases rule: inTransaction_cases)
    case (refused e)
    then show ?thesis by blast
  next
    case (applied u)
    define rows1 where "rows1 = (if col = NoChecksum then map (lr_checksum_update (\<lambda>_. None)) rows else rows)"
    have "?work (db\<lparr>md_ledger := Some (NullableChecksum, rows1)\<rparr>) = (Inr u, db')"
    proof (cases col)
      case NoChecksum
      with applied(1) assms(4) show ?thesis
        by (auto simp: mig_bind_Inr addNullableChecksum_def mig_lift_Inr run_stmt_Inr has_checksum_def rows1_def)
    next
      case NullableChecksum
      then have "db\<lparr>md_ledger := Some (NullableChecksum, rows1)\<rparr> = db" using assms(4) by (cases db) (simp add: rows1_def)
      moreover have "?work db = (Inr u, db')"
        using applied(1) assms(4) NullableChecksum by (simp add: mig_bind_def mig_return_def has_checksum_def)
      ultimately show ?thesis by (rule ssubst)
    qed (use assms(5) in simp)
    moreover have "distinct (map lr_version rows1)" using assms(6) by (simp add: rows1_def o_def)
    ultimately obtain rows' where rows': "db' = db\<lparr>md_ledger := Some (RequiredChecksum, rows')\<rparr>" "verified env ms rows'"
      "upgraded NullableChecksum rows1 rows'"
      using upgrade_work [OF assms(2) load_sorted(1) [OF assms(3)], of rows1 "db\<lparr>md_ledger := Some (NullableChecksum, rows1)\<rparr>" env u db']
      by auto
    have "upgraded col rows rows'"
      using rows'(3) assms(5) by (cases col) (auto simp: upgraded_def rows1_def list_all2_conv_all_nth)
    then show ?thesis using rows'(1,2) applied(2) by blast
  qed
qed

theorem migrate_upgrade_witness:
  "case Migrator_prepare demo_mig_env demo_migrator demo_migrations
     ((demo_mig_db [])\<lparr>md_ledger := Some (NoChecksum, ledger_rows (demo_mig_db []))\<rparr>) of
     (res, db') \<Rightarrow> res = Inr () \<and> verified demo_mig_env demo_migrations (ledger_rows db')"
proof -
  let ?db = "(demo_mig_db [])\<lparr>md_ledger := Some (NoChecksum, ledger_rows (demo_mig_db []))\<rparr>"
  obtain db' where run: "Migrator_prepare demo_mig_env demo_migrator demo_migrations ?db = (Inr (), db')"
  proof
    show "Migrator_prepare demo_mig_env demo_migrator demo_migrations ?db =
        (Inr (), ?db\<lparr>md_ledger := Some (RequiredChecksum, ledger_rows (demo_mig_db ''41''))\<rparr>)"
      by (simp add: Migrator_prepare_def Migrator_validate_def create_ledger_def inspect_ledger_def columnState_def
          upgradeLegacyChecksums_def addNullableChecksum_def Migrator_applied_def has_checksum_def verifyApplied_def by_version_def
          backfill_rows_def enforceChecksumNotNull_def demo_steps demo_checksum demo_hex)
  qed
  have "distinct (map lr_version (ledger_rows (demo_mig_db [])))" by (simp add: ledger_rows_def demo_fields)
  then show ?thesis
    using migrate_upgrade [OF demo_transactional demo_ready(2) demo_load _ _ _ run, of NoChecksum "ledger_rows (demo_mig_db [])"] run
    by (auto simp: ledger_rows_def)
qed

end
