(* ===== verification/Spec2Isabelle.thy ===== *)
theory Spec2Isabelle
  imports Go_Regexp Go_Strings Go_Json Cache RateLimit Session Job_Observer Job_Core Job_Store Job_Store_Inv Job_Store_Props
    Job_Worker Job_Worker_Run Schedule_Cron Schedule Database Schedule_Store Schedule_Props Schedule_Store_Props Migrate Migrate_Props
begin

text \<open>
  Verification of the GoForge application framework.
\<close>

section \<open>Schedules and jobs\<close>

lemma schedule_dispatch_enqueues:
  assumes "schedule_dispatch target marshal build name dispatcher x oc cx db = (Inr res, evs, db')"
    and "dp_store dispatcher = Some (pg_job_store env st now locked)"
  obtains req where "er_DedupKey req = ''goforge:schedule:'' @ name" "er_Queue req = pol_Queue (def_policy target)"
    "er_Name req = def_name target" "PG_Enqueue env st now False req db = (Inr res, db')"
proof -
  have "cx_before cx = None" using assms(1) by (cases "cx_before cx") (simp_all add: schedule_dispatch_def)
  moreover obtain payload where "build oc = Inr payload"
    using assms(1) calculation by (cases "build oc") (simp_all add: schedule_dispatch_def)
  moreover have "cx_after cx = None"
    using assms(1) calculation by (cases "cx_after cx") (simp_all add: schedule_dispatch_def)
  ultimately have
    run: "Dispatch target (Dispatcher_Using (Some x) dispatcher) (marshal payload) (cx_rnd cx) (cx_now cx)
        [Deduplicate (''goforge:schedule:'' @ name)] db = (Inr res, evs, db')"
    using assms(1) by (simp add: schedule_dispatch_def)
  from run show ?thesis
  proof (cases rule: Dispatch_cases)
    case (stored S y req r)
    have "S = pg_job_store env st now locked" using stored(1) assms(2) by (simp add: Dispatcher_Using_def)
    then have enq: "PG_Enqueue env st now False req db = (r, db')" using stored(4) by (simp add: pg_job_store_def)
    have "r = Inr res" using stored(5) by (cases r) auto
    moreover have "er_DedupKey req = ''goforge:schedule:'' @ name" "er_Queue req = pol_Queue (def_policy target)"
      "er_Name req = def_name target"
      using stored(3) unfolding dispatch_request_def
      by (auto simp: Deduplicate_def dispatch_settings_of_def split: if_splits sum.splits)
    ultimately show ?thesis using that enq by blast
  qed simp
qed

lemma Schedule_Define_fields:
  assumes "Schedule_Define parse utc marshal_input sha256 marshal name expression target f options = Inr d"
  obtains build where "sd_name d = name" "sd_jobName d = def_name target" "sd_policy d = def_policy target"
    "sd_materialize d = Some (schedule_dispatch target marshal build name)"
proof -
  have "fc_err f = None"
    using assms unfolding Schedule_Define_def guard_Inr by (cases "fc_err f") (simp_all only: option.case sum.distinct simp_thms)
  moreover obtain build where "fc_build f = Some build"
    using assms calculation unfolding Schedule_Define_def guard_Inr
    by (cases "fc_build f") (simp_all only: option.case sum.distinct simp_thms)
  ultimately have "\<exists>(settings :: definition_settings) parsed fingerprint. d = \<lparr>sd_name = name, sd_expression = parsed, sd_timeZone = ds_timeZone settings,
      sd_location = ds_location settings, sd_misfireGrace = ds_misfireGrace settings, sd_jobName = def_name target,
      sd_policy = def_policy target, sd_fingerprint = fingerprint,
      sd_materialize = Some (schedule_dispatch target marshal build name)\<rparr>"
    using assms unfolding Schedule_Define_def by (simp only: option.case guard_Inr case_Inr sum.inject)
      (elim conjE exE, intro exI, erule sym)
  then show ?thesis using that by auto
qed

lemma callback_overlap:
  assumes "Schedule_Define parse utc marshal_input sha256 marshal name expression target f options = Inr d"
    and "dp_store dispatcher = Some (pg_job_store env st now locked)" and "store_reachable env st db"
    and "row \<in> set (db_jobs db)" and "jr_dedup_key row = Some (''goforge:schedule:'' @ name)"
    and "jr_queue row = pol_Queue (def_policy target)" and "jr_name row = def_name target"
    and "scheduler_callback dispatcher d x raw cx db = (Inr res, evs, db')"
  shows "db' = db \<and> dr_ID res = jr_id row"
proof -
  from assms(1) obtain build where build: "sd_materialize d = Some (schedule_dispatch target marshal build name)"
    by (rule Schedule_Define_fields)
  obtain oc where "schedule_dispatch target marshal build name dispatcher x oc cx db = (Inr res, evs, db')"
    using assms(8) build
    by (cases "Definition_occurrence d (oc_ScheduledAt raw)") (simp_all add: scheduler_callback_def)
  then obtain req where "er_DedupKey req = ''goforge:schedule:'' @ name" "er_Queue req = pol_Queue (def_policy target)"
    "er_Name req = def_name target" "PG_Enqueue env st now False req db = (Inr res, db')"
    by (rule schedule_dispatch_enqueues [OF _ assms(2)])
  then show ?thesis using enqueue_queued [OF assms(3,4), of req now res db'] assms(5-7) by simp
qed

text \<open>C35: the runs of a schedule never overlap. While the job of an earlier occurrence is still in the queue,
  waiting or running, evaluating the schedule, whatever the clock, the lock contention and the failures of
  the database, stores no further job; a due occurrence is recorded with the ID of the job that is already there.
  This holds for every definition made by Define and dispatched by the scheduler to the PostgreSQL job store.\<close>

theorem schedule_no_overlap:
  assumes "Schedule_Define parse utc marshal_input sha256 marshal name expression target f options = Inr d"
    and "dp_store dispatcher = Some (pg_job_store env st now locked)" and "store_reachable env st (sdb_jobs db)"
    and "row \<in> set (db_jobs (sdb_jobs db))" and "jr_dedup_key row = Some (''goforge:schedule:'' @ name)"
    and "jr_queue row = pol_Queue (def_policy target)" and "jr_name row = def_name target"
    and "Materialize utc tenv x d (Some (scheduler_callback dispatcher d)) cx db = (r, evs, db')"
  shows "sdb_jobs db' = sdb_jobs db \<and> (\<forall>res. r = Inr res \<and> sr_JobID res \<noteq> [] \<longrightarrow> sr_JobID res = jr_id row)"
  using assms(8)
proof (cases rule: Materialize_cases)
  case (applied f' x' evs')
  then have f': "f' = scheduler_callback dispatcher d" by simp
  have "sdb_jobs db' = sdb_jobs db \<and> (sr_JobID x' \<noteq> [] \<longrightarrow> sr_JobID x' = jr_id row)"
    using applied(3)
  proof (cases rule: materialize_work_cases)
    case (evaluated stored rows)
    from evaluated(3) show ?thesis
    proof (cases rule: evaluate_row_cases)
      case (dispatched n rows' oc out res jobs)
      have "jobs = sdb_jobs db \<and> dr_ID res = jr_id row"
        using callback_overlap [OF assms(1-7)] dispatched(4) f' by simp
      then show ?thesis using dispatched(9,10) by simp
    qed (simp_all add: plain_result_def)
  qed (simp add: plain_result_def)
  then show ?thesis using applied(4) by auto
qed simp

definition demo_target :: job_definition where
  "demo_target = \<lparr>def_name = ''send.v1'', def_policy = \<lparr>pol_Queue = ''mail'', pol_MaxAttempts = 2, pol_Timeout = second, pol_Backoff = [second]\<rparr>\<rparr>"

definition demo_defined :: "(unit, jobs_db) schedule_definition result" where
  "demo_defined = Schedule_Define (\<lambda>_. Inr (SpecSchedule (\<lambda>_. demo_every hour))) demo_location (\<lambda>_. Inr [])
     (\<lambda>_. replicate 32 (CHR 0xAA)) (\<lambda>_. Inr ''{}'') ''tick.v1'' ''* * * * *'' demo_target (Dynamic (Some (\<lambda>_. Inr ()))) []"

lemma demo_parse:
  "parseCron (\<lambda>_. Inr (SpecSchedule (\<lambda>_. demo_every hour))) ''* * * * *'' l
     = Inr \<lparr>ce_canonical = ''* * * * *'', ce_schedule = Some (demo_every hour), ce_location = Some l\<rparr>"
proof -
  have "Fields ''* * * * *'' = [''*'', ''*'', ''*'', ''*'', ''*'']"
    by (simp add: Fields_def lead_len_ascii ascii_spaces_chars)
  moreover have "TrimSpace ''* * * * *'' = ''* * * * *''"
    by (simp add: TrimSpace_def trim_lead.simps lead_len_ascii ascii_spaces_chars)
  moreover have "contains ''CRON_TZ'' (to_upper ''* * * * *'') = False" by code_simp
  moreover have "cron_fields 0 [''*'', ''*'', ''*'', ''*'', ''*''] cron_bounds = Inr [''*'', ''*'', ''*'', ''*'', ''*'']"
    by code_simp
  moreover have "\<not> is_zero_time (demo_every hour epoch_2000)" by code_simp
  ultimately show ?thesis by (simp add: parseCron_def Let_def)
qed

lemma demo_is_defined: "\<exists>d. demo_defined = Inr d"
proof -
  have "TrimSpace ''tick.v1'' = ''tick.v1''" by (rule TrimSpace_name) code_simp
  then show ?thesis
    by (simp add: demo_defined_def Schedule_Define_def demo_patterns demo_target_def Dynamic_def demo_parse
        ScheduleMaxNameBytes_def definitionFingerprint_def del: rmatch.simps)
qed

definition demo_job :: jobs_db where
  "demo_job = store_exec demo_env demo_pg (10 * second)
     (OpEnqueue (demo_enqueue\<lparr>er_DedupKey := ''goforge:schedule:tick.v1''\<rparr>)) \<lparr>db_jobs = [], db_failed = []\<rparr>"

lemma demo_job_queued:
  "db_jobs demo_job = [demo_row\<lparr>jr_dedup_key := Some ''goforge:schedule:tick.v1''\<rparr>]"
proof -
  have "pg_text_ok ''goforge:schedule:tick.v1''" by code_simp
  then show ?thesis
    by (simp add: demo_job_def PG_Enqueue_def enqueue_invalid_def enqueue_row_def demo_enqueue_def demo_env_def demo_pg_def
        demo_names demo_ms durationsToMilliseconds_def MaxNameBytes_def MaxQueueBytes_def MaxDedupKeyBytes_def jobs_check_def
        backoff_check_def dedup_check_def insert_job_def demo_row_def del: rmatch.simps)
qed

definition demo_dispatcher :: "(unit, jobs_db) dispatcher" where
  "demo_dispatcher = \<lparr>dp_store = Some (pg_job_store demo_env demo_pg (11 * second) []), dp_executor = Some (), dp_maxPayloadBytes = 100\<rparr>"

theorem schedule_no_overlap_witness:
  "\<exists>d r evs db'. demo_defined = Inr d
     \<and> Materialize demo_location (demo_tx_env (190 * minute)) () d (Some (scheduler_callback demo_dispatcher d)) demo_call
         \<lparr>sdb_rows = [initial_row d (60 * minute) 1], sdb_jobs = demo_job\<rparr> = (r, evs, db')
     \<and> length (db_jobs (sdb_jobs db')) = 1"
proof -
  obtain d where d: "demo_defined = Inr d" using demo_is_defined by blast
  let ?db = "\<lparr>sdb_rows = [initial_row d (60 * minute) 1], sdb_jobs = demo_job\<rparr>"
  obtain r evs db' where run: "Materialize demo_location (demo_tx_env (190 * minute)) () d
      (Some (scheduler_callback demo_dispatcher d)) demo_call ?db = (r, evs, db')" by (rule prod_cases3)
  have reach: "store_reachable demo_env demo_pg demo_job" unfolding demo_job_def by (intro reach_exec reach_empty)
  have "sdb_jobs db' = demo_job"
    using schedule_no_overlap [OF d [unfolded demo_defined_def], of demo_dispatcher demo_env demo_pg "11 * second" "[]" ?db
        "demo_row\<lparr>jr_dedup_key := Some ''goforge:schedule:tick.v1''\<rparr>", OF _ _ _ _ _ _ run] reach
    by (simp add: demo_dispatcher_def demo_job_queued demo_row_def demo_target_def)
  then have one: "length (db_jobs (sdb_jobs db')) = 1" by (simp add: demo_job_queued)
  show ?thesis by (intro exI conjI, rule d, rule run, rule one)
qed

end
